theory Spec2Isabelle
  imports Complex_Main "HOL-Library.AList"
begin

section \<open>Provider execution loop: Anthropic and Deepseek adapters\<close>

text \<open>
  A shallow embedding of \<^verbatim>\<open>executeRequest\<close> of
  \<^verbatim>\<open>sim/providers/anthropic/index.ts\<close> and
  \<^verbatim>\<open>sim/providers/deepseek/index.ts\<close>.

  Strings are lists of \<^typ>\<open>char\<close>; one \<^typ>\<open>char\<close> stands for one UTF-16 code unit
  below 256, code units above that range are not represented. Timestamps
  (\<^verbatim>\<open>Date.now()\<close>) and durations are integers of milliseconds, and an ISO timestamp
  \<^verbatim>\<open>new Date(t).toISOString()\<close> is represented by \<open>t\<close> itself. Token counts are
  natural numbers. The logger only prints and is left out.
\<close>

subsection \<open>JSON values and JavaScript helpers\<close>

datatype json =
  JNull
| JBool bool
| JNum rat
| JStr string
| JArr "json list"
| JObj "(string \<times> json) list"

text \<open>\<^verbatim>\<open>String(n)\<close> on an index: the decimal digits of a natural number.\<close>

fun decimal :: "nat \<Rightarrow> string" where
  "decimal n =
     (if n < 10 then [''0123456789'' ! n]
      else decimal (n div 10) @ [''0123456789'' ! (n mod 10)])"

declare decimal.simps [simp del]

text \<open>\<^verbatim>\<open>{ ...v }\<close>: the own enumerable properties of a value. An object gives its
  properties, an array its elements under their indices, a string its code units under
  their indices; \<^verbatim>\<open>null\<close>, a boolean and a number give nothing. The tool arguments of
  Deepseek are whatever \<^verbatim>\<open>JSON.parse\<close> made of the text of the model.\<close>

fun spread :: "json \<Rightarrow> (string \<times> json) list" where
  "spread (JObj kvs) = kvs"
| "spread (JArr xs) = zip (map decimal [0..<length xs]) xs"
| "spread (JStr s) = zip (map decimal [0..<length s]) (map (\<lambda>c. JStr [c]) s)"
| "spread _ = []"

text \<open>\<^verbatim>\<open>{ ...tool.params, ...toolArgs }\<close>: preset parameters first, model arguments
  second, so that a model argument overrides a preset of the same key. The list stands
  for the object: the order of its entries carries no meaning.\<close>

definition mergedArgs_of :: "json option \<Rightarrow> json \<Rightarrow> (string \<times> json) list" where
  "mergedArgs_of params toolArgs =
     fold (\<lambda>(k, v) acc. AList.update k v acc) (spread toolArgs)
       (case params of None \<Rightarrow> [] | Some p \<Rightarrow> spread p)"

text \<open>\<^verbatim>\<open>s.includes(sub)\<close>\<close>

fun includes_str :: "string \<Rightarrow> string \<Rightarrow> bool" where
  "includes_str [] sub = (sub = [])"
| "includes_str (c # cs) sub = (take (length sub) (c # cs) = sub \<or> includes_str cs sub)"

text \<open>\<^verbatim>\<open>parts.join(sep)\<close>\<close>

fun join_str :: "string \<Rightarrow> string list \<Rightarrow> string" where
  "join_str sep [] = []"
| "join_str sep [x] = x"
| "join_str sep (x # y # ys) = x @ sep @ join_str sep (y # ys)"

text \<open>White space and line terminators of ECMAScript among the code units below 256:
  TAB, LF, VT, FF, CR, SP and NBSP.\<close>

definition is_js_space :: "char \<Rightarrow> bool" where
  "is_js_space c \<longleftrightarrow> c \<in> {CHR 0x09, CHR 0x0A, CHR 0x0B, CHR 0x0C, CHR 0x0D, CHR 0x20, CHR 0xA0}"

text \<open>\<^verbatim>\<open>s.trim()\<close>\<close>

definition trim :: "string \<Rightarrow> string" where
  "trim s = rev (dropWhile is_js_space (rev (dropWhile is_js_space s)))"

subsection \<open>\<^verbatim>\<open>JSON.stringify(jsonTemplate, null, 2)\<close> on an object of strings\<close>

definition hex_digit :: "nat \<Rightarrow> char" where
  "hex_digit n = ''0123456789abcdef'' ! (n mod 16)"

text \<open>QuoteJSONString of ECMAScript, one code unit at a time.\<close>

definition json_escape_char :: "char \<Rightarrow> string" where
  \<open>json_escape_char c =
     (if c = CHR 0x08 then [CHR 0x5C, CHR ''b'']
      else if c = CHR 0x09 then [CHR 0x5C, CHR ''t'']
      else if c = CHR 0x0A then [CHR 0x5C, CHR ''n'']
      else if c = CHR 0x0C then [CHR 0x5C, CHR ''f'']
      else if c = CHR 0x0D then [CHR 0x5C, CHR ''r'']
      else if c = CHR 0x22 then [CHR 0x5C, CHR 0x22]
      else if c = CHR 0x5C then [CHR 0x5C, CHR 0x5C]
      else if (of_char c :: nat) < 32
        then [CHR 0x5C, CHR ''u'', CHR ''0'', CHR ''0'',
              hex_digit ((of_char c :: nat) div 16), hex_digit (of_char c :: nat)]
      else [c])\<close>

definition json_quote :: "string \<Rightarrow> string" where
  \<open>json_quote s = [CHR 0x22] @ concat (map json_escape_char s) @ [CHR 0x22]\<close>

text \<open>An object whose values are all strings, printed with an indentation of two spaces:
  \<^verbatim>\<open>{}\<close> when it has no property, otherwise one line per property between the braces.\<close>

definition stringify_indent2 :: "(string \<times> string) list \<Rightarrow> string" where
  \<open>stringify_indent2 obj =
     (if obj = [] then ''{}''
      else ''{'' @ [CHR 0x0A]
           @ join_str ('','' @ [CHR 0x0A])
               (map (\<lambda>(k, v). ''  '' @ json_quote k @ '': '' @ json_quote v) obj)
           @ [CHR 0x0A] @ ''}'')\<close>

subsection \<open>The request\<close>

record function_call =
  fc_name :: string
  fc_arguments :: string

record message =
  msg_role :: string
  msg_content :: "string option"
  msg_name :: "string option"
  msg_function_call :: "function_call option"

record tool_parameters =
  tp_properties :: json
  tp_required :: json

record tool =
  tool_id :: string
  tool_description :: string
  tool_parameters :: tool_parameters
  tool_params :: "json option"
  tool_usageControl :: "string option"

record property_schema =
  prop_type :: "string option"
  prop_description :: "string option"

text \<open>The properties of a schema in the order of \<^verbatim>\<open>Object.entries\<close>; the keys of an object
  are distinct.\<close>

type_synonym properties = "(string \<times> property_schema) list"

record schema =
  schema_properties :: "properties option"

text \<open>\<^verbatim>\<open>request.responseFormat\<close>: its \<^verbatim>\<open>schema\<close> field, and the
  \<^verbatim>\<open>properties\<close> field it may carry itself when it is the schema.\<close>

record response_format =
  rf_schema :: "schema option"
  rf_properties :: "properties option"

record request =
  req_apiKey :: "string option"
  req_systemPrompt :: "string option"
  req_context :: "string option"
  req_messages :: "message list option"
  req_tools :: "tool list option"
  req_responseFormat :: "response_format option"
  req_model :: "string option"
  req_temperature :: "rat option"
  req_maxTokens :: "nat option"

text \<open>Truthiness of an optional string: \<^verbatim>\<open>undefined\<close>, \<^verbatim>\<open>null\<close> and the empty
  string are falsy.\<close>

fun truthy_str :: "string option \<Rightarrow> bool" where
  "truthy_str None = False"
| "truthy_str (Some s) = (s \<noteq> [])"

text \<open>\<^verbatim>\<open>x || d\<close> on an optional string\<close>

definition or_default :: "string option \<Rightarrow> string \<Rightarrow> string" where
  "or_default x d = (case x of None \<Rightarrow> d | Some s \<Rightarrow> if s = [] then d else s)"

text \<open>\<^verbatim>\<open>request.tools?.find((t) => t.id === toolName)\<close>\<close>

definition find_tool :: "request \<Rightarrow> string \<Rightarrow> tool option" where
  "find_tool req toolName =
     (case req_tools req of None \<Rightarrow> None | Some ts \<Rightarrow> List.find (\<lambda>t. tool_id t = toolName) ts)"

subsection \<open>The outside world\<close>

text \<open>
  Everything \<^verbatim>\<open>executeRequest\<close> reads from or does to its surroundings goes through
  a \<open>world\<close>: how often the clock and the random generator were read, every payload
  sent to the vendor and every tool execution started, in order. The surroundings
  themselves are an \<open>env\<close> of oracles, each indexed by the number of earlier calls, so
  that any deterministic or non-deterministic run of vendor, tools and clock is one
  \<open>env\<close>.
\<close>

record 'p world =
  clock_reads :: nat
  random_reads :: nat
  vendor_log :: "'p list"
  tool_log :: "(string \<times> (string \<times> json) list) list"

text \<open>\<^verbatim>\<open>executeTool(name, args)\<close> throws or returns \<^verbatim>\<open>{success, output}\<close>.\<close>

datatype tool_outcome = ToolThrows string | ToolReturns bool json

text \<open>A \<^verbatim>\<open>tool_choice\<close> value: a string (\<^verbatim>\<open>'auto'\<close>, \<^verbatim>\<open>'none'\<close>, or another one),
  \<^verbatim>\<open>{type: 'tool', name}\<close>, an object with \<^verbatim>\<open>function.name\<close>,
  \<^verbatim>\<open>{type: 'any', any: {name}}\<close>, or any other object.\<close>

datatype tool_choice =
  ChoiceStr string
| ChoiceTool string
| ChoiceFunction string
| ChoiceAny "string option"
| ChoiceObject

text \<open>\<^verbatim>\<open>typeof tc === 'object'\<close> on an optional tool choice\<close>

fun is_object_choice :: "tool_choice option \<Rightarrow> bool" where
  "is_object_choice None = False"
| "is_object_choice (Some (ChoiceStr s)) = False"
| "is_object_choice (Some _) = True"

text \<open>A tool in the vendor's format: \<^verbatim>\<open>{name, description, input_schema: {type: 'object',
  properties, required}}\<close> for Anthropic,
  \<^verbatim>\<open>{type: 'function', function: {name, description, parameters}}\<close> for Deepseek.\<close>

datatype vendor_tool =
  AnthropicTool string string json json
| FunctionTool string string tool_parameters

text \<open>What \<^verbatim>\<open>prepareToolsWithUsageControl\<close> returns, as far as the two providers read it.\<close>

record prepared =
  prep_tools :: "vendor_tool list option"
  prep_toolChoice :: "tool_choice option"
  prep_forcedTools :: "string list"

text \<open>
  The oracles. \<open>vendor n p\<close> is the answer to the payload \<open>p\<close> sent as vendor call
  number \<open>n\<close> (from 0): \<open>Inl msg\<close> when the SDK call throws. \<open>json_parse\<close> is
  \<^verbatim>\<open>JSON.parse\<close> (\<open>None\<close> when it throws), \<open>syntax_error\<close> is the message of the
  \<^verbatim>\<open>SyntaxError\<close> it throws on a text it rejects, and \<open>json_stringify\<close> is
  \<^verbatim>\<open>JSON.stringify\<close> on tool outputs. \<open>prepareToolsWithUsageControl\<close> is the
  tool-usage policy engine of \<^verbatim>\<open>providers/utils\<close>, which the providers consume; it is
  a parameter here.
\<close>

record ('p, 'r) env =
  now :: "nat \<Rightarrow> int"
  random_suffix :: "nat \<Rightarrow> string"
  vendor :: "nat \<Rightarrow> 'p \<Rightarrow> string + 'r"
  executeTool :: "nat \<Rightarrow> string \<Rightarrow> (string \<times> json) list \<Rightarrow> tool_outcome"
  json_parse :: "string \<Rightarrow> json option"
  syntax_error :: "string \<Rightarrow> string"
  json_stringify :: "json \<Rightarrow> string"
  prepareToolsWithUsageControl :: "vendor_tool list \<Rightarrow> tool list option \<Rightarrow> string \<Rightarrow> prepared"

definition read_clock :: "('p, 'r) env \<Rightarrow> 'p world \<Rightarrow> int \<times> 'p world" where
  "read_clock env w = (now env (clock_reads w), w\<lparr>clock_reads := Suc (clock_reads w)\<rparr>)"

definition read_random :: "('p, 'r) env \<Rightarrow> 'p world \<Rightarrow> string \<times> 'p world" where
  "read_random env w = (random_suffix env (random_reads w), w\<lparr>random_reads := Suc (random_reads w)\<rparr>)"

definition call_vendor :: "('p, 'r) env \<Rightarrow> 'p \<Rightarrow> 'p world \<Rightarrow> (string + 'r) \<times> 'p world" where
  "call_vendor env payload w =
     (vendor env (length (vendor_log w)) payload, w\<lparr>vendor_log := vendor_log w @ [payload]\<rparr>)"

definition run_tool ::
  "('p, 'r) env \<Rightarrow> string \<Rightarrow> (string \<times> json) list \<Rightarrow> 'p world \<Rightarrow> tool_outcome \<times> 'p world" where
  "run_tool env toolName args w =
     (executeTool env (length (tool_log w)) toolName args, w\<lparr>tool_log := tool_log w @ [(toolName, args)]\<rparr>)"

definition world0 :: "'p world" where
  "world0 = \<lparr>clock_reads = 0, random_reads = 0, vendor_log = [], tool_log = []\<rparr>"

subsection \<open>Errors and the response envelope\<close>

record error_timing =
  et_startTime :: int
  et_endTime :: int
  et_duration :: int

text \<open>A thrown \<^verbatim>\<open>Error\<close>: its message and the \<^verbatim>\<open>timing\<close> property, when attached.\<close>

datatype error = Error string "error_timing option"

fun error_timing_of :: "error \<Rightarrow> error_timing option" where
  "error_timing_of (Error msg t) = t"

record tokens =
  tok_prompt :: nat
  tok_completion :: nat
  tok_total :: nat

record tool_call_record =
  tc_name :: string
  tc_arguments :: json
  tc_startTime :: int
  tc_endTime :: int
  tc_duration :: int
  tc_result :: json

text \<open>The name of a time segment: \<^verbatim>\<open>'Initial response'\<close>,
  \<^verbatim>\<open>`Model response (iteration ${n})`\<close>, or the name of the tool.\<close>

datatype segment_name = InitialResponse | ModelResponse nat | ToolSegment string

record time_segment =
  seg_type :: string
  seg_name :: segment_name
  seg_startTime :: int
  seg_endTime :: int
  seg_duration :: int

record timing =
  tm_startTime :: int
  tm_endTime :: int
  tm_duration :: int
  tm_modelTime :: int
  tm_toolsTime :: int
  tm_firstResponseTime :: int
  tm_iterations :: nat
  tm_timeSegments :: "time_segment list"

text \<open>\<^verbatim>\<open>ProviderResponse\<close>; \<open>None\<close> is \<^verbatim>\<open>undefined\<close>.\<close>

record provider_response =
  pr_content :: string
  pr_model :: "string option"
  pr_tokens :: tokens
  pr_toolCalls :: "tool_call_record list option"
  pr_toolResults :: "json list option"
  pr_timing :: timing

text \<open>\<^verbatim>\<open>xs.length > 0 ? xs : undefined\<close>\<close>

definition nonempty_or_undefined :: "'a list \<Rightarrow> 'a list option" where
  "nonempty_or_undefined xs = (if xs = [] then None else Some xs)"

definition MAX_ITERATIONS :: nat where
  "MAX_ITERATIONS = 10"

subsection \<open>Forced-tool tracker\<close>

text \<open>The tool a directive forces, in any of the vendors' formats.\<close>

fun forced_name :: "tool_choice \<Rightarrow> string option" where
  "forced_name (ChoiceTool n) = Some n"
| "forced_name (ChoiceFunction n) = Some n"
| "forced_name (ChoiceAny n) = n"
| "forced_name _ = None"

text \<open>
  Modelled from the spec: \<^verbatim>\<open>trackForcedToolUsage\<close> of \<^verbatim>\<open>providers/utils\<close>, which is
  not among the sources. The spec gives the contract
  \<^verbatim>\<open>track(observedToolCalls, toolChoiceDirective, forcedToolList, alreadyUsed) ->
  (hasUsedForcedTool, usedForcedTools)\<close>, a pure function, and: a forced tool counts as used
  the first time its name appears among the model's tool invocations in a response obtained
  while that tool's directive was active. The observed tool calls are given by their names.
\<close>

definition trackForcedToolUsage ::
  "string list \<Rightarrow> tool_choice \<Rightarrow> string list \<Rightarrow> string list \<Rightarrow> bool \<times> string list" where
  "trackForcedToolUsage observed directive forcedTools usedForcedTools =
     (case forced_name directive of
        None \<Rightarrow> (False, usedForcedTools)
      | Some t \<Rightarrow>
          if t \<in> set observed
          then (True, if t \<in> set usedForcedTools then usedForcedTools else usedForcedTools @ [t])
          else (False, usedForcedTools))"

section \<open>The Anthropic provider\<close>

subsection \<open>Messages, payload and response\<close>

text \<open>A tool-use identifier: \<^verbatim>\<open>msg.name\<close> of a function-role turn,
  \<^verbatim>\<open>name + '-' + Date.now()\<close> of a turn with a function call, or
  \<^verbatim>\<open>`${toolName}-${Date.now()}-${Math.random().toString(36).substring(2, 7)}`\<close> of
  \<^verbatim>\<open>generateToolUseId\<close>; the parts are kept apart instead of being printed into one
  string.\<close>

datatype tool_use_id =
  IdOfName "string option"
| IdNameTime string int
| IdGenerated string int string

datatype a_block =
  TextBlock string
| ToolUseBlock tool_use_id string json
| ToolResultBlock tool_use_id "string option"

datatype a_content = ContentString string | ContentBlocks "a_block list"

record a_message =
  am_role :: string
  am_content :: a_content

record a_payload =
  ap_model :: string
  ap_messages :: "a_message list"
  ap_system :: string
  ap_max_tokens :: nat
  ap_temperature :: rat
  ap_tools :: "vendor_tool list option"
  ap_tool_choice :: "tool_choice option"

text \<open>A content item of a response: \<^verbatim>\<open>{type: 'text', text}\<close>,
  \<^verbatim>\<open>{type: 'tool_use', id, name, input}\<close>, or an item of another type.\<close>

datatype a_resp_block =
  RespText string
| RespToolUse string string json
| RespOther

record a_usage =
  au_input_tokens :: "nat option"
  au_output_tokens :: "nat option"

text \<open>\<^verbatim>\<open>currentResponse\<close>; its \<^verbatim>\<open>content\<close> is an array, as the SDK types it.\<close>

record a_response =
  ar_content :: "a_resp_block list"
  ar_usage :: "a_usage option"

fun is_text :: "a_resp_block \<Rightarrow> bool" where
  "is_text (RespText t) = True"
| "is_text _ = False"

fun block_text :: "a_resp_block \<Rightarrow> string" where
  "block_text (RespText t) = t"
| "block_text _ = []"

fun is_tool_use :: "a_resp_block \<Rightarrow> bool" where
  "is_tool_use (RespToolUse i n a) = True"
| "is_tool_use _ = False"

fun tool_use_name :: "a_resp_block \<Rightarrow> string" where
  "tool_use_name (RespToolUse i n a) = n"
| "tool_use_name _ = []"

text \<open>\<^verbatim>\<open>content.filter((item) => item.type === 'text').map((item) => item.text).join('\n')\<close>\<close>

definition anthropic_text :: "a_response \<Rightarrow> string" where
  "anthropic_text resp = join_str [CHR 0x0A] (map block_text (filter is_text (ar_content resp)))"

text \<open>\<^verbatim>\<open>x || 0\<close> on an optional count\<close>

definition or_zero :: "nat option \<Rightarrow> nat" where
  "or_zero x = (case x of None \<Rightarrow> 0 | Some n \<Rightarrow> n)"

definition a_input_tokens :: "a_response \<Rightarrow> nat" where
  "a_input_tokens resp = (case ar_usage resp of None \<Rightarrow> 0 | Some u \<Rightarrow> or_zero (au_input_tokens u))"

definition a_output_tokens :: "a_response \<Rightarrow> nat" where
  "a_output_tokens resp = (case ar_usage resp of None \<Rightarrow> 0 | Some u \<Rightarrow> or_zero (au_output_tokens u))"

subsection \<open>Message normalisation (before the timer and the \<^verbatim>\<open>try\<close>)\<close>

text \<open>One step of \<^verbatim>\<open>request.messages.forEach\<close>. \<^verbatim>\<open>JSON.parse\<close> of the arguments of a
  function call throws on malformed text; the clock was read for the identifier before.\<close>

definition anthropic_normalize_message ::
  "(a_payload, a_response) env \<Rightarrow> message \<Rightarrow> a_payload world \<Rightarrow> (error + a_message) \<times> a_payload world" where
  "anthropic_normalize_message env msg w =
     (if msg_role msg = ''function''
      then (Inr \<lparr>am_role = ''user'',
                 am_content = ContentBlocks [ToolResultBlock (IdOfName (msg_name msg)) (msg_content msg)]\<rparr>, w)
      else case msg_function_call msg of
        Some fc \<Rightarrow>
          (case read_clock env w of (t, w1) \<Rightarrow>
             (case json_parse env (fc_arguments fc) of
                None \<Rightarrow> (Inl (Error (syntax_error env (fc_arguments fc)) None), w1)
              | Some input \<Rightarrow>
                  (Inr \<lparr>am_role = ''assistant'',
                        am_content = ContentBlocks
                          [ToolUseBlock (IdNameTime (fc_name fc) t) (fc_name fc) input]\<rparr>, w1)))
      | None \<Rightarrow>
          (Inr \<lparr>am_role = (if msg_role msg = ''assistant'' then ''assistant'' else ''user''),
                am_content = ContentBlocks
                  (case msg_content msg of
                     None \<Rightarrow> []
                   | Some c \<Rightarrow> if c = [] then [] else [TextBlock c])\<rparr>, w))"

fun anthropic_push_messages ::
  "(a_payload, a_response) env \<Rightarrow> message list \<Rightarrow> a_message list \<Rightarrow> a_payload world
     \<Rightarrow> (error + a_message list) \<times> a_payload world" where
  "anthropic_push_messages env [] messages w = (Inr messages, w)"
| "anthropic_push_messages env (msg # rest) messages w =
     (case anthropic_normalize_message env msg w of
        (Inl e, w') \<Rightarrow> (Inl e, w')
      | (Inr m, w') \<Rightarrow> anthropic_push_messages env rest (messages @ [m]) w')"

text \<open>Lines 33 to 90: the message array and the system prompt that is left.\<close>

definition anthropic_normalize ::
  "(a_payload, a_response) env \<Rightarrow> request \<Rightarrow> a_payload world
     \<Rightarrow> (error + a_message list \<times> string) \<times> a_payload world" where
  "anthropic_normalize env req w =
     (let systemPrompt = or_default (req_systemPrompt req) [];
          messages0 = (case req_context req of
                         None \<Rightarrow> []
                       | Some c \<Rightarrow> if c = [] then []
                                  else [\<lparr>am_role = ''user'', am_content = ContentString c\<rparr>])
      in case (case req_messages req of
                 None \<Rightarrow> (Inr messages0, w)
               | Some ms \<Rightarrow> anthropic_push_messages env ms messages0 w) of
           (Inl e, w') \<Rightarrow> (Inl e, w')
         | (Inr messages, w') \<Rightarrow>
             if messages = []
             then (Inr ([\<lparr>am_role = ''user'',
                          am_content = ContentBlocks
                            [TextBlock (if systemPrompt = [] then ''Hello'' else systemPrompt)]\<rparr>],
                        []), w')
             else (Inr (messages, systemPrompt), w'))"

subsection \<open>Tools and the tool choice\<close>

text \<open>\<^verbatim>\<open>anthropicTools\<close>; the empty list stands for \<^verbatim>\<open>undefined\<close>, of which only
  \<^verbatim>\<open>anthropicTools?.length\<close> is ever asked.\<close>

definition anthropic_tools_of :: "request \<Rightarrow> vendor_tool list" where
  "anthropic_tools_of req =
     (case req_tools req of
        None \<Rightarrow> []
      | Some ts \<Rightarrow>
          map (\<lambda>t. AnthropicTool (tool_id t) (tool_description t)
                     (tp_properties (tool_parameters t)) (tp_required (tool_parameters t))) ts)"

text \<open>Lines 120 to 136: what becomes of the \<^verbatim>\<open>toolChoice\<close> of the policy engine.\<close>

fun anthropic_choice :: "tool_choice option \<Rightarrow> tool_choice" where
  "anthropic_choice (Some (ChoiceTool n)) = ChoiceTool n"
| "anthropic_choice (Some (ChoiceStr s)) =
     (if s = ''auto'' \<or> s = ''none'' then ChoiceStr s else ChoiceStr ''auto'')"
| "anthropic_choice _ = ChoiceStr ''auto''"

definition anthropic_tool_setup ::
  "(a_payload, a_response) env \<Rightarrow> request \<Rightarrow> vendor_tool list \<times> tool_choice" where
  "anthropic_tool_setup env req =
     (let anthropicTools = anthropic_tools_of req
      in if anthropicTools \<noteq> []
         then (let p = prepareToolsWithUsageControl env anthropicTools (req_tools req) ''anthropic''
               in case prep_tools p of
                    None \<Rightarrow> (anthropicTools, ChoiceStr ''auto'')
                  | Some filteredTools \<Rightarrow>
                      if filteredTools \<noteq> []
                      then (filteredTools, anthropic_choice (prep_toolChoice p))
                      else (anthropicTools, ChoiceStr ''auto''))
         else (anthropicTools, ChoiceStr ''auto''))"

subsection \<open>Structured output: the instructions added to the system prompt\<close>

text \<open>\<^verbatim>\<open>prop.type || 'string'\<close>\<close>

definition propType :: "property_schema \<Rightarrow> string" where
  "propType prop = or_default (prop_type prop) ''string''"

text \<open>The \<^verbatim>\<open>switch\<close> of lines 156 to 174. Every example value is a string.\<close>

definition exampleValue :: "property_schema \<Rightarrow> string" where
  \<open>exampleValue prop =
     (if propType prop = ''string'' then [CHR 0x22] @ ''value'' @ [CHR 0x22]
      else if propType prop = ''number'' then ''0''
      else if propType prop = ''boolean'' then ''true''
      else if propType prop = ''array'' then ''[]''
      else if propType prop = ''object'' then ''{}''
      else [CHR 0x22] @ ''value'' @ [CHR 0x22])\<close>

text \<open>\<^verbatim>\<open>Object.entries(schema.properties).reduce(..., {})\<close> with
  \<^verbatim>\<open>acc[key] = exampleValue\<close>. On the key \<^verbatim>\<open>__proto__\<close> the assignment calls the
  setter of \<^verbatim>\<open>Object.prototype\<close>, which ignores a string: no property is added.\<close>

definition jsonTemplate :: "properties \<Rightarrow> (string \<times> string) list" where
  "jsonTemplate props =
     fold (\<lambda>(key, prop) acc. if key = ''__proto__'' then acc
                              else AList.update key (exampleValue prop) acc) props []"

definition fieldDescriptions :: "properties \<Rightarrow> string" where
  "fieldDescriptions props =
     join_str [CHR 0x0A]
       (map (\<lambda>(key, prop).
               key @ '' ('' @ propType prop @ '')''
               @ (case prop_description prop of
                    None \<Rightarrow> []
                  | Some d \<Rightarrow> if d = [] then [] else '': '' @ d)) props)"

definition schemaInstructions :: "properties \<Rightarrow> string" where
  "schemaInstructions props =
     [CHR 0x0A] @ ''IMPORTANT RESPONSE FORMAT INSTRUCTIONS:'' @ [CHR 0x0A]
     @ ''1. Your response must be EXACTLY in this format, with no additional fields:'' @ [CHR 0x0A]
     @ stringify_indent2 (jsonTemplate props) @ [CHR 0x0A]
     @ [CHR 0x0A]
     @ ''Field descriptions:'' @ [CHR 0x0A]
     @ fieldDescriptions props @ [CHR 0x0A]
     @ [CHR 0x0A]
     @ ''2. DO NOT include any explanatory text before or after the JSON'' @ [CHR 0x0A]
     @ ''3. DO NOT wrap the response in an array'' @ [CHR 0x0A]
     @ ''4. DO NOT add any fields not specified in the schema'' @ [CHR 0x0A]
     @ ''5. Your response MUST be valid JSON and include all the specified fields with their correct types''"

text \<open>\<^verbatim>\<open>(request.responseFormat.schema || request.responseFormat).properties\<close>\<close>

definition effective_properties :: "response_format \<Rightarrow> properties option" where
  "effective_properties rf =
     (case rf_schema rf of None \<Rightarrow> rf_properties rf | Some sch \<Rightarrow> schema_properties sch)"

text \<open>Lines 141 to 209: the system prompt after the structured-output block.\<close>

definition anthropic_system_prompt :: "string \<Rightarrow> response_format option \<Rightarrow> string" where
  "anthropic_system_prompt systemPrompt responseFormat =
     (case responseFormat of
        None \<Rightarrow> systemPrompt
      | Some rf \<Rightarrow>
          systemPrompt @ (case effective_properties rf of
                            None \<Rightarrow> []
                          | Some props \<Rightarrow> schemaInstructions props))"

text \<open>\<^verbatim>\<open>parseInt(String(n))\<close> on a non-negative integer: below \<open>10\<^sup>2\<^sup>1\<close>
  \<^verbatim>\<open>String\<close> prints the digits and \<^verbatim>\<open>parseInt\<close> reads them back; from there on it
  prints the exponent notation, of which \<^verbatim>\<open>parseInt\<close> reads the digit before the
  point.\<close>

fun leading_digit :: "nat \<Rightarrow> nat" where
  "leading_digit n = (if n < 10 then n else leading_digit (n div 10))"

declare leading_digit.simps [simp del]

definition parseInt_String :: "nat \<Rightarrow> nat" where
  "parseInt_String n = (if n < 10 ^ 21 then n else leading_digit n)"

definition anthropic_payload ::
  "request \<Rightarrow> a_message list \<Rightarrow> string \<Rightarrow> vendor_tool list \<Rightarrow> tool_choice \<Rightarrow> a_payload" where
  "anthropic_payload req messages systemPrompt anthropicTools toolChoice =
     \<lparr>ap_model = or_default (req_model req) ''claude-3-7-sonnet-20250219'',
      ap_messages = messages,
      ap_system = systemPrompt,
      ap_max_tokens =
        (case req_maxTokens req of
           None \<Rightarrow> 1024
         | Some n \<Rightarrow> if parseInt_String n = 0 then 1024 else parseInt_String n),
      ap_temperature = (case req_temperature req of None \<Rightarrow> 7 / 10 | Some t \<Rightarrow> t),
      ap_tools = (if anthropicTools \<noteq> [] then Some anthropicTools else None),
      ap_tool_choice =
        (if anthropicTools \<noteq> [] \<and> toolChoice \<noteq> ChoiceStr ''auto'' then Some toolChoice else None)\<rparr>"

text \<open>Lines 517 to 526. \<^verbatim>\<open>content.match(/\{[\s\S]*\}/m)\<close>: the leftmost match starts at the
  first opening brace that has a closing brace after it, which is the first opening brace
  if any does, and the greedy \<^verbatim>\<open>[\s\S]*\<close> runs to the last closing brace.\<close>

definition match_braces :: "string \<Rightarrow> string option" where
  "match_braces s =
     (case dropWhile (\<lambda>c. c \<noteq> CHR ''{'') s of
        [] \<Rightarrow> None
      | b # rest \<Rightarrow>
          (let body = rev (dropWhile (\<lambda>c. c \<noteq> CHR ''}'') (rev rest))
           in if body = [] then None else Some (b # body)))"

definition extractJson :: "string \<Rightarrow> string" where
  "extractJson content =
     (if includes_str content ''{'' \<and> includes_str content ''}''
      then (case match_braces content of None \<Rightarrow> content | Some jsonMatch \<Rightarrow> jsonMatch)
      else content)"

subsection \<open>The execution loop\<close>

text \<open>The variables of the \<^verbatim>\<open>try\<close> block that the loop changes.\<close>

record a_state =
  ast_currentResponse :: a_response
  ast_content :: string
  ast_tokens :: tokens
  ast_toolCalls :: "tool_call_record list"
  ast_toolResults :: "json list"
  ast_currentMessages :: "a_message list"
  ast_hasUsedForcedTool :: bool
  ast_usedForcedTools :: "string list"
  ast_modelTime :: int
  ast_toolsTime :: int
  ast_timeSegments :: "time_segment list"

text \<open>\<^verbatim>\<open>originalToolChoice.type === 'tool' ? { function: { name } } : originalToolChoice\<close>\<close>

fun adaptedToolChoice :: "tool_choice \<Rightarrow> tool_choice" where
  "adaptedToolChoice (ChoiceTool n) = ChoiceFunction n"
| "adaptedToolChoice tc = tc"

text \<open>Lines 292 to 314 and 445 to 470: the tracker is asked when the directive of the call
  is an object and the response has a tool use; \<open>None\<close> when it is not asked.\<close>

definition anthropic_track ::
  "tool_choice option \<Rightarrow> string list \<Rightarrow> string list \<Rightarrow> a_response \<Rightarrow> (bool \<times> string list) option" where
  "anthropic_track directive forcedTools usedForcedTools resp =
     (case directive of
        None \<Rightarrow> None
      | Some tc \<Rightarrow>
          if is_object_choice (Some tc)
          then (let toolUses = filter is_tool_use (ar_content resp)
                in if toolUses \<noteq> []
                   then Some (trackForcedToolUsage (map tool_use_name toolUses) (adaptedToolChoice tc)
                                forcedTools usedForcedTools)
                   else None)
          else None)"

text \<open>The body of \<^verbatim>\<open>for (const toolUse of toolUses)\<close>, lines 333 to 396. An unknown tool
  and a tool that reports \<^verbatim>\<open>success\<close> false are skipped (\<^verbatim>\<open>continue\<close>); a throwing
  \<^verbatim>\<open>executeTool\<close> is caught and logged.\<close>

definition anthropic_process_tool_use ::
  "(a_payload, a_response) env \<Rightarrow> request \<Rightarrow> a_resp_block \<Rightarrow> a_state \<Rightarrow> a_payload world
     \<Rightarrow> a_state \<times> a_payload world" where
  "anthropic_process_tool_use env req toolUse st w =
     (case toolUse of
        RespToolUse uid toolName toolArgs \<Rightarrow>
          (case find_tool req toolName of
             None \<Rightarrow> (st, w)
           | Some tool \<Rightarrow>
               (case read_clock env w of (toolCallStartTime, w1) \<Rightarrow>
                (case run_tool env toolName (mergedArgs_of (tool_params tool) toolArgs) w1 of
                   (ToolThrows e, w2) \<Rightarrow> (st, w2)
                 | (ToolReturns success output, w2) \<Rightarrow>
                     (case read_clock env w2 of (toolCallEndTime, w3) \<Rightarrow>
                        if \<not> success then (st, w3)
                        else (case read_clock env w3 of (idTime, w4) \<Rightarrow>
                              (case read_random env w4 of (suffix, w5) \<Rightarrow>
                                 (let toolCallDuration = toolCallEndTime - toolCallStartTime;
                                      toolUseId = IdGenerated toolName idTime suffix
                                  in (st\<lparr>ast_timeSegments := ast_timeSegments st @
                                            [\<lparr>seg_type = ''tool'', seg_name = ToolSegment toolName,
                                              seg_startTime = toolCallStartTime,
                                              seg_endTime = toolCallEndTime,
                                              seg_duration = toolCallDuration\<rparr>],
                                          ast_toolResults := ast_toolResults st @ [output],
                                          ast_toolCalls := ast_toolCalls st @
                                            [\<lparr>tc_name = toolName, tc_arguments = toolArgs,
                                              tc_startTime = toolCallStartTime,
                                              tc_endTime = toolCallEndTime,
                                              tc_duration = toolCallDuration,
                                              tc_result = output\<rparr>],
                                          ast_currentMessages := ast_currentMessages st @
                                            [\<lparr>am_role = ''assistant'',
                                              am_content = ContentBlocks
                                                [ToolUseBlock toolUseId toolName toolArgs]\<rparr>,
                                             \<lparr>am_role = ''user'',
                                              am_content = ContentBlocks
                                                [ToolResultBlock toolUseId
                                                   (Some (json_stringify env output))]\<rparr>]\<rparr>,
                                      w5))))))))
      | _ \<Rightarrow> (st, w))"

fun anthropic_process_tool_uses ::
  "(a_payload, a_response) env \<Rightarrow> request \<Rightarrow> a_resp_block list \<Rightarrow> a_state \<Rightarrow> a_payload world
     \<Rightarrow> a_state \<times> a_payload world" where
  "anthropic_process_tool_uses env req [] st w = (st, w)"
| "anthropic_process_tool_uses env req (toolUse # rest) st w =
     (case anthropic_process_tool_use env req toolUse st w of
        (st', w') \<Rightarrow> anthropic_process_tool_uses env req rest st' w')"

text \<open>Lines 404 to 436: the payload of the next vendor call.\<close>

definition anthropic_nextPayload :: "a_payload \<Rightarrow> string list \<Rightarrow> a_state \<Rightarrow> a_payload" where
  "anthropic_nextPayload payload forcedTools st =
     (let nextPayload = payload\<lparr>ap_messages := ast_currentMessages st\<rparr>;
          originalToolChoice = ap_tool_choice payload
      in if is_object_choice originalToolChoice \<and> ast_hasUsedForcedTool st \<and> forcedTools \<noteq> []
         then (case filter (\<lambda>tool. tool \<notin> set (ast_usedForcedTools st)) forcedTools of
                 remaining # others \<Rightarrow> nextPayload\<lparr>ap_tool_choice := Some (ChoiceTool remaining)\<rparr>
               | [] \<Rightarrow> nextPayload\<lparr>ap_tool_choice := None\<rparr>)
         else if ast_hasUsedForcedTool st \<and> is_object_choice originalToolChoice
         then nextPayload\<lparr>ap_tool_choice := None\<rparr>
         else nextPayload)"

text \<open>Lines 444 to 509: what the loop keeps of the response to \<open>nextPayload\<close>.\<close>

definition anthropic_absorb ::
  "string list \<Rightarrow> a_payload \<Rightarrow> nat \<Rightarrow> a_response \<Rightarrow> int \<Rightarrow> int \<Rightarrow> a_state \<Rightarrow> a_state" where
  "anthropic_absorb forcedTools nextPayload iterationCount resp nextModelStartTime nextModelEndTime st =
     (let tracked = anthropic_track (ap_tool_choice nextPayload) forcedTools (ast_usedForcedTools st) resp;
          thisModelTime = nextModelEndTime - nextModelStartTime;
          textContent = anthropic_text resp
      in st\<lparr>ast_currentResponse := resp,
            ast_hasUsedForcedTool :=
              (case tracked of None \<Rightarrow> ast_hasUsedForcedTool st
               | Some result \<Rightarrow> fst result \<or> ast_hasUsedForcedTool st),
            ast_usedForcedTools :=
              (case tracked of None \<Rightarrow> ast_usedForcedTools st | Some result \<Rightarrow> snd result),
            ast_timeSegments := ast_timeSegments st @
              [\<lparr>seg_type = ''model'', seg_name = ModelResponse (iterationCount + 1),
                seg_startTime = nextModelStartTime, seg_endTime = nextModelEndTime,
                seg_duration = thisModelTime\<rparr>],
            ast_modelTime := ast_modelTime st + thisModelTime,
            ast_content := (if textContent \<noteq> [] then textContent else ast_content st),
            ast_tokens :=
              (case ar_usage resp of
                 None \<Rightarrow> ast_tokens st
               | Some u \<Rightarrow>
                   \<lparr>tok_prompt = tok_prompt (ast_tokens st) + a_input_tokens resp,
                    tok_completion = tok_completion (ast_tokens st) + a_output_tokens resp,
                    tok_total = tok_total (ast_tokens st)
                      + (a_input_tokens resp + a_output_tokens resp)\<rparr>)\<rparr>)"

text \<open>Lines 328 to 401: the tool uses of one response are processed in order between two
  readings of the clock.\<close>

definition anthropic_tools_phase ::
  "(a_payload, a_response) env \<Rightarrow> request \<Rightarrow> a_resp_block list \<Rightarrow> a_state \<Rightarrow> a_payload world
     \<Rightarrow> a_state \<times> a_payload world" where
  "anthropic_tools_phase env req toolUses st w =
     (case read_clock env w of (toolsStartTime, w1) \<Rightarrow>
      (case anthropic_process_tool_uses env req toolUses st w1 of (st1, w2) \<Rightarrow>
       (case read_clock env w2 of (toolsEndTime, w3) \<Rightarrow>
          (st1\<lparr>ast_toolsTime := ast_toolsTime st1 + (toolsEndTime - toolsStartTime)\<rparr>, w3))))"

text \<open>One pass through the body of the \<^verbatim>\<open>while\<close> loop for a response with tool uses,
  lines 328 to 509 without the final \<^verbatim>\<open>iterationCount++\<close>. A vendor call that throws
  leaves the loop with the error.\<close>

definition anthropic_iteration ::
  "(a_payload, a_response) env \<Rightarrow> request \<Rightarrow> a_payload \<Rightarrow> string list \<Rightarrow> nat \<Rightarrow> a_resp_block list
     \<Rightarrow> a_state \<Rightarrow> a_payload world \<Rightarrow> (error + a_state) \<times> a_payload world" where
  "anthropic_iteration env req payload forcedTools iterationCount toolUses st w =
     (case anthropic_tools_phase env req toolUses st w of (st2, w3) \<Rightarrow>
        (let nextPayload = anthropic_nextPayload payload forcedTools st2
         in case read_clock env w3 of (nextModelStartTime, w4) \<Rightarrow>
            (case call_vendor env nextPayload w4 of
               (Inl msg, w5) \<Rightarrow> (Inl (Error msg None), w5)
             | (Inr resp, w5) \<Rightarrow>
                 (case read_clock env w5 of (nextModelEndTime, w6) \<Rightarrow>
                    (Inr (anthropic_absorb forcedTools nextPayload iterationCount resp
                            nextModelStartTime nextModelEndTime st2), w6)))))"

text \<open>\<^verbatim>\<open>while (iterationCount < MAX_ITERATIONS)\<close>, lines 321 to 510; the result carries the
  final \<^verbatim>\<open>iterationCount\<close>.\<close>

function anthropic_loop ::
  "(a_payload, a_response) env \<Rightarrow> request \<Rightarrow> a_payload \<Rightarrow> string list \<Rightarrow> nat
     \<Rightarrow> a_state \<Rightarrow> a_payload world \<Rightarrow> (error + nat \<times> a_state) \<times> a_payload world" where
  "anthropic_loop env req payload forcedTools iterationCount st w =
     (if iterationCount < MAX_ITERATIONS
      then (let toolUses = filter is_tool_use (ar_content (ast_currentResponse st))
            in if toolUses = [] then (Inr (iterationCount, st), w)
               else (case anthropic_iteration env req payload forcedTools iterationCount toolUses st w of
                       (Inl e, w') \<Rightarrow> (Inl e, w')
                     | (Inr st', w') \<Rightarrow>
                         anthropic_loop env req payload forcedTools (iterationCount + 1) st' w'))
      else (Inr (iterationCount, st), w))"
  by pat_completeness auto
termination
  by (relation "measure (\<lambda>(env, req, payload, forcedTools, iterationCount, st, w).
                  MAX_ITERATIONS - iterationCount)") auto

text \<open>Lines 250 to 318: the variables before the loop, from the first response.\<close>

definition anthropic_initial_state ::
  "a_message list \<Rightarrow> string list \<Rightarrow> tool_choice option \<Rightarrow> int \<Rightarrow> int \<Rightarrow> a_response \<Rightarrow> a_state" where
  "anthropic_initial_state messages forcedTools originalToolChoice initialCallTime firstResponseTime
       currentResponse =
     (let tracked = anthropic_track originalToolChoice forcedTools [] currentResponse
      in \<lparr>ast_currentResponse = currentResponse,
          ast_content = anthropic_text currentResponse,
          ast_tokens =
            \<lparr>tok_prompt = a_input_tokens currentResponse,
             tok_completion = a_output_tokens currentResponse,
             tok_total = a_input_tokens currentResponse + a_output_tokens currentResponse\<rparr>,
          ast_toolCalls = [],
          ast_toolResults = [],
          ast_currentMessages = messages,
          ast_hasUsedForcedTool = (case tracked of None \<Rightarrow> False | Some result \<Rightarrow> fst result),
          ast_usedForcedTools = (case tracked of None \<Rightarrow> [] | Some result \<Rightarrow> snd result),
          ast_modelTime = firstResponseTime,
          ast_toolsTime = 0,
          ast_timeSegments =
            [\<lparr>seg_type = ''model'', seg_name = InitialResponse,
              seg_startTime = initialCallTime,
              seg_endTime = initialCallTime + firstResponseTime,
              seg_duration = firstResponseTime\<rparr>]\<rparr>)"

text \<open>Lines 516 to 559: the JSON extraction and the returned envelope.\<close>

definition anthropic_response ::
  "request \<Rightarrow> int \<Rightarrow> int \<Rightarrow> int \<Rightarrow> nat \<Rightarrow> a_state \<Rightarrow> provider_response" where
  "anthropic_response req providerStartTime providerEndTime firstResponseTime iterationCount st =
     \<lparr>pr_content = extractJson (ast_content st),
      pr_model = Some (or_default (req_model req) ''claude-3-7-sonnet-20250219''),
      pr_tokens = ast_tokens st,
      pr_toolCalls = nonempty_or_undefined (ast_toolCalls st),
      pr_toolResults = nonempty_or_undefined (ast_toolResults st),
      pr_timing =
        \<lparr>tm_startTime = providerStartTime,
         tm_endTime = providerEndTime,
         tm_duration = providerEndTime - providerStartTime,
         tm_modelTime = ast_modelTime st,
         tm_toolsTime = ast_toolsTime st,
         tm_firstResponseTime = firstResponseTime,
         tm_iterations = iterationCount + 1,
         tm_timeSegments = ast_timeSegments st\<rparr>\<rparr>"

text \<open>\<^verbatim>\<open>forcedTools\<close> of lines 241 to 244\<close>

definition anthropic_forcedTools ::
  "(a_payload, a_response) env \<Rightarrow> request \<Rightarrow> vendor_tool list \<Rightarrow> string list" where
  "anthropic_forcedTools env req anthropicTools =
     (if anthropicTools \<noteq> []
      then prep_forcedTools (prepareToolsWithUsageControl env anthropicTools (req_tools req) ''anthropic'')
      else [])"

text \<open>The \<^verbatim>\<open>try\<close> block, lines 234 to 559. The inner \<^verbatim>\<open>catch\<close> of line 511 throws
  the error of the loop again.\<close>

definition anthropic_try ::
  "(a_payload, a_response) env \<Rightarrow> request \<Rightarrow> a_payload \<Rightarrow> vendor_tool list \<Rightarrow> a_message list
     \<Rightarrow> int \<Rightarrow> a_payload world \<Rightarrow> (error + provider_response) \<times> a_payload world" where
  "anthropic_try env req payload anthropicTools messages providerStartTime w =
     (case read_clock env w of (initialCallTime, w1) \<Rightarrow>
      (let originalToolChoice = ap_tool_choice payload;
           forcedTools = anthropic_forcedTools env req anthropicTools
       in case call_vendor env payload w1 of
            (Inl msg, w2) \<Rightarrow> (Inl (Error msg None), w2)
          | (Inr currentResponse, w2) \<Rightarrow>
              (case read_clock env w2 of (firstResponseEnd, w3) \<Rightarrow>
               (let firstResponseTime = firstResponseEnd - initialCallTime;
                    st0 = anthropic_initial_state messages forcedTools originalToolChoice
                            initialCallTime firstResponseTime currentResponse
                in case anthropic_loop env req payload forcedTools 0 st0 w3 of
                     (Inl e, w4) \<Rightarrow> (Inl e, w4)
                   | (Inr (iterationCount, st), w4) \<Rightarrow>
                       (case read_clock env w4 of (providerEndTime, w5) \<Rightarrow>
                          (Inr (anthropic_response req providerStartTime providerEndTime
                                  firstResponseTime iterationCount st), w5))))))"

text \<open>The outer \<^verbatim>\<open>catch\<close>, lines 560 to 581: a new error with the message of the caught
  one and the timing up to now.\<close>

definition enhancedError ::
  "('p, 'r) env \<Rightarrow> int \<Rightarrow> error \<Rightarrow> 'p world \<Rightarrow> error \<times> 'p world" where
  "enhancedError env providerStartTime e w =
     (case e of Error msg t \<Rightarrow>
        (case read_clock env w of (providerEndTime, w') \<Rightarrow>
           (Error msg (Some \<lparr>et_startTime = providerStartTime, et_endTime = providerEndTime,
                             et_duration = providerEndTime - providerStartTime\<rparr>), w')))"

text \<open>\<^verbatim>\<open>anthropicProvider.executeRequest\<close>\<close>

definition anthropic_executeRequest ::
  "(a_payload, a_response) env \<Rightarrow> request \<Rightarrow> a_payload world
     \<Rightarrow> (error + provider_response) \<times> a_payload world" where
  "anthropic_executeRequest env req w =
     (if \<not> truthy_str (req_apiKey req)
      then (Inl (Error ''API key is required for Anthropic'' None), w)
      else (case anthropic_normalize env req w of
              (Inl e, w1) \<Rightarrow> (Inl e, w1)
            | (Inr (messages, systemPrompt0), w1) \<Rightarrow>
                (case anthropic_tool_setup env req of (anthropicTools, toolChoice) \<Rightarrow>
                 (let systemPrompt = anthropic_system_prompt systemPrompt0 (req_responseFormat req);
                      payload = anthropic_payload req messages systemPrompt anthropicTools toolChoice
                  in case read_clock env w1 of (providerStartTime, w2) \<Rightarrow>
                     (case anthropic_try env req payload anthropicTools messages providerStartTime w2 of
                        (Inr response, w3) \<Rightarrow> (Inr response, w3)
                      | (Inl e, w3) \<Rightarrow>
                          (case enhancedError env providerStartTime e w3 of
                             (e', w4) \<Rightarrow> (Inl e', w4)))))))"

section \<open>The Deepseek provider\<close>

subsection \<open>Messages, payload and response\<close>

text \<open>A tool call of a response: \<^verbatim>\<open>{id, function: {name, arguments}}\<close>, the arguments as
  JSON text.\<close>

record d_tool_call =
  dtc_id :: string
  dtc_name :: string
  dtc_arguments :: string

text \<open>The messages of \<^verbatim>\<open>allMessages\<close> and \<^verbatim>\<open>currentMessages\<close>: the system prompt, the
  context as a user turn, a turn of the request as it came, the assistant turn of one tool
  call, and the tool turn with its result.\<close>

datatype d_message =
  DSystem string
| DUser string
| DRequestMessage message
| DAssistantToolCall d_tool_call
| DToolResult string string

record d_payload =
  dp_model :: string
  dp_messages :: "d_message list"
  dp_temperature :: "rat option"
  dp_max_tokens :: "nat option"
  dp_tools :: "vendor_tool list option"
  dp_tool_choice :: "tool_choice option"

record d_resp_message =
  dm_content :: "string option"
  dm_tool_calls :: "d_tool_call list option"

record d_usage =
  du_prompt_tokens :: "nat option"
  du_completion_tokens :: "nat option"
  du_total_tokens :: "nat option"

text \<open>\<^verbatim>\<open>currentResponse\<close>: \<open>dr_message\<close> is \<^verbatim>\<open>choices[0]?.message\<close>.\<close>

record d_response =
  dr_message :: "d_resp_message option"
  dr_usage :: "d_usage option"

text \<open>\<^verbatim>\<open>currentResponse.choices[0]?.message?.content\<close>\<close>

definition d_message_content :: "d_response \<Rightarrow> string option" where
  "d_message_content resp = (case dr_message resp of None \<Rightarrow> None | Some m \<Rightarrow> dm_content m)"

text \<open>\<^verbatim>\<open>currentResponse.choices[0]?.message?.tool_calls\<close>\<close>

definition d_message_tool_calls :: "d_response \<Rightarrow> d_tool_call list option" where
  "d_message_tool_calls resp = (case dr_message resp of None \<Rightarrow> None | Some m \<Rightarrow> dm_tool_calls m)"

definition d_usage_field :: "d_response \<Rightarrow> (d_usage \<Rightarrow> nat option) \<Rightarrow> nat" where
  "d_usage_field resp field = (case dr_usage resp of None \<Rightarrow> 0 | Some u \<Rightarrow> or_zero (field u))"

subsection \<open>Content clean-up\<close>

text \<open>The length of the match of \<^verbatim>\<open>/```json\n?|\n?```/\<close> at the start of a string, 0 when
  there is none. The first alternative is tried first, and each \<^verbatim>\<open>\n?\<close> is greedy.\<close>

definition fence_match :: "string \<Rightarrow> nat" where
  "fence_match s =
     (if take 7 s = ''```json'' then (if take 1 (drop 7 s) = [CHR 0x0A] then 8 else 7)
      else if take 4 s = CHR 0x0A # ''```'' then 4
      else if take 3 s = ''```'' then 3
      else 0)"

text \<open>\<^verbatim>\<open>content.replace(/```json\n?|\n?```/g, '')\<close>: one scan from left to right; a match
  is dropped and the scan goes on behind it, any other code unit is copied. The first
  argument counts the code units of the current match still to drop.\<close>

fun strip_fences_from :: "nat \<Rightarrow> string \<Rightarrow> string" where
  "strip_fences_from skip [] = []"
| "strip_fences_from (Suc skip) (c # cs) = strip_fences_from skip cs"
| "strip_fences_from 0 (c # cs) =
     (case fence_match (c # cs) of
        0 \<Rightarrow> c # strip_fences_from 0 cs
      | Suc skip \<Rightarrow> strip_fences_from skip cs)"

definition strip_fences :: "string \<Rightarrow> string" where
  "strip_fences s = strip_fences_from 0 s"

text \<open>Lines 123 to 125 and 306 to 307\<close>

definition cleanContent :: "string \<Rightarrow> string" where
  "cleanContent content = trim (strip_fences content)"

subsection \<open>The execution loop\<close>

record d_state =
  dst_currentResponse :: d_response
  dst_content :: string
  dst_tokens :: tokens
  dst_toolCalls :: "tool_call_record list"
  dst_toolResults :: "json list"
  dst_currentMessages :: "d_message list"
  dst_hasUsedForcedTool :: bool
  dst_modelTime :: int
  dst_toolsTime :: int
  dst_timeSegments :: "time_segment list"

text \<open>Lines 158 to 170 and 272 to 285: \<^verbatim>\<open>trackForcedToolUsage(toolCallsResponse,
  originalToolChoice, logger, 'deepseek')\<close>, asked when the original tool choice is an
  object and the response has a \<^verbatim>\<open>tool_calls\<close> array; no list of forced tools is
  passed.\<close>

definition deepseek_track :: "tool_choice option \<Rightarrow> d_response \<Rightarrow> bool option" where
  "deepseek_track originalToolChoice resp =
     (case originalToolChoice of
        None \<Rightarrow> None
      | Some tc \<Rightarrow>
          if is_object_choice (Some tc)
          then (case d_message_tool_calls resp of
                  None \<Rightarrow> None
                | Some toolCallsResponse \<Rightarrow>
                    Some (fst (trackForcedToolUsage (map dtc_name toolCallsResponse) tc [] [])))
          else None)"

text \<open>The body of \<^verbatim>\<open>for (const toolCall of toolCallsInResponse)\<close>, lines 185 to 244.
  \<^verbatim>\<open>JSON.parse\<close> of the arguments and \<^verbatim>\<open>executeTool\<close> may throw, which is caught and
  logged; an unknown tool and a tool that reports \<^verbatim>\<open>success\<close> false are skipped.\<close>

definition deepseek_process_tool_call ::
  "(d_payload, d_response) env \<Rightarrow> request \<Rightarrow> d_tool_call \<Rightarrow> d_state \<Rightarrow> d_payload world
     \<Rightarrow> d_state \<times> d_payload world" where
  "deepseek_process_tool_call env req toolCall st w =
     (let toolName = dtc_name toolCall
      in case json_parse env (dtc_arguments toolCall) of
           None \<Rightarrow> (st, w)
         | Some toolArgs \<Rightarrow>
             (case find_tool req toolName of
                None \<Rightarrow> (st, w)
              | Some tool \<Rightarrow>
                  (case read_clock env w of (toolCallStartTime, w1) \<Rightarrow>
                   (case run_tool env toolName (mergedArgs_of (tool_params tool) toolArgs) w1 of
                      (ToolThrows e, w2) \<Rightarrow> (st, w2)
                    | (ToolReturns success output, w2) \<Rightarrow>
                        (case read_clock env w2 of (toolCallEndTime, w3) \<Rightarrow>
                           if \<not> success then (st, w3)
                           else (let toolCallDuration = toolCallEndTime - toolCallStartTime
                                 in (st\<lparr>dst_timeSegments := dst_timeSegments st @
                                           [\<lparr>seg_type = ''tool'', seg_name = ToolSegment toolName,
                                             seg_startTime = toolCallStartTime,
                                             seg_endTime = toolCallEndTime,
                                             seg_duration = toolCallDuration\<rparr>],
                                         dst_toolResults := dst_toolResults st @ [output],
                                         dst_toolCalls := dst_toolCalls st @
                                           [\<lparr>tc_name = toolName, tc_arguments = toolArgs,
                                             tc_startTime = toolCallStartTime,
                                             tc_endTime = toolCallEndTime,
                                             tc_duration = toolCallDuration,
                                             tc_result = output\<rparr>],
                                         dst_currentMessages := dst_currentMessages st @
                                           [DAssistantToolCall toolCall,
                                            DToolResult (dtc_id toolCall)
                                              (json_stringify env output)]\<rparr>,
                                     w3)))))))"

fun deepseek_process_tool_calls ::
  "(d_payload, d_response) env \<Rightarrow> request \<Rightarrow> d_tool_call list \<Rightarrow> d_state \<Rightarrow> d_payload world
     \<Rightarrow> d_state \<times> d_payload world" where
  "deepseek_process_tool_calls env req [] st w = (st, w)"
| "deepseek_process_tool_calls env req (toolCall # rest) st w =
     (case deepseek_process_tool_call env req toolCall st w of
        (st', w') \<Rightarrow> deepseek_process_tool_calls env req rest st' w')"

text \<open>Lines 252 to 263: the payload of the next vendor call.\<close>

definition deepseek_nextPayload :: "d_payload \<Rightarrow> d_state \<Rightarrow> d_payload" where
  "deepseek_nextPayload payload st =
     (let nextPayload = payload\<lparr>dp_messages := dst_currentMessages st\<rparr>
      in if dst_hasUsedForcedTool st \<and> is_object_choice (dp_tool_choice payload)
         then nextPayload\<lparr>dp_tool_choice := Some (ChoiceStr ''auto'')\<rparr>
         else nextPayload)"

text \<open>Lines 271 to 315: what the loop keeps of the response to \<open>nextPayload\<close>.\<close>

definition deepseek_absorb ::
  "d_payload \<Rightarrow> nat \<Rightarrow> d_response \<Rightarrow> int \<Rightarrow> int \<Rightarrow> d_state \<Rightarrow> d_state" where
  "deepseek_absorb payload iterationCount resp nextModelStartTime nextModelEndTime st =
     (let thisModelTime = nextModelEndTime - nextModelStartTime
      in st\<lparr>dst_currentResponse := resp,
            dst_hasUsedForcedTool :=
              (if \<not> dst_hasUsedForcedTool st
               then (case deepseek_track (dp_tool_choice payload) resp of
                       None \<Rightarrow> dst_hasUsedForcedTool st
                     | Some used \<Rightarrow> used)
               else dst_hasUsedForcedTool st),
            dst_timeSegments := dst_timeSegments st @
              [\<lparr>seg_type = ''model'', seg_name = ModelResponse (iterationCount + 1),
                seg_startTime = nextModelStartTime, seg_endTime = nextModelEndTime,
                seg_duration = thisModelTime\<rparr>],
            dst_modelTime := dst_modelTime st + thisModelTime,
            dst_content :=
              (case d_message_content resp of
                 None \<Rightarrow> dst_content st
               | Some c \<Rightarrow> if c = [] then dst_content st else cleanContent c),
            dst_tokens :=
              (case dr_usage resp of
                 None \<Rightarrow> dst_tokens st
               | Some u \<Rightarrow>
                   \<lparr>tok_prompt = tok_prompt (dst_tokens st) + d_usage_field resp du_prompt_tokens,
                    tok_completion = tok_completion (dst_tokens st)
                      + d_usage_field resp du_completion_tokens,
                    tok_total = tok_total (dst_tokens st) + d_usage_field resp du_total_tokens\<rparr>)\<rparr>)"

text \<open>Lines 180 to 249: the tool calls of one response are processed in order between two
  readings of the clock.\<close>

definition deepseek_tools_phase ::
  "(d_payload, d_response) env \<Rightarrow> request \<Rightarrow> d_tool_call list \<Rightarrow> d_state \<Rightarrow> d_payload world
     \<Rightarrow> d_state \<times> d_payload world" where
  "deepseek_tools_phase env req toolCallsInResponse st w =
     (case read_clock env w of (toolsStartTime, w1) \<Rightarrow>
      (case deepseek_process_tool_calls env req toolCallsInResponse st w1 of (st1, w2) \<Rightarrow>
       (case read_clock env w2 of (toolsEndTime, w3) \<Rightarrow>
          (st1\<lparr>dst_toolsTime := dst_toolsTime st1 + (toolsEndTime - toolsStartTime)\<rparr>, w3))))"

text \<open>One pass through the body of the \<^verbatim>\<open>while\<close> loop for a response with tool calls,
  lines 180 to 315 without the final \<^verbatim>\<open>iterationCount++\<close>. When the vendor call
  throws, the result is the error together with the variables as they are at that point.\<close>

definition deepseek_iteration ::
  "(d_payload, d_response) env \<Rightarrow> request \<Rightarrow> d_payload \<Rightarrow> nat \<Rightarrow> d_tool_call list
     \<Rightarrow> d_state \<Rightarrow> d_payload world \<Rightarrow> (error \<times> d_state + d_state) \<times> d_payload world" where
  "deepseek_iteration env req payload iterationCount toolCallsInResponse st w =
     (case deepseek_tools_phase env req toolCallsInResponse st w of (st2, w3) \<Rightarrow>
        (let nextPayload = deepseek_nextPayload payload st2
         in case read_clock env w3 of (nextModelStartTime, w4) \<Rightarrow>
            (case call_vendor env nextPayload w4 of
               (Inl msg, w5) \<Rightarrow> (Inl (Error msg None, st2), w5)
             | (Inr resp, w5) \<Rightarrow>
                 (case read_clock env w5 of (nextModelEndTime, w6) \<Rightarrow>
                    (Inr (deepseek_absorb payload iterationCount resp
                            nextModelStartTime nextModelEndTime st2), w6)))))"

text \<open>The inner \<^verbatim>\<open>try\<close> with its \<^verbatim>\<open>while (iterationCount < MAX_ITERATIONS)\<close>, lines 172
  to 321. The \<^verbatim>\<open>catch\<close> of line 319 logs the error of a throwing vendor call and does
  not throw again: execution goes on behind the loop with the variables as they are.\<close>

function deepseek_loop ::
  "(d_payload, d_response) env \<Rightarrow> request \<Rightarrow> d_payload \<Rightarrow> nat \<Rightarrow> d_state \<Rightarrow> d_payload world
     \<Rightarrow> (nat \<times> d_state) \<times> d_payload world" where
  "deepseek_loop env req payload iterationCount st w =
     (if iterationCount < MAX_ITERATIONS
      then (case d_message_tool_calls (dst_currentResponse st) of
              None \<Rightarrow> ((iterationCount, st), w)
            | Some toolCallsInResponse \<Rightarrow>
                if toolCallsInResponse = [] then ((iterationCount, st), w)
                else (case deepseek_iteration env req payload iterationCount toolCallsInResponse st w of
                        (Inl (e, st'), w') \<Rightarrow> ((iterationCount, st'), w')
                      | (Inr st', w') \<Rightarrow> deepseek_loop env req payload (iterationCount + 1) st' w'))
      else ((iterationCount, st), w))"
  by pat_completeness auto
termination
  by (relation "measure (\<lambda>(env, req, payload, iterationCount, st, w).
                  MAX_ITERATIONS - iterationCount)") auto

text \<open>Lines 35 to 56\<close>

definition deepseek_allMessages :: "request \<Rightarrow> d_message list" where
  "deepseek_allMessages req =
     (case req_systemPrompt req of
        None \<Rightarrow> []
      | Some p \<Rightarrow> if p = [] then [] else [DSystem p])
     @ (case req_context req of
          None \<Rightarrow> []
        | Some c \<Rightarrow> if c = [] then [] else [DUser c])
     @ (case req_messages req of
          None \<Rightarrow> []
        | Some ms \<Rightarrow> map DRequestMessage ms)"

text \<open>\<^verbatim>\<open>tools\<close>; the empty list stands for \<^verbatim>\<open>undefined\<close>.\<close>

definition deepseek_tools_of :: "request \<Rightarrow> vendor_tool list" where
  "deepseek_tools_of req =
     (case req_tools req of
        None \<Rightarrow> []
      | Some ts \<Rightarrow> map (\<lambda>t. FunctionTool (tool_id t) (tool_description t) (tool_parameters t)) ts)"

text \<open>Truthiness of the \<^verbatim>\<open>toolChoice\<close> of the policy engine\<close>

fun truthy_choice :: "tool_choice option \<Rightarrow> bool" where
  "truthy_choice None = False"
| "truthy_choice (Some (ChoiceStr s)) = (s \<noteq> [])"
| "truthy_choice (Some _) = True"

text \<open>Lines 70 to 107\<close>

definition deepseek_payload :: "(d_payload, d_response) env \<Rightarrow> request \<Rightarrow> d_payload" where
  "deepseek_payload env req =
     (let tools = deepseek_tools_of req;
          payload = \<lparr>dp_model = ''deepseek-chat'',
                     dp_messages = deepseek_allMessages req,
                     dp_temperature = req_temperature req,
                     dp_max_tokens = req_maxTokens req,
                     dp_tools = None,
                     dp_tool_choice = None\<rparr>
      in if tools \<noteq> []
         then (let p = prepareToolsWithUsageControl env tools (req_tools req) ''deepseek''
               in case prep_tools p of
                    None \<Rightarrow> payload
                  | Some filteredTools \<Rightarrow>
                      if filteredTools \<noteq> [] \<and> truthy_choice (prep_toolChoice p)
                      then payload\<lparr>dp_tools := Some filteredTools,
                                   dp_tool_choice := prep_toolChoice p\<rparr>
                      else payload)
         else payload)"

text \<open>Lines 118 to 170: the variables before the loop, from the first response.\<close>

definition deepseek_initial_state ::
  "d_payload \<Rightarrow> int \<Rightarrow> int \<Rightarrow> d_response \<Rightarrow> d_state" where
  "deepseek_initial_state payload initialCallTime firstResponseTime currentResponse =
     \<lparr>dst_currentResponse = currentResponse,
      dst_content =
        (case d_message_content currentResponse of
           None \<Rightarrow> []
         | Some c \<Rightarrow> if c = [] then [] else cleanContent c),
      dst_tokens =
        \<lparr>tok_prompt = d_usage_field currentResponse du_prompt_tokens,
         tok_completion = d_usage_field currentResponse du_completion_tokens,
         tok_total = d_usage_field currentResponse du_total_tokens\<rparr>,
      dst_toolCalls = [],
      dst_toolResults = [],
      dst_currentMessages = dp_messages payload,
      dst_hasUsedForcedTool =
        (case deepseek_track (dp_tool_choice payload) currentResponse of
           None \<Rightarrow> False
         | Some used \<Rightarrow> used),
      dst_modelTime = firstResponseTime,
      dst_toolsTime = 0,
      dst_timeSegments =
        [\<lparr>seg_type = ''model'', seg_name = InitialResponse,
          seg_startTime = initialCallTime,
          seg_endTime = initialCallTime + firstResponseTime,
          seg_duration = firstResponseTime\<rparr>]\<rparr>"

text \<open>Lines 328 to 344: the returned envelope.\<close>

definition deepseek_response ::
  "request \<Rightarrow> int \<Rightarrow> int \<Rightarrow> int \<Rightarrow> nat \<Rightarrow> d_state \<Rightarrow> provider_response" where
  "deepseek_response req providerStartTime providerEndTime firstResponseTime iterationCount st =
     \<lparr>pr_content = dst_content st,
      pr_model = req_model req,
      pr_tokens = dst_tokens st,
      pr_toolCalls = nonempty_or_undefined (dst_toolCalls st),
      pr_toolResults = nonempty_or_undefined (dst_toolResults st),
      pr_timing =
        \<lparr>tm_startTime = providerStartTime,
         tm_endTime = providerEndTime,
         tm_duration = providerEndTime - providerStartTime,
         tm_modelTime = dst_modelTime st,
         tm_toolsTime = dst_toolsTime st,
         tm_firstResponseTime = firstResponseTime,
         tm_iterations = iterationCount + 1,
         tm_timeSegments = dst_timeSegments st\<rparr>\<rparr>"

text \<open>The outer \<^verbatim>\<open>try\<close> block, lines 27 to 344.\<close>

definition deepseek_try ::
  "(d_payload, d_response) env \<Rightarrow> request \<Rightarrow> int \<Rightarrow> d_payload world
     \<Rightarrow> (error + provider_response) \<times> d_payload world" where
  "deepseek_try env req providerStartTime w =
     (let payload = deepseek_payload env req
      in case read_clock env w of (initialCallTime, w1) \<Rightarrow>
         (case call_vendor env payload w1 of
            (Inl msg, w2) \<Rightarrow> (Inl (Error msg None), w2)
          | (Inr currentResponse, w2) \<Rightarrow>
              (case read_clock env w2 of (firstResponseEnd, w3) \<Rightarrow>
               (let firstResponseTime = firstResponseEnd - initialCallTime;
                    st0 = deepseek_initial_state payload initialCallTime firstResponseTime
                            currentResponse
                in case deepseek_loop env req payload 0 st0 w3 of
                     ((iterationCount, st), w4) \<Rightarrow>
                       (case read_clock env w4 of (providerEndTime, w5) \<Rightarrow>
                          (Inr (deepseek_response req providerStartTime providerEndTime
                                  firstResponseTime iterationCount st), w5))))))"

text \<open>\<^verbatim>\<open>deepseekProvider.executeRequest\<close>\<close>

definition deepseek_executeRequest ::
  "(d_payload, d_response) env \<Rightarrow> request \<Rightarrow> d_payload world
     \<Rightarrow> (error + provider_response) \<times> d_payload world" where
  "deepseek_executeRequest env req w =
     (if \<not> truthy_str (req_apiKey req)
      then (Inl (Error ''API key is required for Deepseek'' None), w)
      else (case read_clock env w of (providerStartTime, w1) \<Rightarrow>
              (case deepseek_try env req providerStartTime w1 of
                 (Inr response, w2) \<Rightarrow> (Inr response, w2)
               | (Inl e, w2) \<Rightarrow>
                   (case enhancedError env providerStartTime e w2 of
                      (e', w3) \<Rightarrow> (Inl e', w3)))))"

section \<open>Example runs\<close>

text \<open>A request with a credential and one tool, and surroundings in which the vendor answers
  every call with one invocation of that tool: the stub vendor of the iteration-cap test.\<close>

definition get_weather :: tool where
  "get_weather =
     \<lparr>tool_id = ''get_weather'', tool_description = ''Weather of a city'',
      tool_parameters = \<lparr>tp_properties = JObj [(''city'', JObj [(''type'', JStr ''string'')])],
                         tp_required = JArr [JStr ''city'']\<rparr>,
      tool_params = None, tool_usageControl = None\<rparr>"

definition weather_request :: request where
  "weather_request =
     \<lparr>req_apiKey = Some ''sk-test'', req_systemPrompt = Some ''You are helpful.'',
      req_context = None,
      req_messages = Some [\<lparr>msg_role = ''user'', msg_content = Some ''Weather in Paris?'',
                            msg_name = None, msg_function_call = None\<rparr>],
      req_tools = Some [get_weather], req_responseFormat = None,
      req_model = Some ''deepseek-reasoner'',
      req_temperature = None, req_maxTokens = None\<rparr>"

text \<open>A policy engine that keeps every tool and leaves the choice to the model.\<close>

definition prepare_auto :: "vendor_tool list \<Rightarrow> tool list option \<Rightarrow> string \<Rightarrow> prepared" where
  "prepare_auto vendorTools tools provider =
     \<lparr>prep_tools = Some vendorTools, prep_toolChoice = Some (ChoiceStr ''auto''),
      prep_forcedTools = []\<rparr>"

text \<open>\<^verbatim>\<open>JSON.parse\<close> on the two texts the examples use; the one rejected text of the
  examples goes wrong at its second code unit.\<close>

definition parse_example :: "string \<Rightarrow> json option" where
  \<open>parse_example s =
     (if s = ''{}'' then Some (JObj [])
      else if s = ''{"city":"Paris"}'' then Some (JObj [(''city'', JStr ''Paris'')])
      else None)\<close>

definition syntax_error_example :: "string \<Rightarrow> string" where
  "syntax_error_example s = ''Unexpected token '' @ take 1 (drop 1 s) @ '' in JSON at position 1''"

definition stringify_example :: "json \<Rightarrow> string" where
  \<open>stringify_example j = (if j = JObj [(''temp'', JNum 20)] then ''{"temp":20}'' else ''null'')\<close>

definition always_tool_envA :: "(a_payload, a_response) env" where
  "always_tool_envA =
     \<lparr>now = (\<lambda>n. 1000 + 5 * int n),
      random_suffix = (\<lambda>n. ''k3x9q''),
      vendor = (\<lambda>n p. Inr \<lparr>ar_content = [RespToolUse ''toolu_1'' ''get_weather''
                                              (JObj [(''city'', JStr ''Paris'')])],
                            ar_usage = None\<rparr>),
      executeTool = (\<lambda>n toolName args. ToolReturns True (JObj [(''temp'', JNum 20)])),
      json_parse = parse_example,
      syntax_error = syntax_error_example,
      json_stringify = stringify_example,
      prepareToolsWithUsageControl = prepare_auto\<rparr>"

definition always_tool_envD :: "(d_payload, d_response) env" where
  \<open>always_tool_envD =
     \<lparr>now = (\<lambda>n. 1000 + 5 * int n),
      random_suffix = (\<lambda>n. ''k3x9q''),
      vendor = (\<lambda>n p. Inr \<lparr>dr_message = Some \<lparr>dm_content = None,
                                dm_tool_calls = Some [\<lparr>dtc_id = ''call_1'', dtc_name = ''get_weather'',
                                                       dtc_arguments = ''{"city":"Paris"}''\<rparr>]\<rparr>,
                            dr_usage = None\<rparr>),
      executeTool = (\<lambda>n toolName args. ToolReturns True (JObj [(''temp'', JNum 20)])),
      json_parse = parse_example,
      syntax_error = syntax_error_example,
      json_stringify = stringify_example,
      prepareToolsWithUsageControl = prepare_auto\<rparr>\<close>

text \<open>What a caller sees of a run: the number of iterations the envelope reports, if an
  envelope is returned, and the number of vendor calls made.\<close>

definition iterations_of :: "error + provider_response \<Rightarrow> nat option" where
  "iterations_of r = (case r of Inl e \<Rightarrow> None | Inr response \<Rightarrow> Some (tm_iterations (pr_timing response)))"

section \<open>A vendor that asks for a tool in every response\<close>

lemma vendor_log_read_clock: "vendor_log (snd (read_clock env w)) = vendor_log w"
  by (simp add: read_clock_def)

lemma anthropic_process_tool_use_vendor_log:
  "vendor_log (snd (anthropic_process_tool_use env req t st w)) = vendor_log w"
  by (simp add: anthropic_process_tool_use_def read_clock_def run_tool_def read_random_def Let_def
           split: a_resp_block.splits option.splits tool_outcome.splits)

lemma anthropic_process_tool_uses_vendor_log:
  "vendor_log (snd (anthropic_process_tool_uses env req ts st w)) = vendor_log w"
proof (induction ts arbitrary: st w)
  case Nil
  show ?case by simp
next
  case (Cons t ts)
  obtain st' w' where step: "anthropic_process_tool_use env req t st w = (st', w')"
    by (cases "anthropic_process_tool_use env req t st w")
  have "vendor_log w' = vendor_log w"
    using anthropic_process_tool_use_vendor_log [of env req t st w] step by simp
  with Cons.IH [of st' w'] step show ?case by simp
qed

lemma anthropic_tools_phase_vendor_log:
  "vendor_log (snd (anthropic_tools_phase env req toolUses st w)) = vendor_log w"
  using anthropic_process_tool_uses_vendor_log [of env req toolUses st "snd (read_clock env w)"]
  by (auto simp add: anthropic_tools_phase_def read_clock_def split: prod.splits)

lemma anthropic_iteration_ok:
  assumes "vendor env (length (vendor_log w)) 
             (anthropic_nextPayload payload forcedTools (fst (anthropic_tools_phase env req toolUses st w))) = Inr resp"
  shows "\<exists>st' w'. anthropic_iteration env req payload forcedTools i toolUses st w = (Inr st', w')
           \<and> ast_currentResponse st' = resp
           \<and> vendor_log w' = vendor_log w @ [anthropic_nextPayload payload forcedTools (fst (anthropic_tools_phase env req toolUses st w))]"
proof -
  obtain st2 w3 where ph: "anthropic_tools_phase env req toolUses st w = (st2, w3)"
    by (cases "anthropic_tools_phase env req toolUses st w")
  have vl: "vendor_log w3 = vendor_log w"
    using anthropic_tools_phase_vendor_log [of env req toolUses st w] ph by simp
  show ?thesis
    using assms ph vl
    by (simp add: anthropic_iteration_def Let_def read_clock_def call_vendor_def anthropic_absorb_def)
qed

lemma anthropic_loop_always_tools:
  assumes stub: "\<forall>n p. \<exists>resp. vendor env n p = Inr resp \<and> filter is_tool_use (ar_content resp) \<noteq> []"
  shows "filter is_tool_use (ar_content (ast_currentResponse st)) \<noteq> [] \<Longrightarrow> i \<le> MAX_ITERATIONS \<Longrightarrow>
         \<exists>st' w'. anthropic_loop env req payload forcedTools i st w = (Inr (MAX_ITERATIONS, st'), w')
            \<and> length (vendor_log w') = length (vendor_log w) + (MAX_ITERATIONS - i)"
proof (induction "MAX_ITERATIONS - i" arbitrary: i st w)
  case 0
  then have "i = MAX_ITERATIONS" by simp
  then show ?case by (subst anthropic_loop.simps) simp
next
  case (Suc k)
  let ?toolUses = "filter is_tool_use (ar_content (ast_currentResponse st))"
  let ?p = "anthropic_nextPayload payload forcedTools (fst (anthropic_tools_phase env req ?toolUses st w))"
  from Suc.hyps(2) have lt: "i < MAX_ITERATIONS" and k: "k = MAX_ITERATIONS - (i + 1)" by simp_all
  from stub obtain resp where
    resp: "vendor env (length (vendor_log w)) ?p = Inr resp"
    and tools: "filter is_tool_use (ar_content resp) \<noteq> []" by blast
  from anthropic_iteration_ok [OF resp, of i] obtain st1 w1 where
    it: "anthropic_iteration env req payload forcedTools i ?toolUses st w = (Inr st1, w1)"
    and cur: "ast_currentResponse st1 = resp"
    and log: "vendor_log w1 = vendor_log w @ [?p]" by blast
  from tools cur have tools1: "filter is_tool_use (ar_content (ast_currentResponse st1)) \<noteq> []" by simp
  from lt have le: "i + 1 \<le> MAX_ITERATIONS" by simp
  from Suc.hyps(1) [OF k tools1 le, of w1] obtain st' w' where
    rest: "anthropic_loop env req payload forcedTools (i + 1) st1 w1 = (Inr (MAX_ITERATIONS, st'), w')"
    and len: "length (vendor_log w') = length (vendor_log w1) + (MAX_ITERATIONS - (i + 1))" by blast
  have "anthropic_loop env req payload forcedTools i st w = (Inr (MAX_ITERATIONS, st'), w')"
    using lt Suc.prems(1) it rest by (subst anthropic_loop.simps) (simp add: Let_def)
  moreover have "length (vendor_log w') = length (vendor_log w) + (MAX_ITERATIONS - i)"
    using len log lt by simp
  ultimately show ?case by blast
qed

lemma anthropic_normalize_message_ok:
  assumes "\<forall>fc. msg_function_call msg = Some fc \<longrightarrow> json_parse env (fc_arguments fc) \<noteq> None"
  shows "\<exists>m w'. anthropic_normalize_message env msg w = (Inr m, w') \<and> vendor_log w' = vendor_log w"
  using assms
  by (auto simp add: anthropic_normalize_message_def read_clock_def split: option.splits)

lemma anthropic_push_messages_ok:
  "\<forall>msg \<in> set ms. \<forall>fc. msg_function_call msg = Some fc \<longrightarrow> json_parse env (fc_arguments fc) \<noteq> None \<Longrightarrow>
   \<exists>ms' w'. anthropic_push_messages env ms acc w = (Inr ms', w') \<and> vendor_log w' = vendor_log w"
proof (induction ms arbitrary: acc w)
  case Nil
  show ?case by simp
next
  case (Cons msg ms)
  from Cons.prems have "\<forall>fc. msg_function_call msg = Some fc \<longrightarrow> json_parse env (fc_arguments fc) \<noteq> None"
    by simp
  from anthropic_normalize_message_ok [OF this, of w] obtain m w1 where
    m: "anthropic_normalize_message env msg w = (Inr m, w1)" and l1: "vendor_log w1 = vendor_log w"
    by blast
  from Cons.prems have "\<forall>msg \<in> set ms. \<forall>fc. msg_function_call msg = Some fc \<longrightarrow> json_parse env (fc_arguments fc) \<noteq> None"
    by simp
  from Cons.IH [OF this, of "acc @ [m]" w1] l1 m show ?case by simp
qed

text \<open>The arguments of every function call among the prior turns are JSON text.\<close>

definition parseable_calls :: "(a_payload, a_response) env \<Rightarrow> request \<Rightarrow> bool" where
  "parseable_calls env req \<longleftrightarrow>
     (\<forall>ms. req_messages req = Some ms \<longrightarrow>
        (\<forall>msg \<in> set ms. \<forall>fc. msg_function_call msg = Some fc \<longrightarrow> json_parse env (fc_arguments fc) \<noteq> None))"

lemma anthropic_normalize_ok:
  assumes "parseable_calls env req"
  shows "\<exists>messages systemPrompt w'. anthropic_normalize env req w = (Inr (messages, systemPrompt), w')
           \<and> vendor_log w' = vendor_log w"
proof (cases "req_messages req")
  case None
  then show ?thesis by (simp add: anthropic_normalize_def Let_def)
next
  case (Some ms)
  with assms have "\<forall>msg \<in> set ms. \<forall>fc. msg_function_call msg = Some fc \<longrightarrow> json_parse env (fc_arguments fc) \<noteq> None"
    by (simp add: parseable_calls_def)
  from anthropic_push_messages_ok [OF this] obtain ms' w' where
    "anthropic_push_messages env ms
       (case req_context req of None \<Rightarrow> []
        | Some c \<Rightarrow> if c = [] then [] else [\<lparr>am_role = ''user'', am_content = ContentString c\<rparr>]) w
     = (Inr ms', w')" and "vendor_log w' = vendor_log w"
    by blast
  with Some show ?thesis by (simp add: anthropic_normalize_def Let_def)
qed

lemma anthropic_try_always_tools:
  assumes stub: "\<forall>n p. \<exists>resp. vendor env n p = Inr resp \<and> filter is_tool_use (ar_content resp) \<noteq> []"
  shows "\<exists>response w'. anthropic_try env req payload anthropicTools messages providerStartTime w = (Inr response, w')
           \<and> tm_iterations (pr_timing response) = MAX_ITERATIONS + 1
           \<and> length (vendor_log w') = length (vendor_log w) + (MAX_ITERATIONS + 1)"
proof -
  obtain t0 w1 where c1: "read_clock env w = (t0, w1)"
    by (cases "read_clock env w")
  then have l1: "vendor_log w1 = vendor_log w"
    by (auto simp add: read_clock_def)
  from stub obtain resp where
    resp: "vendor env (length (vendor_log w)) payload = Inr resp"
    and tools: "filter is_tool_use (ar_content resp) \<noteq> []" by blast
  define w2 where "w2 = w1\<lparr>vendor_log := vendor_log w1 @ [payload]\<rparr>"
  have cv: "call_vendor env payload w1 = (Inr resp, w2)"
    by (simp add: call_vendor_def l1 resp w2_def)
  obtain t1 w3 where c3: "read_clock env w2 = (t1, w3)"
    by (cases "read_clock env w2")
  then have l3: "vendor_log w3 = vendor_log w @ [payload]"
    by (auto simp add: read_clock_def w2_def l1)
  define forcedTools where "forcedTools = anthropic_forcedTools env req anthropicTools"
  define st0 where "st0 = anthropic_initial_state messages forcedTools (ap_tool_choice payload)
                            t0 (t1 - t0) resp"
  have tools0: "filter is_tool_use (ar_content (ast_currentResponse st0)) \<noteq> []"
    using tools by (simp add: st0_def anthropic_initial_state_def Let_def)
  from anthropic_loop_always_tools [OF stub tools0, of 0 req payload forcedTools w3] obtain st w4 where
    loop: "anthropic_loop env req payload forcedTools 0 st0 w3 = (Inr (MAX_ITERATIONS, st), w4)"
    and l4: "length (vendor_log w4) = length (vendor_log w3) + (MAX_ITERATIONS - 0)"
    by auto
  obtain t5 w5 where c5: "read_clock env w4 = (t5, w5)"
    by (cases "read_clock env w4")
  then have l5: "vendor_log w5 = vendor_log w4"
    by (auto simp add: read_clock_def)
  have "anthropic_try env req payload anthropicTools messages providerStartTime w =
          (Inr (anthropic_response req providerStartTime t5 (t1 - t0) MAX_ITERATIONS st), w5)"
    using loop
    by (simp add: anthropic_try_def c1 cv c3 c5 Let_def st0_def forcedTools_def)
  moreover have "tm_iterations (pr_timing (anthropic_response req providerStartTime t5 (t1 - t0) MAX_ITERATIONS st))
                   = MAX_ITERATIONS + 1"
    by (simp add: anthropic_response_def)
  moreover have "length (vendor_log w5) = length (vendor_log w) + (MAX_ITERATIONS + 1)"
    using l5 l4 l3 by simp
  ultimately show ?thesis by blast
qed

lemma anthropic_always_tools:
  assumes key: "truthy_str (req_apiKey req)"
    and parse: "parseable_calls env req"
    and stub: "\<forall>n p. \<exists>resp. vendor env n p = Inr resp \<and> filter is_tool_use (ar_content resp) \<noteq> []"
  shows "\<exists>response w'. anthropic_executeRequest env req w = (Inr response, w')
           \<and> tm_iterations (pr_timing response) = 11
           \<and> length (vendor_log w') = length (vendor_log w) + 11"
proof -
  from anthropic_normalize_ok [OF parse, of w] obtain messages systemPrompt0 w1 where
    n: "anthropic_normalize env req w = (Inr (messages, systemPrompt0), w1)"
    and l1: "vendor_log w1 = vendor_log w" by blast
  obtain anthropicTools toolChoice where ts: "anthropic_tool_setup env req = (anthropicTools, toolChoice)"
    by (cases "anthropic_tool_setup env req")
  obtain t2 w2 where c2: "read_clock env w1 = (t2, w2)"
    by (cases "read_clock env w1")
  then have l2: "vendor_log w2 = vendor_log w1"
    by (auto simp add: read_clock_def)
  define payload where "payload = anthropic_payload req messages
     (anthropic_system_prompt systemPrompt0 (req_responseFormat req)) anthropicTools toolChoice"
  from anthropic_try_always_tools [OF stub, of req payload anthropicTools messages t2 w2]
  obtain response w3 where
    t: "anthropic_try env req payload anthropicTools messages t2 w2 = (Inr response, w3)"
    and it: "tm_iterations (pr_timing response) = MAX_ITERATIONS + 1"
    and l3: "length (vendor_log w3) = length (vendor_log w2) + (MAX_ITERATIONS + 1)" by blast
  have "anthropic_executeRequest env req w = (Inr response, w3)"
    using key t by (simp add: anthropic_executeRequest_def n ts c2 Let_def payload_def)
  with it l3 l2 l1 show ?thesis by (simp add: MAX_ITERATIONS_def)
qed

lemma deepseek_process_tool_call_vendor_log:
  "vendor_log (snd (deepseek_process_tool_call env req t st w)) = vendor_log w"
  by (simp add: deepseek_process_tool_call_def read_clock_def run_tool_def Let_def
           split: option.splits tool_outcome.splits)

lemma deepseek_process_tool_calls_vendor_log:
  "vendor_log (snd (deepseek_process_tool_calls env req ts st w)) = vendor_log w"
proof (induction ts arbitrary: st w)
  case Nil
  show ?case by simp
next
  case (Cons t ts)
  obtain st' w' where step: "deepseek_process_tool_call env req t st w = (st', w')"
    by (cases "deepseek_process_tool_call env req t st w")
  have "vendor_log w' = vendor_log w"
    using deepseek_process_tool_call_vendor_log [of env req t st w] step by simp
  with Cons.IH [of st' w'] step show ?case by simp
qed

lemma deepseek_tools_phase_vendor_log:
  "vendor_log (snd (deepseek_tools_phase env req toolCalls st w)) = vendor_log w"
  using deepseek_process_tool_calls_vendor_log [of env req toolCalls st "snd (read_clock env w)"]
  by (auto simp add: deepseek_tools_phase_def read_clock_def split: prod.splits)

lemma deepseek_iteration_ok:
  assumes "vendor env (length (vendor_log w))
             (deepseek_nextPayload payload (fst (deepseek_tools_phase env req toolCalls st w))) = Inr resp"
  shows "\<exists>st' w'. deepseek_iteration env req payload i toolCalls st w = (Inr st', w')
           \<and> dst_currentResponse st' = resp
           \<and> vendor_log w' = vendor_log w @ [deepseek_nextPayload payload (fst (deepseek_tools_phase env req toolCalls st w))]"
proof -
  obtain st2 w3 where ph: "deepseek_tools_phase env req toolCalls st w = (st2, w3)"
    by (cases "deepseek_tools_phase env req toolCalls st w")
  have vl: "vendor_log w3 = vendor_log w"
    using deepseek_tools_phase_vendor_log [of env req toolCalls st w] ph by simp
  show ?thesis
    using assms ph vl
    by (simp add: deepseek_iteration_def Let_def read_clock_def call_vendor_def deepseek_absorb_def)
qed

text \<open>The response has a non-empty \<^verbatim>\<open>tool_calls\<close> array.\<close>

definition d_has_tool_calls :: "d_response \<Rightarrow> bool" where
  "d_has_tool_calls resp \<longleftrightarrow>
     (case d_message_tool_calls resp of None \<Rightarrow> False | Some toolCalls \<Rightarrow> toolCalls \<noteq> [])"

lemma deepseek_loop_always_tools:
  assumes stub: "\<forall>n p. \<exists>resp. vendor env n p = Inr resp \<and> d_has_tool_calls resp"
  shows "d_has_tool_calls (dst_currentResponse st) \<Longrightarrow> i \<le> MAX_ITERATIONS \<Longrightarrow>
         \<exists>st' w'. deepseek_loop env req payload i st w = ((MAX_ITERATIONS, st'), w')
            \<and> length (vendor_log w') = length (vendor_log w) + (MAX_ITERATIONS - i)"
proof (induction "MAX_ITERATIONS - i" arbitrary: i st w)
  case 0
  then have "i = MAX_ITERATIONS" by simp
  then show ?case by (subst deepseek_loop.simps) simp
next
  case (Suc k)
  from Suc.prems(1) obtain toolCalls where
    tcs: "d_message_tool_calls (dst_currentResponse st) = Some toolCalls" and ne: "toolCalls \<noteq> []"
    by (auto simp add: d_has_tool_calls_def split: option.splits)
  let ?p = "deepseek_nextPayload payload (fst (deepseek_tools_phase env req toolCalls st w))"
  from Suc.hyps(2) have lt: "i < MAX_ITERATIONS" and k: "k = MAX_ITERATIONS - (i + 1)" by simp_all
  from stub obtain resp where
    resp: "vendor env (length (vendor_log w)) ?p = Inr resp"
    and tools: "d_has_tool_calls resp" by blast
  from deepseek_iteration_ok [OF resp, of i] obtain st1 w1 where
    it: "deepseek_iteration env req payload i toolCalls st w = (Inr st1, w1)"
    and cur: "dst_currentResponse st1 = resp"
    and log: "vendor_log w1 = vendor_log w @ [?p]" by blast
  from tools cur have tools1: "d_has_tool_calls (dst_currentResponse st1)" by simp
  from lt have le: "i + 1 \<le> MAX_ITERATIONS" by simp
  from Suc.hyps(1) [OF k tools1 le, of w1] obtain st' w' where
    rest: "deepseek_loop env req payload (i + 1) st1 w1 = ((MAX_ITERATIONS, st'), w')"
    and len: "length (vendor_log w') = length (vendor_log w1) + (MAX_ITERATIONS - (i + 1))" by blast
  have "deepseek_loop env req payload i st w = ((MAX_ITERATIONS, st'), w')"
    using lt tcs ne it rest by (subst deepseek_loop.simps) simp
  moreover have "length (vendor_log w') = length (vendor_log w) + (MAX_ITERATIONS - i)"
    using len log lt by simp
  ultimately show ?case by blast
qed

lemma deepseek_try_always_tools:
  assumes stub: "\<forall>n p. \<exists>resp. vendor env n p = Inr resp \<and> d_has_tool_calls resp"
  shows "\<exists>response w'. deepseek_try env req providerStartTime w = (Inr response, w')
           \<and> tm_iterations (pr_timing response) = MAX_ITERATIONS + 1
           \<and> length (vendor_log w') = length (vendor_log w) + (MAX_ITERATIONS + 1)"
proof -
  define payload where "payload = deepseek_payload env req"
  obtain t0 w1 where c1: "read_clock env w = (t0, w1)"
    by (cases "read_clock env w")
  then have l1: "vendor_log w1 = vendor_log w"
    by (auto simp add: read_clock_def)
  from stub obtain resp where
    resp: "vendor env (length (vendor_log w)) payload = Inr resp"
    and tools: "d_has_tool_calls resp" by blast
  define w2 where "w2 = w1\<lparr>vendor_log := vendor_log w1 @ [payload]\<rparr>"
  have cv: "call_vendor env payload w1 = (Inr resp, w2)"
    by (simp add: call_vendor_def l1 resp w2_def)
  obtain t1 w3 where c3: "read_clock env w2 = (t1, w3)"
    by (cases "read_clock env w2")
  then have l3: "vendor_log w3 = vendor_log w @ [payload]"
    by (auto simp add: read_clock_def w2_def l1)
  define st0 where "st0 = deepseek_initial_state payload t0 (t1 - t0) resp"
  have tools0: "d_has_tool_calls (dst_currentResponse st0)"
    using tools by (simp add: st0_def deepseek_initial_state_def)
  from deepseek_loop_always_tools [OF stub tools0, of 0 req payload w3] obtain st w4 where
    loop: "deepseek_loop env req payload 0 st0 w3 = ((MAX_ITERATIONS, st), w4)"
    and l4: "length (vendor_log w4) = length (vendor_log w3) + (MAX_ITERATIONS - 0)"
    by auto
  obtain t5 w5 where c5: "read_clock env w4 = (t5, w5)"
    by (cases "read_clock env w4")
  then have l5: "vendor_log w5 = vendor_log w4"
    by (auto simp add: read_clock_def)
  have "deepseek_try env req providerStartTime w =
          (Inr (deepseek_response req providerStartTime t5 (t1 - t0) MAX_ITERATIONS st), w5)"
    using loop
    by (simp add: deepseek_try_def c1 cv c3 c5 Let_def st0_def payload_def [symmetric])
  moreover have "tm_iterations (pr_timing (deepseek_response req providerStartTime t5 (t1 - t0) MAX_ITERATIONS st))
                   = MAX_ITERATIONS + 1"
    by (simp add: deepseek_response_def)
  moreover have "length (vendor_log w5) = length (vendor_log w) + (MAX_ITERATIONS + 1)"
    using l5 l4 l3 by simp
  ultimately show ?thesis by blast
qed

lemma deepseek_always_tools:
  assumes key: "truthy_str (req_apiKey req)"
    and stub: "\<forall>n p. \<exists>resp. vendor env n p = Inr resp \<and> d_has_tool_calls resp"
  shows "\<exists>response w'. deepseek_executeRequest env req w = (Inr response, w')
           \<and> tm_iterations (pr_timing response) = 11
           \<and> length (vendor_log w') = length (vendor_log w) + 11"
proof -
  obtain t1 w1 where c1: "read_clock env w = (t1, w1)"
    by (cases "read_clock env w")
  then have l1: "vendor_log w1 = vendor_log w"
    by (auto simp add: read_clock_def)
  from deepseek_try_always_tools [OF stub, of req t1 w1]
  obtain response w2 where
    t: "deepseek_try env req t1 w1 = (Inr response, w2)"
    and it: "tm_iterations (pr_timing response) = MAX_ITERATIONS + 1"
    and l2: "length (vendor_log w2) = length (vendor_log w1) + (MAX_ITERATIONS + 1)" by blast
  have "deepseek_executeRequest env req w = (Inr response, w2)"
    using key t by (simp add: deepseek_executeRequest_def c1)
  with it l2 l1 show ?thesis by (simp add: MAX_ITERATIONS_def)
qed

lemma weather_request_key: "truthy_str (req_apiKey weather_request)"
  by (simp add: weather_request_def)

lemma weather_request_parseable: "parseable_calls env weather_request"
  by (simp add: parseable_calls_def weather_request_def)

lemma always_tool_envA_stub:
  "\<forall>n p. \<exists>resp. vendor always_tool_envA n p = Inr resp \<and> filter is_tool_use (ar_content resp) \<noteq> []"
  by (simp add: always_tool_envA_def)

lemma always_tool_envD_stub:
  "\<forall>n p. \<exists>resp. vendor always_tool_envD n p = Inr resp \<and> d_has_tool_calls resp"
  by (simp add: always_tool_envD_def d_has_tool_calls_def d_message_tool_calls_def)

section \<open>The missing credential\<close>

definition no_key_request :: request where
  "no_key_request = weather_request\<lparr>req_apiKey := None\<rparr>"

text \<open>
  C4. For every request whose \<^verbatim>\<open>apiKey\<close> is absent or empty, \<^verbatim>\<open>executeRequest\<close> of
  either provider raises an error with no timing attached and leaves the world as it was:
  no vendor call was made and the clock was not read.
\<close>

theorem missing_credential_fails_before_anything:
  assumes "req_apiKey req = None \<or> req_apiKey req = Some []"
  shows "anthropic_executeRequest envA req wA = (Inl (Error ''API key is required for Anthropic'' None), wA)
       \<and> deepseek_executeRequest envD req wD = (Inl (Error ''API key is required for Deepseek'' None), wD)"
  using assms by (auto simp add: anthropic_executeRequest_def deepseek_executeRequest_def)

theorem missing_credential_witness:
  "req_apiKey no_key_request = None
   \<and> anthropic_executeRequest always_tool_envA no_key_request world0
       = (Inl (Error ''API key is required for Anthropic'' None), world0)
   \<and> vendor_log (snd (anthropic_executeRequest always_tool_envA no_key_request world0)) = []
   \<and> clock_reads (snd (anthropic_executeRequest always_tool_envA no_key_request world0)) = 0
   \<and> deepseek_executeRequest always_tool_envD no_key_request world0
       = (Inl (Error ''API key is required for Deepseek'' None), world0)
   \<and> vendor_log (snd (deepseek_executeRequest always_tool_envD no_key_request world0)) = []
   \<and> clock_reads (snd (deepseek_executeRequest always_tool_envD no_key_request world0)) = 0"
  using missing_credential_fails_before_anything [of no_key_request always_tool_envA world0 always_tool_envD world0]
  by (simp add: no_key_request_def world0_def)

section \<open>A failing tool execution\<close>

text \<open>\<^verbatim>\<open>executeTool\<close> threw, or reported \<^verbatim>\<open>success\<close> false.\<close>

definition tool_failed :: "tool_outcome \<Rightarrow> bool" where
  "tool_failed outcome = (case outcome of ToolThrows e \<Rightarrow> True | ToolReturns success output \<Rightarrow> \<not> success)"

lemma anthropic_failed_tool_use:
  assumes "find_tool req toolName = Some tool"
    and "tool_failed (executeTool env (length (tool_log w)) toolName (mergedArgs_of (tool_params tool) toolArgs))"
  shows "fst (anthropic_process_tool_use env req (RespToolUse uid toolName toolArgs) st w) = st"
  using assms
  by (simp add: anthropic_process_tool_use_def tool_failed_def read_clock_def run_tool_def
           split: tool_outcome.splits)

lemma deepseek_failed_tool_call:
  assumes "json_parse env (dtc_arguments toolCall) = Some toolArgs"
    and "find_tool req (dtc_name toolCall) = Some tool"
    and "tool_failed (executeTool env (length (tool_log w)) (dtc_name toolCall) (mergedArgs_of (tool_params tool) toolArgs))"
  shows "fst (deepseek_process_tool_call env req toolCall st w) = st"
  using assms
  by (simp add: deepseek_process_tool_call_def tool_failed_def read_clock_def run_tool_def Let_def
           split: tool_outcome.splits)

section \<open>Invariants of the two loops\<close>

text \<open>What every pass through the loop keeps holds of the variables behind the loop; for
  Deepseek also when the loop is left through its \<^verbatim>\<open>catch\<close>.\<close>

lemma anthropic_loop_invariant:
  assumes step: "\<And>i toolUses st w st' w'.
      I st w \<Longrightarrow> anthropic_iteration env req payload forcedTools i toolUses st w = (Inr st', w') \<Longrightarrow> I st' w'"
  shows "I st w \<Longrightarrow> anthropic_loop env req payload forcedTools i st w = (Inr (n, st'), w') \<Longrightarrow> I st' w'"
proof (induction "MAX_ITERATIONS - i" arbitrary: i st w)
  case 0
  then have "\<not> i < MAX_ITERATIONS" by simp
  with "0.prems"(2) have "st' = st \<and> w' = w"
    by (subst (asm) anthropic_loop.simps) simp
  with "0.prems"(1) show ?case by simp
next
  case (Suc k)
  let ?toolUses = "filter is_tool_use (ar_content (ast_currentResponse st))"
  from Suc.hyps(2) have lt: "i < MAX_ITERATIONS" and k: "k = MAX_ITERATIONS - (i + 1)" by simp_all
  show ?case
  proof (cases "?toolUses = []")
    case True
    with lt Suc.prems(2) have "st' = st \<and> w' = w"
      by (subst (asm) anthropic_loop.simps) (simp add: Let_def)
    with Suc.prems(1) show ?thesis by simp
  next
    case False
    obtain r w1 where it: "anthropic_iteration env req payload forcedTools i ?toolUses st w = (r, w1)"
      by (cases "anthropic_iteration env req payload forcedTools i ?toolUses st w")
    show ?thesis
    proof (cases r)
      case (Inl e)
      with False lt it Suc.prems(2) show ?thesis
        by (subst (asm) anthropic_loop.simps) (simp add: Let_def)
    next
      case (Inr st1)
      with False lt it Suc.prems(2) have
        rest: "anthropic_loop env req payload forcedTools (i + 1) st1 w1 = (Inr (n, st'), w')"
        by (subst (asm) anthropic_loop.simps) (simp add: Let_def)
      from it Inr have it': "anthropic_iteration env req payload forcedTools i ?toolUses st w = (Inr st1, w1)"
        by simp
      have inv1: "I st1 w1" by (rule step [OF Suc.prems(1) it'])
      show ?thesis by (rule Suc.hyps(1) [OF k inv1 rest])
    qed
  qed
qed

lemma deepseek_loop_invariant:
  assumes step: "\<And>i toolCalls st w st' w'.
      I st w \<Longrightarrow> deepseek_iteration env req payload i toolCalls st w = (Inr st', w') \<Longrightarrow> I st' w'"
    and caught: "\<And>i toolCalls st w e st' w'.
      I st w \<Longrightarrow> deepseek_iteration env req payload i toolCalls st w = (Inl (e, st'), w') \<Longrightarrow> I st' w'"
  shows "I st w \<Longrightarrow> deepseek_loop env req payload i st w = ((n, st'), w') \<Longrightarrow> I st' w'"
proof (induction "MAX_ITERATIONS - i" arbitrary: i st w)
  case 0
  then have "\<not> i < MAX_ITERATIONS" by simp
  with "0.prems"(2) have "st' = st \<and> w' = w"
    by (subst (asm) deepseek_loop.simps) simp
  with "0.prems"(1) show ?case by simp
next
  case (Suc k)
  from Suc.hyps(2) have lt: "i < MAX_ITERATIONS" and k: "k = MAX_ITERATIONS - (i + 1)" by simp_all
  show ?case
  proof (cases "d_has_tool_calls (dst_currentResponse st)")
    case False
    with lt Suc.prems(2) have "st' = st \<and> w' = w"
      by (subst (asm) deepseek_loop.simps) (auto simp add: d_has_tool_calls_def split: option.splits if_splits)
    with Suc.prems(1) show ?thesis by simp
  next
    case True
    then obtain toolCalls where
      tcs: "d_message_tool_calls (dst_currentResponse st) = Some toolCalls" and ne: "toolCalls \<noteq> []"
      by (auto simp add: d_has_tool_calls_def split: option.splits)
    obtain r w1 where it: "deepseek_iteration env req payload i toolCalls st w = (r, w1)"
      by (cases "deepseek_iteration env req payload i toolCalls st w")
    show ?thesis
    proof (cases r)
      case (Inl p)
      obtain e st1 where p: "p = (e, st1)" by (cases p)
      with Inl it have it': "deepseek_iteration env req payload i toolCalls st w = (Inl (e, st1), w1)"
        by simp
      with lt tcs ne Suc.prems(2) have "st' = st1 \<and> w' = w1"
        by (subst (asm) deepseek_loop.simps) simp
      moreover have "I st1 w1" by (rule caught [OF Suc.prems(1) it'])
      ultimately show ?thesis by simp
    next
      case (Inr st1)
      with it have it': "deepseek_iteration env req payload i toolCalls st w = (Inr st1, w1)"
        by simp
      with lt tcs ne Suc.prems(2) have
        rest: "deepseek_loop env req payload (i + 1) st1 w1 = ((n, st'), w')"
        by (subst (asm) deepseek_loop.simps) simp
      have inv1: "I st1 w1" by (rule step [OF Suc.prems(1) it'])
      show ?thesis by (rule Suc.hyps(1) [OF k inv1 rest])
    qed
  qed
qed

section \<open>The shape of a run that returns an envelope\<close>

lemma anthropic_iteration_vendor_log:
  "vendor_log (snd (anthropic_iteration env req payload forcedTools i toolUses st w))
     = vendor_log w @ [anthropic_nextPayload payload forcedTools
                         (fst (anthropic_tools_phase env req toolUses st w))]"
proof -
  obtain st2 w3 where ph: "anthropic_tools_phase env req toolUses st w = (st2, w3)"
    by (cases "anthropic_tools_phase env req toolUses st w")
  have vl: "vendor_log w3 = vendor_log w"
    using anthropic_tools_phase_vendor_log [of env req toolUses st w] ph by simp
  show ?thesis
    using ph vl
    by (simp add: anthropic_iteration_def Let_def read_clock_def call_vendor_def split: sum.splits)
qed

lemma deepseek_iteration_vendor_log:
  "vendor_log (snd (deepseek_iteration env req payload i toolCalls st w))
     = vendor_log w @ [deepseek_nextPayload payload (fst (deepseek_tools_phase env req toolCalls st w))]"
proof -
  obtain st2 w3 where ph: "deepseek_tools_phase env req toolCalls st w = (st2, w3)"
    by (cases "deepseek_tools_phase env req toolCalls st w")
  have vl: "vendor_log w3 = vendor_log w"
    using deepseek_tools_phase_vendor_log [of env req toolCalls st w] ph by simp
  show ?thesis
    using ph vl
    by (simp add: deepseek_iteration_def Let_def read_clock_def call_vendor_def split: sum.splits)
qed

lemma anthropic_try_Inr:
  assumes "anthropic_try env req payload anthropicTools messages providerStartTime w = (Inr response, w')"
  obtains initialCallTime w1 currentResponse w2 firstResponseEnd w3 n st w4 providerEndTime where
    "read_clock env w = (initialCallTime, w1)"
    "call_vendor env payload w1 = (Inr currentResponse, w2)"
    "read_clock env w2 = (firstResponseEnd, w3)"
    "anthropic_loop env req payload (anthropic_forcedTools env req anthropicTools) 0
       (anthropic_initial_state messages (anthropic_forcedTools env req anthropicTools)
          (ap_tool_choice payload) initialCallTime (firstResponseEnd - initialCallTime) currentResponse) w3
       = (Inr (n, st), w4)"
    "read_clock env w4 = (providerEndTime, w')"
    "response = anthropic_response req providerStartTime providerEndTime
                  (firstResponseEnd - initialCallTime) n st"
proof -
  obtain initialCallTime w1 where c1: "read_clock env w = (initialCallTime, w1)"
    by (cases "read_clock env w")
  obtain r w2 where cv: "call_vendor env payload w1 = (r, w2)"
    by (cases "call_vendor env payload w1")
  obtain firstResponseEnd w3 where c3: "read_clock env w2 = (firstResponseEnd, w3)"
    by (cases "read_clock env w2")
  from assms c1 cv obtain currentResponse where r: "r = Inr currentResponse"
    by (cases r) (simp_all add: anthropic_try_def Let_def)
  define st0 where "st0 = anthropic_initial_state messages (anthropic_forcedTools env req anthropicTools)
          (ap_tool_choice payload) initialCallTime (firstResponseEnd - initialCallTime) currentResponse"
  obtain lr w4 where loop: "anthropic_loop env req payload (anthropic_forcedTools env req anthropicTools) 0 st0 w3 = (lr, w4)"
    by (cases "anthropic_loop env req payload (anthropic_forcedTools env req anthropicTools) 0 st0 w3")
  obtain providerEndTime w5 where c5: "read_clock env w4 = (providerEndTime, w5)"
    by (cases "read_clock env w4")
  from assms c1 cv r c3 loop obtain n st where lr: "lr = Inr (n, st)"
    by (cases lr) (auto simp add: anthropic_try_def Let_def st0_def)
  from assms c1 cv r c3 loop lr c5 have
    "response = anthropic_response req providerStartTime providerEndTime (firstResponseEnd - initialCallTime) n st"
    and "w' = w5"
    by (simp_all add: anthropic_try_def Let_def st0_def)
  with c1 cv r c3 loop lr c5 that show thesis
    by (simp add: st0_def)
qed

lemma anthropic_executeRequest_Inr:
  assumes "anthropic_executeRequest env req w = (Inr response, w')"
  obtains messages systemPrompt0 w1 anthropicTools toolChoice providerStartTime w2 where
    "truthy_str (req_apiKey req)"
    "anthropic_normalize env req w = (Inr (messages, systemPrompt0), w1)"
    "anthropic_tool_setup env req = (anthropicTools, toolChoice)"
    "read_clock env w1 = (providerStartTime, w2)"
    "anthropic_try env req
       (anthropic_payload req messages (anthropic_system_prompt systemPrompt0 (req_responseFormat req))
          anthropicTools toolChoice)
       anthropicTools messages providerStartTime w2 = (Inr response, w')"
proof -
  from assms have key: "truthy_str (req_apiKey req)"
    by (auto simp add: anthropic_executeRequest_def split: if_splits)
  obtain nr w1 where n: "anthropic_normalize env req w = (nr, w1)"
    by (cases "anthropic_normalize env req w")
  from assms key n obtain messages systemPrompt0 where nr: "nr = Inr (messages, systemPrompt0)"
    by (cases nr) (auto simp add: anthropic_executeRequest_def)
  obtain anthropicTools toolChoice where ts: "anthropic_tool_setup env req = (anthropicTools, toolChoice)"
    by (cases "anthropic_tool_setup env req")
  obtain providerStartTime w2 where c2: "read_clock env w1 = (providerStartTime, w2)"
    by (cases "read_clock env w1")
  define payload where "payload = anthropic_payload req messages
      (anthropic_system_prompt systemPrompt0 (req_responseFormat req)) anthropicTools toolChoice"
  obtain tr w3 where t: "anthropic_try env req payload anthropicTools messages providerStartTime w2 = (tr, w3)"
    by (cases "anthropic_try env req payload anthropicTools messages providerStartTime w2")
  from assms key n nr ts c2 t have "tr = Inr response \<and> w3 = w'"
    by (cases tr) (auto simp add: anthropic_executeRequest_def Let_def payload_def enhancedError_def
                     read_clock_def split: error.splits prod.splits)
  with key n nr ts c2 t that show thesis
    by (simp add: payload_def)
qed

lemma deepseek_try_Inr:
  assumes "deepseek_try env req providerStartTime w = (Inr response, w')"
  obtains initialCallTime w1 currentResponse w2 firstResponseEnd w3 n st w4 providerEndTime where
    "read_clock env w = (initialCallTime, w1)"
    "call_vendor env (deepseek_payload env req) w1 = (Inr currentResponse, w2)"
    "read_clock env w2 = (firstResponseEnd, w3)"
    "deepseek_loop env req (deepseek_payload env req) 0
       (deepseek_initial_state (deepseek_payload env req) initialCallTime
          (firstResponseEnd - initialCallTime) currentResponse) w3
       = ((n, st), w4)"
    "read_clock env w4 = (providerEndTime, w')"
    "response = deepseek_response req providerStartTime providerEndTime
                  (firstResponseEnd - initialCallTime) n st"
proof -
  define payload where "payload = deepseek_payload env req"
  obtain initialCallTime w1 where c1: "read_clock env w = (initialCallTime, w1)"
    by (cases "read_clock env w")
  obtain r w2 where cv: "call_vendor env payload w1 = (r, w2)"
    by (cases "call_vendor env payload w1")
  obtain firstResponseEnd w3 where c3: "read_clock env w2 = (firstResponseEnd, w3)"
    by (cases "read_clock env w2")
  from assms c1 cv obtain currentResponse where r: "r = Inr currentResponse"
    by (cases r) (simp_all add: deepseek_try_def Let_def payload_def)
  define st0 where "st0 = deepseek_initial_state payload initialCallTime
          (firstResponseEnd - initialCallTime) currentResponse"
  obtain n st w4 where loop: "deepseek_loop env req payload 0 st0 w3 = ((n, st), w4)"
    by (cases "deepseek_loop env req payload 0 st0 w3") auto
  obtain providerEndTime w5 where c5: "read_clock env w4 = (providerEndTime, w5)"
    by (cases "read_clock env w4")
  from assms c1 cv r c3 loop c5 have
    "response = deepseek_response req providerStartTime providerEndTime (firstResponseEnd - initialCallTime) n st"
    and "w' = w5"
    by (simp_all add: deepseek_try_def Let_def st0_def payload_def)
  with c1 cv r c3 loop c5 that show thesis
    by (simp add: st0_def payload_def)
qed

lemma deepseek_executeRequest_Inr:
  assumes "deepseek_executeRequest env req w = (Inr response, w')"
  obtains providerStartTime w1 where
    "truthy_str (req_apiKey req)"
    "read_clock env w = (providerStartTime, w1)"
    "deepseek_try env req providerStartTime w1 = (Inr response, w')"
proof -
  from assms have key: "truthy_str (req_apiKey req)"
    by (auto simp add: deepseek_executeRequest_def split: if_splits)
  obtain providerStartTime w1 where c1: "read_clock env w = (providerStartTime, w1)"
    by (cases "read_clock env w")
  obtain tr w2 where t: "deepseek_try env req providerStartTime w1 = (tr, w2)"
    by (cases "deepseek_try env req providerStartTime w1")
  from assms key c1 t have "tr = Inr response \<and> w2 = w'"
    by (cases tr) (auto simp add: deepseek_executeRequest_def enhancedError_def
                     read_clock_def split: error.splits prod.splits)
  with key c1 t that show thesis by simp
qed

section \<open>The model of the envelope and the model sent\<close>

lemma anthropic_normalize_message_vendor_log:
  "vendor_log (snd (anthropic_normalize_message env msg w)) = vendor_log w"
  by (simp add: anthropic_normalize_message_def read_clock_def split: option.splits)

lemma anthropic_push_messages_vendor_log:
  "vendor_log (snd (anthropic_push_messages env ms acc w)) = vendor_log w"
proof (induction ms arbitrary: acc w)
  case Nil
  show ?case by simp
next
  case (Cons msg ms)
  obtain r w1 where m: "anthropic_normalize_message env msg w = (r, w1)"
    by (cases "anthropic_normalize_message env msg w")
  have "vendor_log w1 = vendor_log w"
    using anthropic_normalize_message_vendor_log [of env msg w] m by simp
  with Cons.IH m show ?case by (cases r) simp_all
qed

lemma anthropic_normalize_vendor_log:
  "vendor_log (snd (anthropic_normalize env req w)) = vendor_log w"
proof (cases "req_messages req")
  case None
  then show ?thesis by (simp add: anthropic_normalize_def Let_def)
next
  case (Some ms)
  define acc where "acc = (case req_context req of None \<Rightarrow> []
        | Some c \<Rightarrow> if c = [] then [] else [\<lparr>am_role = ''user'', am_content = ContentString c\<rparr>])"
  obtain r w1 where p: "anthropic_push_messages env ms acc w = (r, w1)"
    by (cases "anthropic_push_messages env ms acc w")
  have "vendor_log w1 = vendor_log w"
    using anthropic_push_messages_vendor_log [of env ms acc w] p by simp
  with Some p show ?thesis
    by (cases r) (simp_all add: anthropic_normalize_def Let_def acc_def [symmetric])
qed

lemma anthropic_nextPayload_model:
  "ap_model (anthropic_nextPayload payload forcedTools st) = ap_model payload"
  by (simp add: anthropic_nextPayload_def Let_def split: list.splits)

lemma deepseek_nextPayload_model:
  "dp_model (deepseek_nextPayload payload st) = dp_model payload"
  by (simp add: deepseek_nextPayload_def Let_def)

lemma anthropic_run_models:
  assumes run: "anthropic_executeRequest env req w = (Inr response, w')"
    and fresh: "vendor_log w = []"
  shows "\<forall>p \<in> set (vendor_log w'). Some (ap_model p) = pr_model response"
proof -
  from run obtain messages systemPrompt0 w1 anthropicTools toolChoice providerStartTime w2 where
    n: "anthropic_normalize env req w = (Inr (messages, systemPrompt0), w1)"
    and c2: "read_clock env w1 = (providerStartTime, w2)"
    and t: "anthropic_try env req
       (anthropic_payload req messages (anthropic_system_prompt systemPrompt0 (req_responseFormat req))
          anthropicTools toolChoice)
       anthropicTools messages providerStartTime w2 = (Inr response, w')"
    by (rule anthropic_executeRequest_Inr)
  define payload where "payload = anthropic_payload req messages
      (anthropic_system_prompt systemPrompt0 (req_responseFormat req)) anthropicTools toolChoice"
  define m where "m = or_default (req_model req) ''claude-3-7-sonnet-20250219''"
  have pm: "ap_model payload = m" by (simp add: payload_def m_def anthropic_payload_def)
  have l1: "vendor_log w1 = []"
    using anthropic_normalize_vendor_log [of env req w] n fresh by simp
  from c2 l1 have l2: "vendor_log w2 = []" by (auto simp add: read_clock_def)
  from t [folded payload_def] obtain initialCallTime w3 currentResponse w4 firstResponseEnd w5 k st w6 providerEndTime where
    c3: "read_clock env w2 = (initialCallTime, w3)"
    and cv: "call_vendor env payload w3 = (Inr currentResponse, w4)"
    and c5: "read_clock env w4 = (firstResponseEnd, w5)"
    and loop: "anthropic_loop env req payload (anthropic_forcedTools env req anthropicTools) 0
       (anthropic_initial_state messages (anthropic_forcedTools env req anthropicTools)
          (ap_tool_choice payload) initialCallTime (firstResponseEnd - initialCallTime) currentResponse) w5
       = (Inr (k, st), w6)"
    and c7: "read_clock env w6 = (providerEndTime, w')"
    and resp: "response = anthropic_response req providerStartTime providerEndTime
                  (firstResponseEnd - initialCallTime) k st"
    by (rule anthropic_try_Inr)
  from c3 l2 cv c5 have l5: "vendor_log w5 = [payload]"
    by (auto simp add: read_clock_def call_vendor_def)
  let ?I = "\<lambda>(st :: a_state) (w :: a_payload world). \<forall>p \<in> set (vendor_log w). ap_model p = m"
  have step: "\<And>i toolUses st w st' w'. ?I st w \<Longrightarrow>
      anthropic_iteration env req payload (anthropic_forcedTools env req anthropicTools) i toolUses st w = (Inr st', w')
      \<Longrightarrow> ?I st' w'"
  proof -
    fix i toolUses st w st' w'
    assume inv: "?I st w"
      and it: "anthropic_iteration env req payload (anthropic_forcedTools env req anthropicTools) i toolUses st w = (Inr st', w')"
    from anthropic_iteration_vendor_log [of env req payload "anthropic_forcedTools env req anthropicTools" i toolUses st w] it
    have "vendor_log w' = vendor_log w @ [anthropic_nextPayload payload (anthropic_forcedTools env req anthropicTools)
                         (fst (anthropic_tools_phase env req toolUses st w))]" by simp
    with inv show "?I st' w'" by (simp add: anthropic_nextPayload_model pm)
  qed
  have "?I st w6"
    by (rule anthropic_loop_invariant [where I = ?I, OF step _ loop]) (simp_all add: l5 pm)
  with c7 have "\<forall>p \<in> set (vendor_log w'). ap_model p = m"
    by (auto simp add: read_clock_def)
  moreover have "pr_model response = Some m"
    by (simp add: resp anthropic_response_def m_def)
  ultimately show ?thesis by simp
qed

lemma deepseek_payload_model: "dp_model (deepseek_payload env req) = ''deepseek-chat''"
  by (simp add: deepseek_payload_def Let_def split: option.splits)

lemma deepseek_run_models:
  assumes run: "deepseek_executeRequest env req w = (Inr response, w')"
    and fresh: "vendor_log w = []"
  shows "(\<forall>p \<in> set (vendor_log w'). dp_model p = ''deepseek-chat'') \<and> pr_model response = req_model req"
proof -
  from run obtain providerStartTime w1 where
    c1: "read_clock env w = (providerStartTime, w1)"
    and t: "deepseek_try env req providerStartTime w1 = (Inr response, w')"
    by (rule deepseek_executeRequest_Inr)
  define payload where "payload = deepseek_payload env req"
  have pm: "dp_model payload = ''deepseek-chat''" by (simp add: payload_def deepseek_payload_model)
  from c1 fresh have l1: "vendor_log w1 = []" by (auto simp add: read_clock_def)
  from t obtain initialCallTime w3 currentResponse w4 firstResponseEnd w5 k st w6 providerEndTime where
    c3: "read_clock env w1 = (initialCallTime, w3)"
    and cv: "call_vendor env payload w3 = (Inr currentResponse, w4)"
    and c5: "read_clock env w4 = (firstResponseEnd, w5)"
    and loop: "deepseek_loop env req payload 0
       (deepseek_initial_state payload initialCallTime (firstResponseEnd - initialCallTime) currentResponse) w5
       = ((k, st), w6)"
    and c7: "read_clock env w6 = (providerEndTime, w')"
    and resp: "response = deepseek_response req providerStartTime providerEndTime
                  (firstResponseEnd - initialCallTime) k st"
    unfolding payload_def by (rule deepseek_try_Inr)
  from c3 l1 cv c5 have l5: "vendor_log w5 = [payload]"
    by (auto simp add: read_clock_def call_vendor_def)
  let ?I = "\<lambda>(st :: d_state) (w :: d_payload world). \<forall>p \<in> set (vendor_log w). dp_model p = ''deepseek-chat''"
  have log: "\<And>i toolCalls st w r w'. ?I st w \<Longrightarrow>
      deepseek_iteration env req payload i toolCalls st w = (r, w') \<Longrightarrow> \<forall>p \<in> set (vendor_log w'). dp_model p = ''deepseek-chat''"
  proof -
    fix i toolCalls st w r w'
    assume inv: "?I st w" and it: "deepseek_iteration env req payload i toolCalls st w = (r, w')"
    from deepseek_iteration_vendor_log [of env req payload i toolCalls st w] it
    have "vendor_log w' = vendor_log w @ [deepseek_nextPayload payload
                         (fst (deepseek_tools_phase env req toolCalls st w))]" by simp
    with inv show "\<forall>p \<in> set (vendor_log w'). dp_model p = ''deepseek-chat''"
      by (simp add: deepseek_nextPayload_model pm)
  qed
  have "?I st w6"
    by (rule deepseek_loop_invariant [where I = ?I, OF log log _ loop]) (simp_all add: l5 pm)
  with c7 have "\<forall>p \<in> set (vendor_log w'). dp_model p = ''deepseek-chat''"
    by (auto simp add: read_clock_def)
  moreover have "pr_model response = req_model req"
    by (simp add: resp deepseek_response_def)
  ultimately show ?thesis by simp
qed

text \<open>The envelope of a run, if it returned one.\<close>

definition envelope_of :: "error + provider_response \<Rightarrow> provider_response option" where
  "envelope_of r = (case r of Inl e \<Rightarrow> None | Inr response \<Rightarrow> Some response)"

text \<open>Surroundings in which the vendor answers every call with the given text and no tool
  invocation.\<close>

definition text_envA :: "string \<Rightarrow> (a_payload, a_response) env" where
  "text_envA text =
     \<lparr>now = (\<lambda>n. 1000 + 5 * int n),
      random_suffix = (\<lambda>n. ''k3x9q''),
      vendor = (\<lambda>n p. Inr \<lparr>ar_content = [RespText text],
                            ar_usage = Some \<lparr>au_input_tokens = Some 12, au_output_tokens = Some 7\<rparr>\<rparr>),
      executeTool = (\<lambda>n toolName args. ToolReturns True (JObj [(''temp'', JNum 20)])),
      json_parse = parse_example,
      syntax_error = syntax_error_example,
      json_stringify = stringify_example,
      prepareToolsWithUsageControl = prepare_auto\<rparr>"

definition text_envD :: "string \<Rightarrow> (d_payload, d_response) env" where
  "text_envD text =
     \<lparr>now = (\<lambda>n. 1000 + 5 * int n),
      random_suffix = (\<lambda>n. ''k3x9q''),
      vendor = (\<lambda>n p. Inr \<lparr>dr_message = Some \<lparr>dm_content = Some text, dm_tool_calls = None\<rparr>,
                            dr_usage = Some \<lparr>du_prompt_tokens = Some 12, du_completion_tokens = Some 7,
                                              du_total_tokens = Some 19\<rparr>\<rparr>),
      executeTool = (\<lambda>n toolName args. ToolReturns True (JObj [(''temp'', JNum 20)])),
      json_parse = parse_example,
      syntax_error = syntax_error_example,
      json_stringify = stringify_example,
      prepareToolsWithUsageControl = prepare_auto\<rparr>"

definition sunny_runA :: "(error + provider_response) \<times> a_payload world" where
  "sunny_runA = anthropic_executeRequest (text_envA ''It is sunny.'') weather_request world0"

definition sunny_runD :: "(error + provider_response) \<times> d_payload world" where
  "sunny_runD = deepseek_executeRequest (text_envD ''It is sunny.'') weather_request world0"

text \<open>
  C9, as the code has it. For every run that returns an envelope, started with an empty
  vendor log: with Anthropic, the \<^verbatim>\<open>model\<close> of the envelope is the model identifier
  of every payload sent to the vendor; with Deepseek, every payload sent carries the fixed
  identifier \<^verbatim>\<open>'deepseek-chat'\<close>, whatever the request selects, and the
  \<^verbatim>\<open>model\<close> of the envelope is the \<^verbatim>\<open>model\<close> field of the request.
\<close>

theorem envelope_model_and_payload_models:
  "(anthropic_executeRequest envA req wA = (Inr ra, wA') \<longrightarrow> vendor_log wA = [] \<longrightarrow>
      (\<forall>p \<in> set (vendor_log wA'). Some (ap_model p) = pr_model ra))
   \<and> (deepseek_executeRequest envD req wD = (Inr rd, wD') \<longrightarrow> vendor_log wD = [] \<longrightarrow>
      (\<forall>p \<in> set (vendor_log wD'). dp_model p = ''deepseek-chat'') \<and> pr_model rd = req_model req)"
  using anthropic_run_models [of envA req wA ra wA'] deepseek_run_models [of envD req wD rd wD']
  by blast

theorem envelope_model_and_payload_models_witness:
  "map_option pr_model (envelope_of (fst sunny_runA)) = Some (Some ''deepseek-reasoner'')
   \<and> map ap_model (vendor_log (snd sunny_runA)) = [''deepseek-reasoner'']
   \<and> map_option pr_model (envelope_of (fst sunny_runD)) = Some (req_model weather_request)
   \<and> map dp_model (vendor_log (snd sunny_runD)) = [''deepseek-chat'']"
proof -
  have ea: "map_option pr_model (envelope_of (fst sunny_runA)) = Some (Some ''deepseek-reasoner'')"
    by code_simp
  then obtain ra where ra: "fst sunny_runA = Inr ra" and ma: "pr_model ra = Some ''deepseek-reasoner''"
    by (cases "fst sunny_runA") (auto simp add: envelope_of_def)
  have ed: "map_option pr_model (envelope_of (fst sunny_runD)) = Some (req_model weather_request)"
    by code_simp
  then obtain rd where rd: "fst sunny_runD = Inr rd"
    by (cases "fst sunny_runD") (auto simp add: envelope_of_def)
  have la: "length (vendor_log (snd sunny_runA)) = 1" by code_simp
  have ld: "length (vendor_log (snd sunny_runD)) = 1" by code_simp
  from ra have runA: "anthropic_executeRequest (text_envA ''It is sunny.'') weather_request world0
                        = (Inr ra, snd sunny_runA)"
    by (simp add: sunny_runA_def prod_eq_iff)
  from rd have runD: "deepseek_executeRequest (text_envD ''It is sunny.'') weather_request world0
                        = (Inr rd, snd sunny_runD)"
    by (simp add: sunny_runD_def prod_eq_iff)
  from envelope_model_and_payload_models
         [of "text_envA ''It is sunny.''" weather_request world0 ra "snd sunny_runA"
             "text_envD ''It is sunny.''" world0 rd "snd sunny_runD"]
       runA runD
  have a: "\<forall>p \<in> set (vendor_log (snd sunny_runA)). Some (ap_model p) = pr_model ra"
    and d: "\<forall>p \<in> set (vendor_log (snd sunny_runD)). dp_model p = ''deepseek-chat''"
    by (simp_all add: world0_def)
  from la obtain pa where pa: "vendor_log (snd sunny_runA) = [pa]"
    by (cases "vendor_log (snd sunny_runA)") auto
  from ld obtain pd where pd: "vendor_log (snd sunny_runD) = [pd]"
    by (cases "vendor_log (snd sunny_runD)") auto
  from a pa ma have "map ap_model (vendor_log (snd sunny_runA)) = [''deepseek-reasoner'']" by simp
  moreover from d pd have "map dp_model (vendor_log (snd sunny_runD)) = [''deepseek-chat'']" by simp
  ultimately show ?thesis using ea ed by simp
qed

text \<open>A Deepseek run for a request that selects \<^verbatim>\<open>'deepseek-reasoner'\<close>: the envelope
  names that model, the one payload sent names \<^verbatim>\<open>'deepseek-chat'\<close>.\<close>

theorem deepseek_model_counterexample:
  "map_option pr_model (envelope_of (fst sunny_runD)) = Some (Some ''deepseek-reasoner'')
   \<and> map dp_model (vendor_log (snd sunny_runD)) = [''deepseek-chat'']"
  by code_simp

section \<open>JSON extraction from the final content\<close>

lemma includes_str_single: "includes_str s [c] \<longleftrightarrow> c \<in> set s"
  by (induction s) auto

lemma match_braces_span:
  assumes "CHR ''{'' \<notin> set pre" and "CHR ''}'' \<notin> set post"
  shows "match_braces (pre @ ''{'' @ mid @ ''}'' @ post) = Some (''{'' @ mid @ ''}'')"
proof -
  have "dropWhile (\<lambda>c. c \<noteq> CHR ''{'') (pre @ ''{'' @ mid @ ''}'' @ post) = ''{'' @ mid @ ''}'' @ post"
    using assms(1) by (subst dropWhile_append2) auto
  moreover have "dropWhile (\<lambda>c. c \<noteq> CHR ''}'') (rev (mid @ ''}'' @ post)) = CHR ''}'' # rev mid"
    using assms(2) by (simp, subst dropWhile_append2) auto
  ultimately show ?thesis by (simp add: match_braces_def)
qed

lemma extractJson_span:
  assumes "CHR ''{'' \<notin> set pre" and "CHR ''}'' \<notin> set post"
  shows "extractJson (pre @ ''{'' @ mid @ ''}'' @ post) = ''{'' @ mid @ ''}''"
  using match_braces_span [OF assms]
  by (simp add: extractJson_def includes_str_single)

lemma match_braces_Some:
  assumes "match_braces s = Some m"
  shows "\<exists>pre mid post. s = pre @ ''{'' @ mid @ ''}'' @ post \<and> m = ''{'' @ mid @ ''}''
           \<and> CHR ''{'' \<notin> set pre \<and> CHR ''}'' \<notin> set post"
proof -
  define pre where "pre = takeWhile (\<lambda>c. c \<noteq> CHR ''{'') s"
  define from_brace where "from_brace = dropWhile (\<lambda>c. c \<noteq> CHR ''{'') s"
  have s: "s = pre @ from_brace" by (simp add: pre_def from_brace_def)
  have pre: "CHR ''{'' \<notin> set pre"
    unfolding pre_def by (auto dest: set_takeWhileD)
  obtain b rest where fb: "from_brace = b # rest"
  proof (cases from_brace)
    case Nil
    with assms show ?thesis
      unfolding match_braces_def from_brace_def [symmetric] by simp
  next
    case (Cons b rest)
    then show ?thesis by (rule that)
  qed
  have "from_brace \<noteq> []" using fb by simp
  then have "\<not> hd from_brace \<noteq> CHR ''{''"
    unfolding from_brace_def by (rule hd_dropWhile)
  with fb have b: "b = CHR ''{''" by simp
  define post where "post = rev (takeWhile (\<lambda>c. c \<noteq> CHR ''}'') (rev rest))"
  define body where "body = rev (dropWhile (\<lambda>c. c \<noteq> CHR ''}'') (rev rest))"
  have rest: "rest = body @ post"
    unfolding body_def post_def
    by (simp only: rev_append [symmetric] takeWhile_dropWhile_id rev_rev_ident)
  have post: "CHR ''}'' \<notin> set post"
    unfolding post_def by (auto dest: set_takeWhileD)
  from assms fb have ne: "body \<noteq> []" and m: "m = b # body"
    unfolding match_braces_def from_brace_def [symmetric] body_def
    by (simp_all add: Let_def split: if_splits)
  define tail where "tail = dropWhile (\<lambda>c. c \<noteq> CHR ''}'') (rev rest)"
  have bt: "body = rev tail" by (simp add: body_def tail_def)
  with ne have "tail \<noteq> []" by simp
  then have "\<not> hd tail \<noteq> CHR ''}''"
    unfolding tail_def by (rule hd_dropWhile)
  with \<open>tail \<noteq> []\<close> have "last body = CHR ''}''"
    by (simp add: bt last_rev)
  with ne obtain mid where body: "body = mid @ ''}''"
    by (metis append_butlast_last_id)
  from s fb b rest body m pre post show ?thesis by auto
qed

lemma extractJson_cases:
  "extractJson content = content
   \<or> (\<exists>pre mid post. content = pre @ ''{'' @ mid @ ''}'' @ post \<and> extractJson content = ''{'' @ mid @ ''}''
         \<and> CHR ''{'' \<notin> set pre \<and> CHR ''}'' \<notin> set post)"
proof (cases "match_braces content")
  case None
  then show ?thesis by (simp add: extractJson_def)
next
  case (Some m)
  from match_braces_Some [OF Some] obtain pre mid post where
    c: "content = pre @ ''{'' @ mid @ ''}'' @ post" and "m = ''{'' @ mid @ ''}''"
    and p: "CHR ''{'' \<notin> set pre" "CHR ''}'' \<notin> set post" by blast
  from extractJson_span [OF p, of mid] c p show ?thesis by blast
qed

definition score_text :: string where
  \<open>score_text = ''Here is the result: {"score": 4} Hope this helps.''\<close>

definition score_runA :: "(error + provider_response) \<times> a_payload world" where
  "score_runA = anthropic_executeRequest (text_envA score_text) weather_request world0"

definition score_runD :: "(error + provider_response) \<times> d_payload world" where
  "score_runD = deepseek_executeRequest (text_envD score_text) weather_request world0"

text \<open>
  C8, as the code has it. The Anthropic provider puts into the envelope the accumulated
  content after the extraction of lines 517 to 526: content that has an opening brace with
  a closing brace somewhere behind it is replaced by the span from its first opening brace
  to its last closing brace, so that \<open>pre @ ''{'' @ mid @ ''}'' @ post\<close> with no opening
  brace in \<open>pre\<close> and no closing brace in \<open>post\<close> becomes \<open>''{'' @ mid @ ''}''\<close>; any
  other content is left as it is. The Deepseek provider has no such extraction: its
  envelope carries the accumulated content unchanged.
\<close>

theorem brace_extraction_anthropic_only:
  "pr_content (anthropic_response req providerStartTime providerEndTime firstResponseTime n st)
     = extractJson (ast_content st)
   \<and> (CHR ''{'' \<notin> set pre \<longrightarrow> CHR ''}'' \<notin> set post \<longrightarrow>
        extractJson (pre @ ''{'' @ mid @ ''}'' @ post) = ''{'' @ mid @ ''}'')
   \<and> (extractJson content = content
        \<or> (\<exists>pre mid post. content = pre @ ''{'' @ mid @ ''}'' @ post
              \<and> extractJson content = ''{'' @ mid @ ''}''
              \<and> CHR ''{'' \<notin> set pre \<and> CHR ''}'' \<notin> set post))
   \<and> pr_content (deepseek_response req providerStartTime providerEndTime firstResponseTime n dst)
       = dst_content dst"
  using extractJson_span [of pre post mid] extractJson_cases [of content]
  by (simp add: anthropic_response_def deepseek_response_def)

theorem brace_extraction_witness:
  \<open>extractJson score_text = ''{"score": 4}''
   \<and> map_option pr_content (envelope_of (fst score_runA)) = Some ''{"score": 4}''\<close>
proof -
  have \<open>extractJson (''Here is the result: '' @ ''{'' @ ''"score": 4'' @ ''}'' @ '' Hope this helps.'')
          = ''{'' @ ''"score": 4'' @ ''}''\<close>
    using brace_extraction_anthropic_only
            [where pre = \<open>''Here is the result: ''\<close> and post = \<open>'' Hope this helps.''\<close>
               and mid = \<open>''"score": 4''\<close>]
    by simp
  then have \<open>extractJson score_text = ''{"score": 4}''\<close>
    by (simp add: score_text_def)
  moreover have \<open>map_option pr_content (envelope_of (fst score_runA)) = Some ''{"score": 4}''\<close>
    by code_simp
  ultimately show ?thesis by simp
qed

text \<open>A Deepseek run whose final text has a JSON object between two sentences: the envelope
  carries the whole text.\<close>

theorem deepseek_no_extraction_counterexample:
  \<open>map_option pr_content (envelope_of (fst score_runD))
     = Some ''Here is the result: {"score": 4} Hope this helps.''\<close>
  by code_simp

section \<open>The clean-up of the Deepseek content\<close>

text \<open>No white space at either end.\<close>

definition no_outer_space :: "string \<Rightarrow> bool" where
  "no_outer_space s \<longleftrightarrow> s = [] \<or> (\<not> is_js_space (hd s) \<and> \<not> is_js_space (last s))"

lemma trim_no_outer_space: "no_outer_space (trim s)"
proof -
  define t where "t = dropWhile is_js_space s"
  define u where "u = dropWhile is_js_space (rev t)"
  have tr: "trim s = rev u" by (simp add: trim_def t_def u_def)
  show ?thesis
  proof (cases "u = []")
    case True
    with tr show ?thesis by (simp add: no_outer_space_def)
  next
    case False
    then have hu: "\<not> is_js_space (hd u)"
      unfolding u_def by (rule hd_dropWhile)
    have split: "rev t = takeWhile is_js_space (rev t) @ u"
      by (simp add: u_def)
    with False have "last (rev t) = last u"
      by (metis last_appendR)
    moreover from split False have tne: "t \<noteq> []" by auto
    ultimately have "last u = hd t" by (simp add: last_rev)
    moreover from tne have "\<not> is_js_space (hd t)"
      unfolding t_def by (rule hd_dropWhile)
    ultimately have "\<not> is_js_space (last u)" by simp
    with hu False tr show ?thesis
      by (simp add: no_outer_space_def hd_rev last_rev)
  qed
qed

section \<open>Structured-output instructions\<close>

definition score_format :: response_format where
  "score_format =
     \<lparr>rf_schema = Some \<lparr>schema_properties =
         Some [(''score'', \<lparr>prop_type = Some ''number'', prop_description = None\<rparr>)]\<rparr>,
      rf_properties = None\<rparr>"

definition score_request :: request where
  "score_request = weather_request\<lparr>req_responseFormat := Some score_format\<rparr>"

definition graded_runA :: "(error + provider_response) \<times> a_payload world" where
  "graded_runA = anthropic_executeRequest (text_envA score_text) score_request world0"

lemma json_quote_score: \<open>json_quote ''score'' = ''"score"''\<close>
  by (simp add: json_quote_def json_escape_char_def)

lemma deepseek_payload_ignores_responseFormat:
  "deepseek_payload env (req\<lparr>req_responseFormat := rf\<rparr>) = deepseek_payload env req"
  by (simp add: deepseek_payload_def deepseek_allMessages_def deepseek_tools_of_def Let_def)

text \<open>A text without its quotation marks and backslashes: what a JSON string shows of its
  value, and what a bare word shows of itself.\<close>

definition unquoted :: "string \<Rightarrow> string" where
  "unquoted s = filter (\<lambda>c. c \<noteq> CHR 0x22 \<and> c \<noteq> CHR 0x5C) s"

lemma unquoted_placeholder:
  "unquoted (json_quote (exampleValue prop)) =
     (if propType prop = ''number'' then ''0''
      else if propType prop = ''boolean'' then ''true''
      else if propType prop = ''array'' then ''[]''
      else if propType prop = ''object'' then ''{}''
      else ''value'')"
  by (simp add: unquoted_def exampleValue_def json_quote_def json_escape_char_def)

text \<open>
  C7, as the code has it. For every response format whose schema declares the one property
  \<^verbatim>\<open>score\<close>, the Anthropic provider appends to the system prompt the heading, rule
  1, a JSON object template printed on three lines with an indentation of two spaces (the
  opening brace, the key \<^verbatim>\<open>"score"\<close> with the placeholder of the type of the property
  behind it, the closing brace), the field description \<^verbatim>\<open>score (type)\<close> with the
  description of the property if it has one, and the rules 2 to 5 against text around the
  JSON, an array around it and fields the schema does not declare. The placeholder reads
  \<^verbatim>\<open>0\<close> for a number, \<^verbatim>\<open>true\<close> for a boolean, \<^verbatim>\<open>[]\<close> for an array,
  \<^verbatim>\<open>{}\<close> for an object and \<^verbatim>\<open>value\<close> for a string or any other type; the
  quotation marks and escapes it is printed with are left open here (the lemma
  \<open>template_shows_a_quoted_number\<close> below shows what the code prints). The payload of the
  Deepseek provider does not depend on the response format: it adds no instructions.
\<close>

theorem structured_output_instructions:
  assumes "effective_properties rf = Some [(''score'', prop)]"
  shows \<open>(\<exists>placeholder.
            anthropic_system_prompt systemPrompt (Some rf) =
              systemPrompt
              @ [CHR 0x0A] @ ''IMPORTANT RESPONSE FORMAT INSTRUCTIONS:''
              @ [CHR 0x0A] @ ''1. Your response must be EXACTLY in this format, with no additional fields:''
              @ [CHR 0x0A] @ ''{''
              @ [CHR 0x0A] @ ''  "score": '' @ placeholder
              @ [CHR 0x0A] @ ''}''
              @ [CHR 0x0A]
              @ [CHR 0x0A] @ ''Field descriptions:''
              @ [CHR 0x0A] @ ''score ('' @ propType prop @ '')''
                @ (case prop_description prop of
                     None \<Rightarrow> []
                   | Some d \<Rightarrow> if d = [] then [] else '': '' @ d)
              @ [CHR 0x0A]
              @ [CHR 0x0A] @ ''2. DO NOT include any explanatory text before or after the JSON''
              @ [CHR 0x0A] @ ''3. DO NOT wrap the response in an array''
              @ [CHR 0x0A] @ ''4. DO NOT add any fields not specified in the schema''
              @ [CHR 0x0A] @ ''5. Your response MUST be valid JSON and include all the specified fields with their correct types''
            \<and> unquoted placeholder =
                (if propType prop = ''number'' then ''0''
                 else if propType prop = ''boolean'' then ''true''
                 else if propType prop = ''array'' then ''[]''
                 else if propType prop = ''object'' then ''{}''
                 else ''value''))
         \<and> deepseek_payload envD (req\<lparr>req_responseFormat := Some rf\<rparr>)
             = deepseek_payload envD (req\<lparr>req_responseFormat := None\<rparr>)\<close>
proof -
  have tpl: \<open>stringify_indent2 (jsonTemplate [(''score'', prop)]) =
               ''{'' @ [CHR 0x0A] @ ''  "score": '' @ json_quote (exampleValue prop) @ [CHR 0x0A] @ ''}''\<close>
    by (simp add: stringify_indent2_def jsonTemplate_def json_quote_score)
  have fd: "fieldDescriptions [(''score'', prop)] =
              ''score ('' @ propType prop @ '')'' @ (case prop_description prop of
                     None \<Rightarrow> []
                   | Some d \<Rightarrow> if d = [] then [] else '': '' @ d)"
    by (simp add: fieldDescriptions_def)
  have "anthropic_system_prompt systemPrompt (Some rf) = systemPrompt @ schemaInstructions [(''score'', prop)]"
    using assms(1) by (simp add: anthropic_system_prompt_def)
  then have \<open>anthropic_system_prompt systemPrompt (Some rf) =
              systemPrompt
              @ [CHR 0x0A] @ ''IMPORTANT RESPONSE FORMAT INSTRUCTIONS:''
              @ [CHR 0x0A] @ ''1. Your response must be EXACTLY in this format, with no additional fields:''
              @ [CHR 0x0A] @ ''{''
              @ [CHR 0x0A] @ ''  "score": '' @ json_quote (exampleValue prop)
              @ [CHR 0x0A] @ ''}''
              @ [CHR 0x0A]
              @ [CHR 0x0A] @ ''Field descriptions:''
              @ [CHR 0x0A] @ ''score ('' @ propType prop @ '')''
                @ (case prop_description prop of
                     None \<Rightarrow> []
                   | Some d \<Rightarrow> if d = [] then [] else '': '' @ d)
              @ [CHR 0x0A]
              @ [CHR 0x0A] @ ''2. DO NOT include any explanatory text before or after the JSON''
              @ [CHR 0x0A] @ ''3. DO NOT wrap the response in an array''
              @ [CHR 0x0A] @ ''4. DO NOT add any fields not specified in the schema''
              @ [CHR 0x0A] @ ''5. Your response MUST be valid JSON and include all the specified fields with their correct types''\<close>
    by (simp add: schemaInstructions_def tpl fd)
  with unquoted_placeholder show ?thesis
    by (simp add: deepseek_payload_ignores_responseFormat)
qed

theorem structured_output_instructions_witness:
  \<open>(\<exists>placeholder.
       anthropic_system_prompt ''You are helpful.'' (Some score_format) =
         ''You are helpful.''
         @ [CHR 0x0A] @ ''IMPORTANT RESPONSE FORMAT INSTRUCTIONS:''
         @ [CHR 0x0A] @ ''1. Your response must be EXACTLY in this format, with no additional fields:''
         @ [CHR 0x0A] @ ''{''
         @ [CHR 0x0A] @ ''  "score": '' @ placeholder
         @ [CHR 0x0A] @ ''}''
         @ [CHR 0x0A]
         @ [CHR 0x0A] @ ''Field descriptions:''
         @ [CHR 0x0A] @ ''score (number)''
         @ [CHR 0x0A]
         @ [CHR 0x0A] @ ''2. DO NOT include any explanatory text before or after the JSON''
         @ [CHR 0x0A] @ ''3. DO NOT wrap the response in an array''
         @ [CHR 0x0A] @ ''4. DO NOT add any fields not specified in the schema''
         @ [CHR 0x0A] @ ''5. Your response MUST be valid JSON and include all the specified fields with their correct types''
       \<and> unquoted placeholder = ''0'')
   \<and> deepseek_payload (text_envD score_text) score_request
       = deepseek_payload (text_envD score_text) weather_request\<close>
proof -
  have props: "effective_properties score_format
                 = Some [(''score'', \<lparr>prop_type = Some ''number'', prop_description = None\<rparr>)]"
    by (simp add: effective_properties_def score_format_def)
  have same: "weather_request\<lparr>req_responseFormat := None\<rparr> = weather_request"
    by (simp add: weather_request_def)
  have pt: "propType \<lparr>prop_type = Some ''number'', prop_description = None\<rparr> = ''number''"
    by (simp add: propType_def or_default_def)
  from structured_output_instructions [OF props, of "''You are helpful.''" "text_envD score_text" weather_request]
  show ?thesis by (simp add: score_request_def same pt)
qed

text \<open>The schema \<^verbatim>\<open>{score: number}\<close>: the system prompt sent by the Anthropic provider
  does not contain the text \<^verbatim>\<open>{"score": 0}\<close>.\<close>

theorem no_literal_template_counterexample:
  \<open>map ap_system (vendor_log (snd graded_runA))
     = [anthropic_system_prompt ''You are helpful.'' (Some score_format)]
   \<and> \<not> includes_str (anthropic_system_prompt ''You are helpful.'' (Some score_format)) ''{"score": 0}''\<close>
  by code_simp

text \<open>The template as it is printed for the schema \<^verbatim>\<open>{score: number}\<close>. The
  \<^verbatim>\<open>switch\<close> of lines 156 to 174 chooses the example values as texts, and
  \<^verbatim>\<open>JSON.stringify\<close> prints a text as a JSON string: the template shows \<^verbatim>\<open>"0"\<close> in
  quotation marks where the comment of line 155 announces an example value of the type of
  the property, a number.\<close>

lemma template_shows_a_quoted_number:
  \<open>stringify_indent2 (jsonTemplate [(''score'', \<lparr>prop_type = Some ''number'', prop_description = None\<rparr>)])
     = ''{'' @ [CHR 0x0A] @ ''  "score": "0"'' @ [CHR 0x0A] @ ''}''\<close>
  by code_simp

text \<open>The tool executions of a log that returned with \<^verbatim>\<open>success\<close> true, each with the name
  of the tool and its output; the first argument is the number of the first execution of
  the log.\<close>

fun successes_from ::
  "('p, 'r) env \<Rightarrow> nat \<Rightarrow> (string \<times> (string \<times> json) list) list \<Rightarrow> (string \<times> json) list" where
  "successes_from env k [] = []"
| "successes_from env k ((toolName, args) # rest) =
     (case executeTool env k toolName args of
        ToolThrows e \<Rightarrow> successes_from env (Suc k) rest
      | ToolReturns success output \<Rightarrow>
          (if success then [(toolName, output)] else []) @ successes_from env (Suc k) rest)"

text \<open>What the envelope tells of its tool calls: name and result of each record.\<close>

definition recorded :: "tool_call_record list option \<Rightarrow> (string \<times> json) list" where
  "recorded toolCalls =
     (case toolCalls of None \<Rightarrow> [] | Some records \<Rightarrow> map (\<lambda>r. (tc_name r, tc_result r)) records)"

lemma successes_from_append:
  "successes_from env k (entries @ [(toolName, args)]) =
     successes_from env k entries
     @ (case executeTool env (k + length entries) toolName args of
          ToolReturns success output \<Rightarrow> if success then [(toolName, output)] else []
        | ToolThrows e \<Rightarrow> [])"
  by (induction env k entries rule: successes_from.induct)
     (auto split: tool_outcome.splits)

text \<open>The records and results kept so far are those of the successful executions so far.\<close>

definition records_match ::
  "('p, 'r) env \<Rightarrow> tool_call_record list \<Rightarrow> json list \<Rightarrow> 'p world \<Rightarrow> bool" where
  "records_match env toolCalls toolResults w \<longleftrightarrow>
     map (\<lambda>r. (tc_name r, tc_result r)) toolCalls = successes_from env 0 (tool_log w)
     \<and> toolResults = map snd (successes_from env 0 (tool_log w))"

lemma anthropic_process_tool_use_records:
  assumes "records_match env (ast_toolCalls st) (ast_toolResults st) w"
    and "anthropic_process_tool_use env req t st w = (st', w')"
  shows "records_match env (ast_toolCalls st') (ast_toolResults st') w'"
  using assms
  by (auto simp add: anthropic_process_tool_use_def records_match_def read_clock_def run_tool_def
        read_random_def Let_def successes_from_append
      split: a_resp_block.splits option.splits tool_outcome.splits if_splits)

lemma anthropic_process_tool_uses_records:
  "records_match env (ast_toolCalls st) (ast_toolResults st) w \<Longrightarrow>
   anthropic_process_tool_uses env req ts st w = (st', w') \<Longrightarrow>
   records_match env (ast_toolCalls st') (ast_toolResults st') w'"
proof (induction ts arbitrary: st w)
  case Nil
  then show ?case by simp
next
  case (Cons t ts)
  obtain st1 w1 where step: "anthropic_process_tool_use env req t st w = (st1, w1)"
    by (cases "anthropic_process_tool_use env req t st w")
  from anthropic_process_tool_use_records [OF Cons.prems(1) step]
  have "records_match env (ast_toolCalls st1) (ast_toolResults st1) w1" .
  moreover from Cons.prems(2) step have "anthropic_process_tool_uses env req ts st1 w1 = (st', w')"
    by simp
  ultimately show ?case by (rule Cons.IH)
qed

lemma anthropic_tools_phase_records:
  assumes "records_match env (ast_toolCalls st) (ast_toolResults st) w"
    and "anthropic_tools_phase env req toolUses st w = (st', w')"
  shows "records_match env (ast_toolCalls st') (ast_toolResults st') w'"
proof -
  obtain t0 w1 where c1: "read_clock env w = (t0, w1)" by (cases "read_clock env w")
  obtain st1 w2 where p: "anthropic_process_tool_uses env req toolUses st w1 = (st1, w2)"
    by (cases "anthropic_process_tool_uses env req toolUses st w1")
  from assms(1) c1 have "records_match env (ast_toolCalls st) (ast_toolResults st) w1"
    by (auto simp add: records_match_def read_clock_def)
  from anthropic_process_tool_uses_records [OF this p]
  have "records_match env (ast_toolCalls st1) (ast_toolResults st1) w2" .
  with assms(2) c1 p show ?thesis
    by (auto simp add: anthropic_tools_phase_def records_match_def read_clock_def)
qed

lemma anthropic_iteration_records:
  assumes "records_match env (ast_toolCalls st) (ast_toolResults st) w"
    and "anthropic_iteration env req payload forcedTools i toolUses st w = (Inr st', w')"
  shows "records_match env (ast_toolCalls st') (ast_toolResults st') w'"
proof -
  obtain st2 w3 where ph: "anthropic_tools_phase env req toolUses st w = (st2, w3)"
    by (cases "anthropic_tools_phase env req toolUses st w")
  from anthropic_tools_phase_records [OF assms(1) ph]
  have "records_match env (ast_toolCalls st2) (ast_toolResults st2) w3" .
  with assms(2) ph show ?thesis
    by (auto simp add: anthropic_iteration_def Let_def read_clock_def call_vendor_def
          anthropic_absorb_def records_match_def split: sum.splits)
qed

lemma tool_log_read_clock: "read_clock env w = (t, w') \<Longrightarrow> tool_log w' = tool_log w"
  by (auto simp add: read_clock_def)

lemma anthropic_normalize_message_tool_log:
  "tool_log (snd (anthropic_normalize_message env msg w)) = tool_log w"
  by (simp add: anthropic_normalize_message_def read_clock_def split: option.splits)

lemma anthropic_push_messages_tool_log:
  "tool_log (snd (anthropic_push_messages env ms acc w)) = tool_log w"
proof (induction ms arbitrary: acc w)
  case Nil
  show ?case by simp
next
  case (Cons msg ms)
  obtain r w1 where m: "anthropic_normalize_message env msg w = (r, w1)"
    by (cases "anthropic_normalize_message env msg w")
  have "tool_log w1 = tool_log w"
    using anthropic_normalize_message_tool_log [of env msg w] m by simp
  with Cons.IH m show ?case by (cases r) simp_all
qed

lemma anthropic_normalize_tool_log:
  "tool_log (snd (anthropic_normalize env req w)) = tool_log w"
proof (cases "req_messages req")
  case None
  then show ?thesis by (simp add: anthropic_normalize_def Let_def)
next
  case (Some ms)
  define acc where "acc = (case req_context req of None \<Rightarrow> []
        | Some c \<Rightarrow> if c = [] then [] else [\<lparr>am_role = ''user'', am_content = ContentString c\<rparr>])"
  obtain r w1 where p: "anthropic_push_messages env ms acc w = (r, w1)"
    by (cases "anthropic_push_messages env ms acc w")
  have "tool_log w1 = tool_log w"
    using anthropic_push_messages_tool_log [of env ms acc w] p by simp
  with Some p show ?thesis
    by (cases r) (simp_all add: anthropic_normalize_def Let_def acc_def [symmetric])
qed

lemma anthropic_run_records:
  assumes run: "anthropic_executeRequest env req w = (Inr response, w')"
    and fresh: "tool_log w = []"
  shows "recorded (pr_toolCalls response) = successes_from env 0 (tool_log w')
       \<and> (case pr_toolResults response of None \<Rightarrow> [] | Some results \<Rightarrow> results)
           = map snd (successes_from env 0 (tool_log w'))"
proof -
  from run obtain messages systemPrompt0 w1 anthropicTools toolChoice providerStartTime w2 where
    n: "anthropic_normalize env req w = (Inr (messages, systemPrompt0), w1)"
    and c2: "read_clock env w1 = (providerStartTime, w2)"
    and t: "anthropic_try env req
       (anthropic_payload req messages (anthropic_system_prompt systemPrompt0 (req_responseFormat req))
          anthropicTools toolChoice)
       anthropicTools messages providerStartTime w2 = (Inr response, w')"
    by (rule anthropic_executeRequest_Inr)
  define payload where "payload = anthropic_payload req messages
      (anthropic_system_prompt systemPrompt0 (req_responseFormat req)) anthropicTools toolChoice"
  define forcedTools where "forcedTools = anthropic_forcedTools env req anthropicTools"
  have l1: "tool_log w1 = []"
    using anthropic_normalize_tool_log [of env req w] n fresh by simp
  from c2 l1 have l2: "tool_log w2 = []" by (auto simp add: read_clock_def)
  from t [folded payload_def] obtain initialCallTime w3 currentResponse w4 firstResponseEnd w5 k st w6 providerEndTime where
    c3: "read_clock env w2 = (initialCallTime, w3)"
    and cv: "call_vendor env payload w3 = (Inr currentResponse, w4)"
    and c5: "read_clock env w4 = (firstResponseEnd, w5)"
    and loop: "anthropic_loop env req payload forcedTools 0
       (anthropic_initial_state messages forcedTools
          (ap_tool_choice payload) initialCallTime (firstResponseEnd - initialCallTime) currentResponse) w5
       = (Inr (k, st), w6)"
    and c7: "read_clock env w6 = (providerEndTime, w')"
    and resp: "response = anthropic_response req providerStartTime providerEndTime
                  (firstResponseEnd - initialCallTime) k st"
    unfolding forcedTools_def by (rule anthropic_try_Inr)
  from c3 l2 cv c5 have l5: "tool_log w5 = []"
    by (auto simp add: read_clock_def call_vendor_def)
  let ?I = "\<lambda>(st :: a_state) (w :: a_payload world). records_match env (ast_toolCalls st) (ast_toolResults st) w"
  have init: "?I (anthropic_initial_state messages forcedTools
          (ap_tool_choice payload) initialCallTime (firstResponseEnd - initialCallTime) currentResponse) w5"
    by (simp add: records_match_def anthropic_initial_state_def Let_def l5)
  have "?I st w6"
    by (rule anthropic_loop_invariant [where I = ?I, OF _ init loop])
       (rule anthropic_iteration_records)
  with c7 have "records_match env (ast_toolCalls st) (ast_toolResults st) w'"
    by (auto simp add: records_match_def read_clock_def)
  then show ?thesis
    by (auto simp add: resp anthropic_response_def recorded_def nonempty_or_undefined_def
          records_match_def)
qed

lemma deepseek_process_tool_call_records:
  assumes "records_match env (dst_toolCalls st) (dst_toolResults st) w"
    and "deepseek_process_tool_call env req t st w = (st', w')"
  shows "records_match env (dst_toolCalls st') (dst_toolResults st') w'"
  using assms
  by (auto simp add: deepseek_process_tool_call_def records_match_def read_clock_def run_tool_def
        Let_def successes_from_append
      split: option.splits tool_outcome.splits if_splits)

lemma deepseek_process_tool_calls_records:
  "records_match env (dst_toolCalls st) (dst_toolResults st) w \<Longrightarrow>
   deepseek_process_tool_calls env req ts st w = (st', w') \<Longrightarrow>
   records_match env (dst_toolCalls st') (dst_toolResults st') w'"
proof (induction ts arbitrary: st w)
  case Nil
  then show ?case by simp
next
  case (Cons t ts)
  obtain st1 w1 where step: "deepseek_process_tool_call env req t st w = (st1, w1)"
    by (cases "deepseek_process_tool_call env req t st w")
  from deepseek_process_tool_call_records [OF Cons.prems(1) step]
  have "records_match env (dst_toolCalls st1) (dst_toolResults st1) w1" .
  moreover from Cons.prems(2) step have "deepseek_process_tool_calls env req ts st1 w1 = (st', w')"
    by simp
  ultimately show ?case by (rule Cons.IH)
qed

lemma deepseek_tools_phase_records:
  assumes "records_match env (dst_toolCalls st) (dst_toolResults st) w"
    and "deepseek_tools_phase env req toolCalls st w = (st', w')"
  shows "records_match env (dst_toolCalls st') (dst_toolResults st') w'"
proof -
  obtain t0 w1 where c1: "read_clock env w = (t0, w1)" by (cases "read_clock env w")
  obtain st1 w2 where p: "deepseek_process_tool_calls env req toolCalls st w1 = (st1, w2)"
    by (cases "deepseek_process_tool_calls env req toolCalls st w1")
  from assms(1) c1 have "records_match env (dst_toolCalls st) (dst_toolResults st) w1"
    by (auto simp add: records_match_def read_clock_def)
  from deepseek_process_tool_calls_records [OF this p]
  have "records_match env (dst_toolCalls st1) (dst_toolResults st1) w2" .
  with assms(2) c1 p show ?thesis
    by (auto simp add: deepseek_tools_phase_def records_match_def read_clock_def)
qed

lemma deepseek_iteration_records:
  assumes "records_match env (dst_toolCalls st) (dst_toolResults st) w"
  shows "(deepseek_iteration env req payload i toolCalls st w = (Inr st', w')
            \<longrightarrow> records_match env (dst_toolCalls st') (dst_toolResults st') w')
       \<and> (deepseek_iteration env req payload i toolCalls st w = (Inl (e, st'), w')
            \<longrightarrow> records_match env (dst_toolCalls st') (dst_toolResults st') w')"
proof -
  obtain st2 w3 where ph: "deepseek_tools_phase env req toolCalls st w = (st2, w3)"
    by (cases "deepseek_tools_phase env req toolCalls st w")
  from deepseek_tools_phase_records [OF assms(1) ph]
  have "records_match env (dst_toolCalls st2) (dst_toolResults st2) w3" .
  with ph show ?thesis
    by (auto simp add: deepseek_iteration_def Let_def read_clock_def call_vendor_def
          deepseek_absorb_def records_match_def split: sum.splits)
qed

lemma deepseek_run_records:
  assumes run: "deepseek_executeRequest env req w = (Inr response, w')"
    and fresh: "tool_log w = []"
  shows "recorded (pr_toolCalls response) = successes_from env 0 (tool_log w')
       \<and> (case pr_toolResults response of None \<Rightarrow> [] | Some results \<Rightarrow> results)
           = map snd (successes_from env 0 (tool_log w'))"
proof -
  from run obtain providerStartTime w1 where
    c1: "read_clock env w = (providerStartTime, w1)"
    and t: "deepseek_try env req providerStartTime w1 = (Inr response, w')"
    by (rule deepseek_executeRequest_Inr)
  define payload where "payload = deepseek_payload env req"
  from c1 fresh have l1: "tool_log w1 = []" by (auto simp add: read_clock_def)
  from t obtain initialCallTime w3 currentResponse w4 firstResponseEnd w5 k st w6 providerEndTime where
    c3: "read_clock env w1 = (initialCallTime, w3)"
    and cv: "call_vendor env payload w3 = (Inr currentResponse, w4)"
    and c5: "read_clock env w4 = (firstResponseEnd, w5)"
    and loop: "deepseek_loop env req payload 0
       (deepseek_initial_state payload initialCallTime (firstResponseEnd - initialCallTime) currentResponse) w5
       = ((k, st), w6)"
    and c7: "read_clock env w6 = (providerEndTime, w')"
    and resp: "response = deepseek_response req providerStartTime providerEndTime
                  (firstResponseEnd - initialCallTime) k st"
    unfolding payload_def by (rule deepseek_try_Inr)
  from c3 l1 cv c5 have l5: "tool_log w5 = []"
    by (auto simp add: read_clock_def call_vendor_def)
  let ?I = "\<lambda>(st :: d_state) (w :: d_payload world). records_match env (dst_toolCalls st) (dst_toolResults st) w"
  have init: "?I (deepseek_initial_state payload initialCallTime
                    (firstResponseEnd - initialCallTime) currentResponse) w5"
    by (simp add: records_match_def deepseek_initial_state_def l5)
  have "?I st w6"
    by (rule deepseek_loop_invariant [where I = ?I, OF _ _ init loop])
       (use deepseek_iteration_records in blast)+
  with c7 have "records_match env (dst_toolCalls st) (dst_toolResults st) w'"
    by (auto simp add: records_match_def read_clock_def)
  then show ?thesis
    by (auto simp add: resp deepseek_response_def recorded_def nonempty_or_undefined_def
          records_match_def)
qed

text \<open>Surroundings in which the first response asks for the weather of two cities, the
  first tool execution reports \<^verbatim>\<open>success\<close> false, every later one succeeds, and the
  second response is the final text.\<close>

definition paris :: json where
  "paris = JObj [(''city'', JStr ''Paris'')]"

definition rome :: json where
  "rome = JObj [(''city'', JStr ''Rome'')]"

definition flaky_envA :: "(a_payload, a_response) env" where
  "flaky_envA =
     \<lparr>now = (\<lambda>n. 1000 + 5 * int n),
      random_suffix = (\<lambda>n. ''k3x9q''),
      vendor = (\<lambda>n p. if n = 0
                  then Inr \<lparr>ar_content = [RespToolUse ''toolu_1'' ''get_weather'' paris,
                                            RespToolUse ''toolu_2'' ''get_weather'' rome],
                            ar_usage = None\<rparr>
                  else Inr \<lparr>ar_content = [RespText ''Rome is sunny.''], ar_usage = None\<rparr>),
      executeTool = (\<lambda>n toolName args.
                       if n = 0 then ToolReturns False JNull
                       else ToolReturns True (JObj [(''temp'', JNum 20)])),
      json_parse = parse_example,
      syntax_error = syntax_error_example,
      json_stringify = stringify_example,
      prepareToolsWithUsageControl = prepare_auto\<rparr>"

definition paris_call :: d_tool_call where
  \<open>paris_call = \<lparr>dtc_id = ''call_1'', dtc_name = ''get_weather'', dtc_arguments = ''{"city":"Paris"}''\<rparr>\<close>

definition flaky_envD :: "(d_payload, d_response) env" where
  \<open>flaky_envD =
     \<lparr>now = (\<lambda>n. 1000 + 5 * int n),
      random_suffix = (\<lambda>n. ''k3x9q''),
      vendor = (\<lambda>n p. if n = 0
                  then Inr \<lparr>dr_message = Some \<lparr>dm_content = None,
                                dm_tool_calls = Some [paris_call, paris_call\<lparr>dtc_id := ''call_2''\<rparr>]\<rparr>,
                            dr_usage = None\<rparr>
                  else Inr \<lparr>dr_message = Some \<lparr>dm_content = Some ''Paris is sunny.'',
                                                 dm_tool_calls = None\<rparr>,
                            dr_usage = None\<rparr>),
      executeTool = (\<lambda>n toolName args.
                       if n = 0 then ToolThrows ''timeout''
                       else ToolReturns True (JObj [(''temp'', JNum 20)])),
      json_parse = parse_example,
      syntax_error = syntax_error_example,
      json_stringify = stringify_example,
      prepareToolsWithUsageControl = prepare_auto\<rparr>\<close>

definition flaky_runA :: "(error + provider_response) \<times> a_payload world" where
  "flaky_runA = anthropic_executeRequest flaky_envA weather_request world0"

definition flaky_runD :: "(error + provider_response) \<times> d_payload world" where
  "flaky_runD = deepseek_executeRequest flaky_envD weather_request world0"

text \<open>
  C5. A tool invocation of a response whose tool is declared and whose execution throws or
  reports \<^verbatim>\<open>success\<close> false leaves every variable of the loop as it was: no tool call
  record, no tool result, no time segment and no message is added, and the batch goes on
  with the next invocation from the same variables; this holds for both providers (for
  Deepseek, on arguments that are JSON text). Accordingly, in every envelope returned by a
  run that starts with an empty tool log, the tool calls and the tool results are exactly
  those of the executions that returned \<^verbatim>\<open>success\<close> true, in order.
\<close>

theorem failed_tool_execution_is_skipped:
  "(find_tool req toolName = Some tool \<longrightarrow>
    tool_failed (executeTool envA (length (tool_log wA)) toolName
                   (mergedArgs_of (tool_params tool) toolArgs)) \<longrightarrow>
      fst (anthropic_process_tool_use envA req (RespToolUse uid toolName toolArgs) stA wA) = stA
      \<and> anthropic_process_tool_uses envA req (RespToolUse uid toolName toolArgs # restA) stA wA
          = anthropic_process_tool_uses envA req restA stA
              (snd (anthropic_process_tool_use envA req (RespToolUse uid toolName toolArgs) stA wA)))
   \<and> (json_parse envD (dtc_arguments toolCall) = Some toolArgs \<longrightarrow>
      find_tool req (dtc_name toolCall) = Some tool \<longrightarrow>
      tool_failed (executeTool envD (length (tool_log wD)) (dtc_name toolCall)
                     (mergedArgs_of (tool_params tool) toolArgs)) \<longrightarrow>
        fst (deepseek_process_tool_call envD req toolCall stD wD) = stD
        \<and> deepseek_process_tool_calls envD req (toolCall # restD) stD wD
            = deepseek_process_tool_calls envD req restD stD
                (snd (deepseek_process_tool_call envD req toolCall stD wD)))
   \<and> (anthropic_executeRequest envA req wA0 = (Inr ra, wA') \<longrightarrow> tool_log wA0 = [] \<longrightarrow>
        recorded (pr_toolCalls ra) = successes_from envA 0 (tool_log wA')
        \<and> (case pr_toolResults ra of None \<Rightarrow> [] | Some results \<Rightarrow> results)
            = map snd (successes_from envA 0 (tool_log wA')))
   \<and> (deepseek_executeRequest envD req wD0 = (Inr rd, wD') \<longrightarrow> tool_log wD0 = [] \<longrightarrow>
        recorded (pr_toolCalls rd) = successes_from envD 0 (tool_log wD')
        \<and> (case pr_toolResults rd of None \<Rightarrow> [] | Some results \<Rightarrow> results)
            = map snd (successes_from envD 0 (tool_log wD')))"
proof (intro conjI impI)
  assume "find_tool req toolName = Some tool"
    and "tool_failed (executeTool envA (length (tool_log wA)) toolName
                   (mergedArgs_of (tool_params tool) toolArgs))"
  then show a: "fst (anthropic_process_tool_use envA req (RespToolUse uid toolName toolArgs) stA wA) = stA"
    by (rule anthropic_failed_tool_use)
  then show "anthropic_process_tool_uses envA req (RespToolUse uid toolName toolArgs # restA) stA wA
          = anthropic_process_tool_uses envA req restA stA
              (snd (anthropic_process_tool_use envA req (RespToolUse uid toolName toolArgs) stA wA))"
    by (simp add: case_prod_beta)
next
  assume "json_parse envD (dtc_arguments toolCall) = Some toolArgs"
    and "find_tool req (dtc_name toolCall) = Some tool"
    and "tool_failed (executeTool envD (length (tool_log wD)) (dtc_name toolCall)
                     (mergedArgs_of (tool_params tool) toolArgs))"
  then show d: "fst (deepseek_process_tool_call envD req toolCall stD wD) = stD"
    by (rule deepseek_failed_tool_call)
  then show "deepseek_process_tool_calls envD req (toolCall # restD) stD wD
            = deepseek_process_tool_calls envD req restD stD
                (snd (deepseek_process_tool_call envD req toolCall stD wD))"
    by (simp add: case_prod_beta)
next
  assume run: "anthropic_executeRequest envA req wA0 = (Inr ra, wA')" and fresh: "tool_log wA0 = []"
  from anthropic_run_records [OF run fresh]
  show "recorded (pr_toolCalls ra) = successes_from envA 0 (tool_log wA')"
    and "(case pr_toolResults ra of None \<Rightarrow> [] | Some results \<Rightarrow> results)
            = map snd (successes_from envA 0 (tool_log wA'))"
    by simp_all
next
  assume run: "deepseek_executeRequest envD req wD0 = (Inr rd, wD')" and fresh: "tool_log wD0 = []"
  from deepseek_run_records [OF run fresh]
  show "recorded (pr_toolCalls rd) = successes_from envD 0 (tool_log wD')"
    and "(case pr_toolResults rd of None \<Rightarrow> [] | Some results \<Rightarrow> results)
            = map snd (successes_from envD 0 (tool_log wD'))"
    by simp_all
qed

definition idle_stateA :: a_state where
  "idle_stateA = anthropic_initial_state [] [] None 0 0 \<lparr>ar_content = [], ar_usage = None\<rparr>"

theorem failed_tool_execution_is_skipped_witness:
  "find_tool weather_request ''get_weather'' = Some get_weather
   \<and> tool_failed (executeTool flaky_envA 0 ''get_weather'' (mergedArgs_of (tool_params get_weather) paris))
   \<and> fst (anthropic_process_tool_use flaky_envA weather_request
             (RespToolUse ''toolu_1'' ''get_weather'' paris) idle_stateA world0) = idle_stateA
   \<and> map fst (tool_log (snd flaky_runA)) = [''get_weather'', ''get_weather'']
   \<and> map_option (\<lambda>r. recorded (pr_toolCalls r)) (envelope_of (fst flaky_runA))
       = Some [(''get_weather'', JObj [(''temp'', JNum 20)])]
   \<and> map fst (tool_log (snd flaky_runD)) = [''get_weather'', ''get_weather'']
   \<and> map_option (\<lambda>r. recorded (pr_toolCalls r)) (envelope_of (fst flaky_runD))
       = Some [(''get_weather'', JObj [(''temp'', JNum 20)])]"
proof -
  have ft: "find_tool weather_request ''get_weather'' = Some get_weather"
    by (simp add: find_tool_def weather_request_def get_weather_def)
  have tf: "tool_failed (executeTool flaky_envA (length (tool_log (world0 :: a_payload world)))
                           ''get_weather'' (mergedArgs_of (tool_params get_weather) paris))"
    by (simp add: flaky_envA_def world0_def tool_failed_def)
  have la: "map fst (tool_log (snd flaky_runA)) = [''get_weather'', ''get_weather'']"
    by code_simp
  have ld: "map fst (tool_log (snd flaky_runD)) = [''get_weather'', ''get_weather'']"
    by code_simp
  have sa: "successes_from flaky_envA 0 (tool_log (snd flaky_runA)) = [(''get_weather'', JObj [(''temp'', JNum 20)])]"
    by code_simp
  have sd: "successes_from flaky_envD 0 (tool_log (snd flaky_runD)) = [(''get_weather'', JObj [(''temp'', JNum 20)])]"
    by code_simp
  have "envelope_of (fst flaky_runA) \<noteq> None" by code_simp
  then obtain ra where ra: "fst flaky_runA = Inr ra"
    by (cases "fst flaky_runA") (auto simp add: envelope_of_def)
  have "envelope_of (fst flaky_runD) \<noteq> None" by code_simp
  then obtain rd where rd: "fst flaky_runD = Inr rd"
    by (cases "fst flaky_runD") (auto simp add: envelope_of_def)
  from ra have runA: "anthropic_executeRequest flaky_envA weather_request world0 = (Inr ra, snd flaky_runA)"
    by (simp add: flaky_runA_def prod_eq_iff)
  from rd have runD: "deepseek_executeRequest flaky_envD weather_request world0 = (Inr rd, snd flaky_runD)"
    by (simp add: flaky_runD_def prod_eq_iff)
  have fresh: "tool_log (world0 :: 'p world) = []" by (simp add: world0_def)
  note inst = failed_tool_execution_is_skipped
    [where req = weather_request and toolName = "''get_weather''" and tool = get_weather
       and envA = flaky_envA and wA = world0 and toolArgs = paris and uid = "''toolu_1''"
       and stA = idle_stateA and envD = flaky_envD
       and wA0 = world0 and ra = ra and wA' = "snd flaky_runA"
       and wD0 = world0 and rd = rd and wD' = "snd flaky_runD"]
  from inst ft tf have step:
    "fst (anthropic_process_tool_use flaky_envA weather_request
             (RespToolUse ''toolu_1'' ''get_weather'' paris) idle_stateA world0) = idle_stateA"
    by blast
  from inst runA fresh have "recorded (pr_toolCalls ra) = successes_from flaky_envA 0 (tool_log (snd flaky_runA))"
    by blast
  with sa ra have ea: "map_option (\<lambda>r. recorded (pr_toolCalls r)) (envelope_of (fst flaky_runA))
       = Some [(''get_weather'', JObj [(''temp'', JNum 20)])]"
    by (simp add: envelope_of_def)
  from inst runD fresh have "recorded (pr_toolCalls rd) = successes_from flaky_envD 0 (tool_log (snd flaky_runD))"
    by blast
  with sd rd have ed: "map_option (\<lambda>r. recorded (pr_toolCalls r)) (envelope_of (fst flaky_runD))
       = Some [(''get_weather'', JObj [(''temp'', JNum 20)])]"
    by (simp add: envelope_of_def)
  from tf have tf0: "tool_failed (executeTool flaky_envA 0 ''get_weather'' (mergedArgs_of (tool_params get_weather) paris))"
    by (simp add: world0_def)
  from ft tf0 step la ea ld ed show ?thesis by simp
qed

section \<open>The tool-choice directive after a forced tool has fired\<close>

text \<open>In the words of the spec: the directive that forces the first forced tool, in the
  declared order, that is not yet used; no directive (the model chooses) when all are used.\<close>

definition next_forced :: "string list \<Rightarrow> string list \<Rightarrow> tool_choice option" where
  "next_forced forcedTools used =
     (case filter (\<lambda>t. t \<notin> set used) forcedTools of
        [] \<Rightarrow> None
      | t # rest \<Rightarrow> Some (ChoiceTool t))"

text \<open>The tool invocations of a response, by name.\<close>

definition a_invoked :: "a_response \<Rightarrow> string set" where
  "a_invoked resp = tool_use_name ` set (filter is_tool_use (ar_content resp))"

definition d_invoked :: "d_response \<Rightarrow> string set" where
  "d_invoked resp =
     (case d_message_tool_calls resp of None \<Rightarrow> {} | Some toolCalls \<Rightarrow> dtc_name ` set toolCalls)"

lemma anthropic_process_tool_use_forced:
  "ast_hasUsedForcedTool (fst (anthropic_process_tool_use env req t st w)) = ast_hasUsedForcedTool st
   \<and> ast_usedForcedTools (fst (anthropic_process_tool_use env req t st w)) = ast_usedForcedTools st"
  by (simp add: anthropic_process_tool_use_def read_clock_def run_tool_def read_random_def Let_def
           split: a_resp_block.splits option.splits tool_outcome.splits)

lemma anthropic_process_tool_uses_forced:
  "ast_hasUsedForcedTool (fst (anthropic_process_tool_uses env req ts st w)) = ast_hasUsedForcedTool st
   \<and> ast_usedForcedTools (fst (anthropic_process_tool_uses env req ts st w)) = ast_usedForcedTools st"
proof (induction ts arbitrary: st w)
  case Nil
  show ?case by simp
next
  case (Cons t ts)
  obtain st' w' where step: "anthropic_process_tool_use env req t st w = (st', w')"
    by (cases "anthropic_process_tool_use env req t st w")
  with anthropic_process_tool_use_forced [of env req t st w] Cons.IH [of st' w']
  show ?case by simp
qed

lemma anthropic_tools_phase_forced:
  "ast_hasUsedForcedTool (fst (anthropic_tools_phase env req toolUses st w)) = ast_hasUsedForcedTool st
   \<and> ast_usedForcedTools (fst (anthropic_tools_phase env req toolUses st w)) = ast_usedForcedTools st"
  using anthropic_process_tool_uses_forced [of env req toolUses st "snd (read_clock env w)"]
  by (auto simp add: anthropic_tools_phase_def read_clock_def split: prod.splits)

lemma anthropic_nextPayload_after_use:
  assumes "ast_hasUsedForcedTool st" and "is_object_choice (ap_tool_choice payload)"
  shows "ap_tool_choice (anthropic_nextPayload payload forcedTools st)
           = next_forced forcedTools (ast_usedForcedTools st)"
  using assms
  by (cases forcedTools) (simp_all add: anthropic_nextPayload_def next_forced_def Let_def split: list.splits)

lemma anthropic_nextPayload_object:
  assumes "ap_tool_choice (anthropic_nextPayload payload forcedTools st) = Some (ChoiceTool x)"
  shows "is_object_choice (ap_tool_choice payload)"
  using assms
  by (auto simp add: anthropic_nextPayload_def Let_def split: if_splits list.splits)

lemma anthropic_track_fired:
  assumes "x \<in> a_invoked resp"
  shows "anthropic_track (Some (ChoiceTool x)) forcedTools used resp
           = Some (True, if x \<in> set used then used else used @ [x])"
proof -
  from assms have ne: "filter is_tool_use (ar_content resp) \<noteq> []"
    by (auto simp add: a_invoked_def filter_empty_conv)
  from assms have "x \<in> set (map tool_use_name (filter is_tool_use (ar_content resp)))"
    by (simp add: a_invoked_def)
  with ne show ?thesis
    by (simp add: anthropic_track_def trackForcedToolUsage_def Let_def)
qed

lemma anthropic_next_directive:
  assumes obj: "is_object_choice (ap_tool_choice payload)"
    and used: "ast_hasUsedForcedTool st1"
  shows "ap_tool_choice (last (vendor_log (snd (anthropic_iteration env req payload forcedTools i toolUses st1 w))))
           = next_forced forcedTools (ast_usedForcedTools st1)"
proof -
  let ?st2 = "fst (anthropic_tools_phase env req toolUses st1 w)"
  from anthropic_tools_phase_forced [of env req toolUses st1 w] used
  have "ast_hasUsedForcedTool ?st2" and u: "ast_usedForcedTools ?st2 = ast_usedForcedTools st1"
    by simp_all
  from anthropic_nextPayload_after_use [OF this(1) obj, of forcedTools] u
  show ?thesis by (simp add: anthropic_iteration_vendor_log)
qed

lemma anthropic_forced_initial:
  assumes dir: "ap_tool_choice payload = Some (ChoiceTool x)"
    and fired: "x \<in> a_invoked resp"
    and st1: "st1 = anthropic_initial_state messages forcedTools (ap_tool_choice payload) t0 f resp"
  shows "x \<in> set (ast_usedForcedTools st1)
       \<and> ap_tool_choice (last (vendor_log (snd (anthropic_iteration env req payload forcedTools 0 toolUses st1 w))))
           = next_forced forcedTools (ast_usedForcedTools st1)"
proof -
  from anthropic_track_fired [OF fired, of forcedTools "[]"] dir st1
  have h: "ast_hasUsedForcedTool st1" and u: "ast_usedForcedTools st1 = [x]"
    by (simp_all add: anthropic_initial_state_def Let_def)
  from dir have obj: "is_object_choice (ap_tool_choice payload)" by simp
  from anthropic_next_directive [OF obj h] u show ?thesis by simp
qed

lemma anthropic_forced_in_loop:
  assumes it: "anthropic_iteration env req payload forcedTools i toolUses st w = (Inr st1, w1)"
    and dir: "ap_tool_choice (last (vendor_log w1)) = Some (ChoiceTool x)"
    and fired: "x \<in> a_invoked (ast_currentResponse st1)"
  shows "x \<in> set (ast_usedForcedTools st1)
       \<and> ap_tool_choice (last (vendor_log (snd (anthropic_iteration env req payload forcedTools (i + 1) toolUses' st1 w1))))
           = next_forced forcedTools (ast_usedForcedTools st1)"
proof -
  obtain st2 w3 where ph: "anthropic_tools_phase env req toolUses st w = (st2, w3)"
    by (cases "anthropic_tools_phase env req toolUses st w")
  define p where "p = anthropic_nextPayload payload forcedTools st2"
  from anthropic_iteration_vendor_log [of env req payload forcedTools i toolUses st w] it ph
  have "last (vendor_log w1) = p" by (simp add: p_def)
  with dir have pd: "ap_tool_choice p = Some (ChoiceTool x)" by simp
  then have obj: "is_object_choice (ap_tool_choice payload)"
    unfolding p_def by (rule anthropic_nextPayload_object)
  from it ph obtain resp t1 t2 where
    st1: "st1 = anthropic_absorb forcedTools p i resp t1 t2 st2"
    by (auto simp add: anthropic_iteration_def Let_def p_def read_clock_def call_vendor_def
          split: sum.splits)
  then have cur: "ast_currentResponse st1 = resp"
    by (simp add: anthropic_absorb_def Let_def)
  with fired have "x \<in> a_invoked resp" by simp
  from anthropic_track_fired [OF this, of forcedTools "ast_usedForcedTools st2"] pd st1
  have h: "ast_hasUsedForcedTool st1" and u: "x \<in> set (ast_usedForcedTools st1)"
    by (simp_all add: anthropic_absorb_def Let_def)
  from anthropic_next_directive [OF obj h] u show ?thesis by simp
qed

lemma deepseek_process_tool_call_forced:
  "dst_hasUsedForcedTool (fst (deepseek_process_tool_call env req t st w)) = dst_hasUsedForcedTool st"
  by (simp add: deepseek_process_tool_call_def read_clock_def run_tool_def Let_def
           split: option.splits tool_outcome.splits)

lemma deepseek_process_tool_calls_forced:
  "dst_hasUsedForcedTool (fst (deepseek_process_tool_calls env req ts st w)) = dst_hasUsedForcedTool st"
proof (induction ts arbitrary: st w)
  case Nil
  show ?case by simp
next
  case (Cons t ts)
  obtain st' w' where step: "deepseek_process_tool_call env req t st w = (st', w')"
    by (cases "deepseek_process_tool_call env req t st w")
  with deepseek_process_tool_call_forced [of env req t st w] Cons.IH [of st' w']
  show ?case by simp
qed

lemma deepseek_tools_phase_forced:
  "dst_hasUsedForcedTool (fst (deepseek_tools_phase env req toolCalls st w)) = dst_hasUsedForcedTool st"
  using deepseek_process_tool_calls_forced [of env req toolCalls st "snd (read_clock env w)"]
  by (auto simp add: deepseek_tools_phase_def read_clock_def split: prod.splits)

lemma deepseek_nextPayload_object:
  assumes "is_object_choice (dp_tool_choice (deepseek_nextPayload payload st))"
  shows "dp_tool_choice (deepseek_nextPayload payload st) = dp_tool_choice payload
       \<and> \<not> dst_hasUsedForcedTool st"
  using assms
  by (auto simp add: deepseek_nextPayload_def Let_def split: if_splits)

lemma deepseek_track_fired:
  assumes "is_object_choice (Some tc)" and "forced_name tc = Some x" and "x \<in> d_invoked resp"
  shows "deepseek_track (Some tc) resp = Some True"
  using assms
  by (auto simp add: deepseek_track_def d_invoked_def trackForcedToolUsage_def split: option.splits)

lemma deepseek_next_directive:
  assumes obj: "is_object_choice (dp_tool_choice payload)"
    and used: "dst_hasUsedForcedTool st1"
  shows "dp_tool_choice (last (vendor_log (snd (deepseek_iteration env req payload i toolCalls st1 w))))
           = Some (ChoiceStr ''auto'')"
proof -
  let ?st2 = "fst (deepseek_tools_phase env req toolCalls st1 w)"
  from deepseek_tools_phase_forced [of env req toolCalls st1 w] used
  have "dst_hasUsedForcedTool ?st2" by simp
  with obj show ?thesis
    by (simp add: deepseek_iteration_vendor_log deepseek_nextPayload_def Let_def)
qed

lemma deepseek_forced_initial:
  assumes dir: "dp_tool_choice payload = Some tc" and obj: "is_object_choice (Some tc)"
    and forced: "forced_name tc = Some x"
    and fired: "x \<in> d_invoked resp"
  shows "dp_tool_choice (last (vendor_log (snd (deepseek_iteration env req payload 0 toolCalls
            (deepseek_initial_state payload t0 f resp) w))))
           = Some (ChoiceStr ''auto'')"
proof -
  from deepseek_track_fired [OF obj forced fired] dir
  have "dst_hasUsedForcedTool (deepseek_initial_state payload t0 f resp)"
    by (simp add: deepseek_initial_state_def)
  moreover from dir obj have "is_object_choice (dp_tool_choice payload)" by simp
  ultimately show ?thesis by (rule deepseek_next_directive [rotated])
qed

lemma deepseek_forced_in_loop:
  assumes it: "deepseek_iteration env req payload i toolCalls st w = (Inr st1, w1)"
    and dir: "dp_tool_choice (last (vendor_log w1)) = Some tc" and obj: "is_object_choice (Some tc)"
    and forced: "forced_name tc = Some x"
    and fired: "x \<in> d_invoked (dst_currentResponse st1)"
  shows "dp_tool_choice (last (vendor_log (snd (deepseek_iteration env req payload (i + 1) toolCalls' st1 w1))))
           = Some (ChoiceStr ''auto'')"
proof -
  obtain st2 w3 where ph: "deepseek_tools_phase env req toolCalls st w = (st2, w3)"
    by (cases "deepseek_tools_phase env req toolCalls st w")
  from deepseek_iteration_vendor_log [of env req payload i toolCalls st w] it ph
  have "last (vendor_log w1) = deepseek_nextPayload payload st2" by simp
  with dir obj have "is_object_choice (dp_tool_choice (deepseek_nextPayload payload st2))" by simp
  from deepseek_nextPayload_object [OF this] dir \<open>last (vendor_log w1) = deepseek_nextPayload payload st2\<close>
  have orig: "dp_tool_choice payload = Some tc" and fresh: "\<not> dst_hasUsedForcedTool st2"
    by simp_all
  from it ph obtain resp t1 t2 where
    st1: "st1 = deepseek_absorb payload i resp t1 t2 st2"
    by (auto simp add: deepseek_iteration_def Let_def read_clock_def call_vendor_def
          split: sum.splits)
  then have cur: "dst_currentResponse st1 = resp"
    by (simp add: deepseek_absorb_def Let_def)
  with fired have "x \<in> d_invoked resp" by simp
  from deepseek_track_fired [OF obj forced this] orig fresh st1
  have "dst_hasUsedForcedTool st1"
    by (simp add: deepseek_absorb_def Let_def)
  moreover from orig obj have "is_object_choice (dp_tool_choice payload)" by simp
  ultimately show ?thesis by (rule deepseek_next_directive [rotated])
qed

text \<open>
  C3, as the code has it. A vendor call is made under a directive that forces the tool
  \<open>x\<close>, and the response invokes \<open>x\<close>; this is the initial call or the call of a pass
  through the loop. With Anthropic, \<open>x\<close> is then among the used forced tools, and the
  directive of the next vendor call forces the first forced tool, in the declared order,
  that is not used, and is absent (the model chooses) when every forced tool is used. With
  Deepseek, the directive of the next vendor call is \<^verbatim>\<open>'auto'\<close>, whether or not other
  forced tools remain.
\<close>

theorem forced_tool_directive_after_firing:
  "(ap_tool_choice payloadA = Some (ChoiceTool x) \<longrightarrow> x \<in> a_invoked respA \<longrightarrow>
      x \<in> set (ast_usedForcedTools
                 (anthropic_initial_state messages forcedTools (ap_tool_choice payloadA) t0 f respA))
      \<and> ap_tool_choice (last (vendor_log (snd (anthropic_iteration envA req payloadA forcedTools 0 toolUses
            (anthropic_initial_state messages forcedTools (ap_tool_choice payloadA) t0 f respA) wA))))
          = next_forced forcedTools (ast_usedForcedTools
              (anthropic_initial_state messages forcedTools (ap_tool_choice payloadA) t0 f respA)))
   \<and> (anthropic_iteration envA req payloadA forcedTools i toolUses stA wA = (Inr stA1, wA1) \<longrightarrow>
      ap_tool_choice (last (vendor_log wA1)) = Some (ChoiceTool x) \<longrightarrow>
      x \<in> a_invoked (ast_currentResponse stA1) \<longrightarrow>
        x \<in> set (ast_usedForcedTools stA1)
        \<and> ap_tool_choice (last (vendor_log (snd (anthropic_iteration envA req payloadA forcedTools (i + 1)
              toolUses' stA1 wA1))))
            = next_forced forcedTools (ast_usedForcedTools stA1))
   \<and> (dp_tool_choice payloadD = Some tc \<longrightarrow> is_object_choice (Some tc) \<longrightarrow> forced_name tc = Some x \<longrightarrow>
      x \<in> d_invoked respD \<longrightarrow>
        dp_tool_choice (last (vendor_log (snd (deepseek_iteration envD req payloadD 0 toolCalls
            (deepseek_initial_state payloadD t0 f respD) wD))))
          = Some (ChoiceStr ''auto''))
   \<and> (deepseek_iteration envD req payloadD i toolCalls stD wD = (Inr stD1, wD1) \<longrightarrow>
      dp_tool_choice (last (vendor_log wD1)) = Some tc \<longrightarrow> is_object_choice (Some tc) \<longrightarrow>
      forced_name tc = Some x \<longrightarrow> x \<in> d_invoked (dst_currentResponse stD1) \<longrightarrow>
        dp_tool_choice (last (vendor_log (snd (deepseek_iteration envD req payloadD (i + 1)
              toolCalls' stD1 wD1))))
          = Some (ChoiceStr ''auto''))"
proof (intro conjI impI)
  assume "ap_tool_choice payloadA = Some (ChoiceTool x)" and "x \<in> a_invoked respA"
  from anthropic_forced_initial [OF this refl]
  show "x \<in> set (ast_usedForcedTools
                 (anthropic_initial_state messages forcedTools (ap_tool_choice payloadA) t0 f respA))"
    and "ap_tool_choice (last (vendor_log (snd (anthropic_iteration envA req payloadA forcedTools 0 toolUses
            (anthropic_initial_state messages forcedTools (ap_tool_choice payloadA) t0 f respA) wA))))
          = next_forced forcedTools (ast_usedForcedTools
              (anthropic_initial_state messages forcedTools (ap_tool_choice payloadA) t0 f respA))"
    by blast+
next
  assume "anthropic_iteration envA req payloadA forcedTools i toolUses stA wA = (Inr stA1, wA1)"
    and "ap_tool_choice (last (vendor_log wA1)) = Some (ChoiceTool x)"
    and "x \<in> a_invoked (ast_currentResponse stA1)"
  from anthropic_forced_in_loop [OF this]
  show "x \<in> set (ast_usedForcedTools stA1)"
    and "ap_tool_choice (last (vendor_log (snd (anthropic_iteration envA req payloadA forcedTools (i + 1)
              toolUses' stA1 wA1))))
            = next_forced forcedTools (ast_usedForcedTools stA1)"
    by blast+
next
  assume "dp_tool_choice payloadD = Some tc" and "is_object_choice (Some tc)"
    and "forced_name tc = Some x" and "x \<in> d_invoked respD"
  then show "dp_tool_choice (last (vendor_log (snd (deepseek_iteration envD req payloadD 0 toolCalls
            (deepseek_initial_state payloadD t0 f respD) wD))))
          = Some (ChoiceStr ''auto'')"
    by (rule deepseek_forced_initial)
next
  assume "deepseek_iteration envD req payloadD i toolCalls stD wD = (Inr stD1, wD1)"
    and "dp_tool_choice (last (vendor_log wD1)) = Some tc" and "is_object_choice (Some tc)"
    and "forced_name tc = Some x" and "x \<in> d_invoked (dst_currentResponse stD1)"
  then show "dp_tool_choice (last (vendor_log (snd (deepseek_iteration envD req payloadD (i + 1)
              toolCalls' stD1 wD1))))
          = Some (ChoiceStr ''auto'')"
    by (rule deepseek_forced_in_loop)
qed

text \<open>A request with two tools that the policy engine forces in the order search, summarize;
  the first directive forces the first of them in the format of the provider.\<close>

definition search_tool :: tool where
  "search_tool =
     \<lparr>tool_id = ''search'', tool_description = ''Search the web'',
      tool_parameters = \<lparr>tp_properties = JObj [], tp_required = JArr []\<rparr>,
      tool_params = None, tool_usageControl = Some ''force''\<rparr>"

definition sequence_request :: request where
  "sequence_request =
     weather_request\<lparr>req_tools := Some [search_tool,
                         search_tool\<lparr>tool_id := ''summarize'', tool_description := ''Summarize a text''\<rparr>]\<rparr>"

definition prepare_sequence :: "vendor_tool list \<Rightarrow> tool list option \<Rightarrow> string \<Rightarrow> prepared" where
  "prepare_sequence vendorTools tools provider =
     \<lparr>prep_tools = Some vendorTools,
      prep_toolChoice = Some (if provider = ''anthropic'' then ChoiceTool ''search''
                              else ChoiceFunction ''search''),
      prep_forcedTools = [''search'', ''summarize'']\<rparr>"

definition search_response :: a_response where
  "search_response = \<lparr>ar_content = [RespToolUse ''toolu_1'' ''search'' (JObj [])], ar_usage = None\<rparr>"

definition sequence_envA :: "(a_payload, a_response) env" where
  "sequence_envA =
     \<lparr>now = (\<lambda>n. 1000 + 5 * int n),
      random_suffix = (\<lambda>n. ''k3x9q''),
      vendor = (\<lambda>n p. if n = 0 then Inr search_response
                  else if n = 1
                  then Inr \<lparr>ar_content = [RespToolUse ''toolu_2'' ''summarize'' (JObj [])],
                            ar_usage = None\<rparr>
                  else Inr \<lparr>ar_content = [RespText ''Done.''], ar_usage = None\<rparr>),
      executeTool = (\<lambda>n toolName args. ToolReturns True (JStr ''ok'')),
      json_parse = parse_example,
      syntax_error = syntax_error_example,
      json_stringify = stringify_example,
      prepareToolsWithUsageControl = prepare_sequence\<rparr>"

definition sequence_envD :: "(d_payload, d_response) env" where
  "sequence_envD =
     \<lparr>now = (\<lambda>n. 1000 + 5 * int n),
      random_suffix = (\<lambda>n. ''k3x9q''),
      vendor = (\<lambda>n p. if n = 0
                  then Inr \<lparr>dr_message = Some \<lparr>dm_content = None,
                                dm_tool_calls = Some [\<lparr>dtc_id = ''call_1'', dtc_name = ''search'',
                                                       dtc_arguments = ''{}''\<rparr>]\<rparr>,
                            dr_usage = None\<rparr>
                  else Inr \<lparr>dr_message = Some \<lparr>dm_content = Some ''Done.'', dm_tool_calls = None\<rparr>,
                            dr_usage = None\<rparr>),
      executeTool = (\<lambda>n toolName args. ToolReturns True (JStr ''ok'')),
      json_parse = parse_example,
      syntax_error = syntax_error_example,
      json_stringify = stringify_example,
      prepareToolsWithUsageControl = prepare_sequence\<rparr>"

definition sequence_runA :: "(error + provider_response) \<times> a_payload world" where
  "sequence_runA = anthropic_executeRequest sequence_envA sequence_request world0"

definition sequence_runD :: "(error + provider_response) \<times> d_payload world" where
  "sequence_runD = deepseek_executeRequest sequence_envD sequence_request world0"

text \<open>The payload of the first vendor call of \<open>sequence_runA\<close>.\<close>

definition sequence_payloadA :: a_payload where
  "sequence_payloadA =
     anthropic_payload sequence_request [] ''You are helpful.''
       (anthropic_tools_of sequence_request) (ChoiceTool ''search'')"

theorem forced_tool_directive_after_firing_witness:
  "ap_tool_choice sequence_payloadA = Some (ChoiceTool ''search'')
   \<and> ''search'' \<in> a_invoked search_response
   \<and> ap_tool_choice (last (vendor_log (snd (anthropic_iteration sequence_envA sequence_request
          sequence_payloadA [''search'', ''summarize''] 0 (ar_content search_response)
          (anthropic_initial_state [] [''search'', ''summarize''] (ap_tool_choice sequence_payloadA)
             1000 5 search_response) world0))))
       = Some (ChoiceTool ''summarize'')
   \<and> map ap_tool_choice (vendor_log (snd sequence_runA))
       = [Some (ChoiceTool ''search''), Some (ChoiceTool ''summarize''), None]"
proof -
  have dir: "ap_tool_choice sequence_payloadA = Some (ChoiceTool ''search'')"
    by (simp add: sequence_payloadA_def anthropic_payload_def anthropic_tools_of_def sequence_request_def)
  have fired: "''search'' \<in> a_invoked search_response"
    by (simp add: a_invoked_def search_response_def)
  have used: "ast_usedForcedTools (anthropic_initial_state [] [''search'', ''summarize'']
                 (ap_tool_choice sequence_payloadA) 1000 5 search_response) = [''search'']"
    using dir
    by (simp add: anthropic_initial_state_def anthropic_track_def trackForcedToolUsage_def Let_def
          search_response_def)
  have nf: "next_forced [''search'', ''summarize''] [''search''] = Some (ChoiceTool ''summarize'')"
    by (simp add: next_forced_def)
  from forced_tool_directive_after_firing
         [where payloadA = sequence_payloadA and x = "''search''" and respA = search_response
            and messages = "[]" and forcedTools = "[''search'', ''summarize'']" and ?t0.0 = 1000 and f = 5
            and envA = sequence_envA and req = sequence_request
            and toolUses = "ar_content search_response" and wA = world0]
       dir fired
  have "ap_tool_choice (last (vendor_log (snd (anthropic_iteration sequence_envA sequence_request
          sequence_payloadA [''search'', ''summarize''] 0 (ar_content search_response)
          (anthropic_initial_state [] [''search'', ''summarize''] (ap_tool_choice sequence_payloadA)
             1000 5 search_response) world0))))
       = next_forced [''search'', ''summarize''] (ast_usedForcedTools
              (anthropic_initial_state [] [''search'', ''summarize''] (ap_tool_choice sequence_payloadA)
                 1000 5 search_response))"
    by blast
  with used nf have step: "ap_tool_choice (last (vendor_log (snd (anthropic_iteration sequence_envA sequence_request
          sequence_payloadA [''search'', ''summarize''] 0 (ar_content search_response)
          (anthropic_initial_state [] [''search'', ''summarize''] (ap_tool_choice sequence_payloadA)
             1000 5 search_response) world0))))
       = Some (ChoiceTool ''summarize'')"
    by simp
  have run: "map ap_tool_choice (vendor_log (snd sequence_runA))
       = [Some (ChoiceTool ''search''), Some (ChoiceTool ''summarize''), None]"
    by code_simp
  from dir fired step run show ?thesis by simp
qed

text \<open>The forced order search, summarize with Deepseek: after \<^verbatim>\<open>search\<close> has fired, the next
  directive is \<^verbatim>\<open>'auto'\<close> and does not force \<^verbatim>\<open>summarize\<close>.\<close>

theorem deepseek_sequence_counterexample:
  "prep_forcedTools (prepareToolsWithUsageControl sequence_envD (deepseek_tools_of sequence_request)
       (req_tools sequence_request) ''deepseek'') = [''search'', ''summarize'']
   \<and> map dp_tool_choice (vendor_log (snd sequence_runD))
       = [Some (ChoiceFunction ''search''), Some (ChoiceStr ''auto'')]"
  by code_simp

section \<open>Errors: what is raised, and with what timing\<close>

lemma enhancedError_timing:
  "error_timing_of (fst (enhancedError env providerStartTime e w)) \<noteq> None"
  by (cases e) (simp add: enhancedError_def read_clock_def)

text \<open>Deepseek: every error raised for a request with a credential carries a timing.\<close>

lemma deepseek_errors_carry_timing:
  assumes "truthy_str (req_apiKey req)"
    and "deepseek_executeRequest env req w = (Inl e, w')"
  shows "error_timing_of e \<noteq> None"
proof -
  obtain providerStartTime w1 where c1: "read_clock env w = (providerStartTime, w1)"
    by (cases "read_clock env w")
  obtain tr w2 where t: "deepseek_try env req providerStartTime w1 = (tr, w2)"
    by (cases "deepseek_try env req providerStartTime w1")
  show ?thesis
  proof (cases tr)
    case (Inl e0)
    obtain e1 w3 where en: "enhancedError env providerStartTime e0 w2 = (e1, w3)"
      by (cases "enhancedError env providerStartTime e0 w2")
    with assms c1 t Inl have "e = e1"
      by (simp add: deepseek_executeRequest_def)
    with enhancedError_timing [of env providerStartTime e0 w2] en show ?thesis by simp
  next
    case (Inr response)
    with assms c1 t show ?thesis by (simp add: deepseek_executeRequest_def)
  qed
qed

text \<open>Anthropic: every error raised behind the message normalisation carries a timing.\<close>

lemma anthropic_errors_carry_timing:
  assumes "truthy_str (req_apiKey req)"
    and "anthropic_normalize env req w = (Inr normalized, w1)"
    and "anthropic_executeRequest env req w = (Inl e, w')"
  shows "error_timing_of e \<noteq> None"
proof -
  obtain messages systemPrompt0 where nm: "normalized = (messages, systemPrompt0)"
    by (cases normalized)
  obtain anthropicTools toolChoice where ts: "anthropic_tool_setup env req = (anthropicTools, toolChoice)"
    by (cases "anthropic_tool_setup env req")
  obtain providerStartTime w2 where c2: "read_clock env w1 = (providerStartTime, w2)"
    by (cases "read_clock env w1")
  define payload where "payload = anthropic_payload req messages
      (anthropic_system_prompt systemPrompt0 (req_responseFormat req)) anthropicTools toolChoice"
  obtain tr w3 where t: "anthropic_try env req payload anthropicTools messages providerStartTime w2 = (tr, w3)"
    by (cases "anthropic_try env req payload anthropicTools messages providerStartTime w2")
  show ?thesis
  proof (cases tr)
    case (Inl e0)
    obtain e1 w4 where en: "enhancedError env providerStartTime e0 w3 = (e1, w4)"
      by (cases "enhancedError env providerStartTime e0 w3")
    with assms nm ts c2 t Inl have "e = e1"
      by (simp add: anthropic_executeRequest_def Let_def payload_def)
    with enhancedError_timing [of env providerStartTime e0 w3] en show ?thesis by simp
  next
    case (Inr response)
    with assms nm ts c2 t show ?thesis
      by (simp add: anthropic_executeRequest_def Let_def payload_def)
  qed
qed

text \<open>Every vendor call of the log returned a response.\<close>

definition all_calls_returned :: "('p, 'r) env \<Rightarrow> 'p world \<Rightarrow> bool" where
  "all_calls_returned env w \<longleftrightarrow>
     (\<forall>k < length (vendor_log w). \<exists>resp. vendor env k (vendor_log w ! k) = Inr resp)"

lemma all_calls_returned_snoc:
  assumes "all_calls_returned env w" and "vendor_log w' = vendor_log w @ [p]"
    and "vendor env (length (vendor_log w)) p = Inr resp"
  shows "all_calls_returned env w'"
  using assms
  by (auto simp add: all_calls_returned_def nth_append less_Suc_eq)

lemma all_calls_returned_same_log:
  "all_calls_returned env w \<Longrightarrow> vendor_log w' = vendor_log w \<Longrightarrow> all_calls_returned env w'"
  by (simp add: all_calls_returned_def)

lemma anthropic_iteration_returned:
  assumes "anthropic_iteration env req payload forcedTools i toolUses st w = (Inr st', w')"
  shows "\<exists>resp. vendor env (length (vendor_log w))
                  (anthropic_nextPayload payload forcedTools
                     (fst (anthropic_tools_phase env req toolUses st w))) = Inr resp"
proof -
  obtain st2 w3 where ph: "anthropic_tools_phase env req toolUses st w = (st2, w3)"
    by (cases "anthropic_tools_phase env req toolUses st w")
  have vl: "vendor_log w3 = vendor_log w"
    using anthropic_tools_phase_vendor_log [of env req toolUses st w] ph by simp
  from assms ph vl show ?thesis
    by (auto simp add: anthropic_iteration_def Let_def read_clock_def call_vendor_def
          split: sum.splits)
qed

text \<open>Anthropic: a run that returns an envelope has had an answer to every vendor call it
  made; so a vendor call that throws, the initial one or one in the loop, ends the run with
  an error, and the call is not made again.\<close>

lemma anthropic_envelope_needs_every_call:
  assumes run: "anthropic_executeRequest env req w = (Inr response, w')"
    and fresh: "vendor_log w = []"
  shows "all_calls_returned env w'"
proof -
  from run obtain messages systemPrompt0 w1 anthropicTools toolChoice providerStartTime w2 where
    n: "anthropic_normalize env req w = (Inr (messages, systemPrompt0), w1)"
    and c2: "read_clock env w1 = (providerStartTime, w2)"
    and t: "anthropic_try env req
       (anthropic_payload req messages (anthropic_system_prompt systemPrompt0 (req_responseFormat req))
          anthropicTools toolChoice)
       anthropicTools messages providerStartTime w2 = (Inr response, w')"
    by (rule anthropic_executeRequest_Inr)
  define payload where "payload = anthropic_payload req messages
      (anthropic_system_prompt systemPrompt0 (req_responseFormat req)) anthropicTools toolChoice"
  define forcedTools where "forcedTools = anthropic_forcedTools env req anthropicTools"
  have l1: "vendor_log w1 = []"
    using anthropic_normalize_vendor_log [of env req w] n fresh by simp
  from c2 l1 have l2: "vendor_log w2 = []" by (auto simp add: read_clock_def)
  from t [folded payload_def] obtain initialCallTime w3 currentResponse w4 firstResponseEnd w5 k st w6 providerEndTime where
    c3: "read_clock env w2 = (initialCallTime, w3)"
    and cv: "call_vendor env payload w3 = (Inr currentResponse, w4)"
    and c5: "read_clock env w4 = (firstResponseEnd, w5)"
    and loop: "anthropic_loop env req payload forcedTools 0
       (anthropic_initial_state messages forcedTools
          (ap_tool_choice payload) initialCallTime (firstResponseEnd - initialCallTime) currentResponse) w5
       = (Inr (k, st), w6)"
    and c7: "read_clock env w6 = (providerEndTime, w')"
    and resp: "response = anthropic_response req providerStartTime providerEndTime
                  (firstResponseEnd - initialCallTime) k st"
    unfolding forcedTools_def by (rule anthropic_try_Inr)
  from c3 l2 have l3: "vendor_log w3 = []" by (auto simp add: read_clock_def)
  from cv l3 have first: "vendor env 0 payload = Inr currentResponse" and l4: "vendor_log w4 = [payload]"
    by (auto simp add: call_vendor_def)
  from c5 l4 have l5: "vendor_log w5 = [payload]" by (auto simp add: read_clock_def)
  let ?I = "\<lambda>(st :: a_state) (w :: a_payload world). all_calls_returned env w"
  have init: "all_calls_returned env w5"
    using first l5 by (simp add: all_calls_returned_def)
  have step: "\<And>i toolUses st w st' w'. all_calls_returned env w \<Longrightarrow>
      anthropic_iteration env req payload forcedTools i toolUses st w = (Inr st', w')
      \<Longrightarrow> all_calls_returned env w'"
  proof -
    fix i toolUses st w st' w'
    assume inv: "all_calls_returned env w"
      and it: "anthropic_iteration env req payload forcedTools i toolUses st w = (Inr st', w')"
    from anthropic_iteration_returned [OF it] obtain r where
      r: "vendor env (length (vendor_log w))
            (anthropic_nextPayload payload forcedTools (fst (anthropic_tools_phase env req toolUses st w))) = Inr r"
      by blast
    from anthropic_iteration_vendor_log [of env req payload forcedTools i toolUses st w] it
    have "vendor_log w' = vendor_log w @ [anthropic_nextPayload payload forcedTools
                         (fst (anthropic_tools_phase env req toolUses st w))]" by simp
    from all_calls_returned_snoc [OF inv this r] show "all_calls_returned env w'" .
  qed
  have "?I st w6"
    by (rule anthropic_loop_invariant [where I = ?I, OF step init loop])
  moreover from c7 have "vendor_log w' = vendor_log w6" by (auto simp add: read_clock_def)
  ultimately show ?thesis by (rule all_calls_returned_same_log)
qed

text \<open>The first response asks for a tool, the second vendor call throws.\<close>

definition failing_envA :: "(a_payload, a_response) env" where
  "failing_envA =
     always_tool_envA\<lparr>vendor := (\<lambda>n p. if n = 0 then vendor always_tool_envA n p
                                       else Inl ''connection reset'')\<rparr>"

definition failing_envD :: "(d_payload, d_response) env" where
  "failing_envD =
     always_tool_envD\<lparr>vendor := (\<lambda>n p. if n = 0 then vendor always_tool_envD n p
                                       else Inl ''connection reset'')\<rparr>"

definition failing_runA :: "(error + provider_response) \<times> a_payload world" where
  "failing_runA = anthropic_executeRequest failing_envA weather_request world0"

definition failing_runD :: "(error + provider_response) \<times> d_payload world" where
  "failing_runD = deepseek_executeRequest failing_envD weather_request world0"

text \<open>A prior assistant turn with a function call whose arguments are not JSON text.\<close>

definition malformed_request :: request where
  "malformed_request =
     weather_request\<lparr>req_messages := Some [\<lparr>msg_role = ''assistant'', msg_content = None,
        msg_name = None,
        msg_function_call = Some \<lparr>fc_name = ''get_weather'', fc_arguments = ''{city:''\<rparr>\<rparr>]\<rparr>"

definition malformed_runA :: "(error + provider_response) \<times> a_payload world" where
  "malformed_runA = anthropic_executeRequest (text_envA ''It is sunny.'') malformed_request world0"

definition malformed_runD :: "(error + provider_response) \<times> d_payload world" where
  "malformed_runD = deepseek_executeRequest (text_envD ''It is sunny.'') malformed_request world0"

text \<open>
  C2 on a run whose second vendor call throws. The Deepseek provider made two vendor calls,
  the second of which threw, and returns an envelope with one iteration and the tool call it
  had recorded: the \<^verbatim>\<open>catch\<close> of line 319 logs the error and does not throw it again.
  The Anthropic provider, in the same surroundings, raises the error with a timing after
  the same two calls.
\<close>

theorem deepseek_swallows_vendor_error:
  "vendor failing_envD 1 (vendor_log (snd failing_runD) ! 1) = Inl ''connection reset''
   \<and> length (vendor_log (snd failing_runD)) = 2
   \<and> iterations_of (fst failing_runD) = Some 1
   \<and> map_option (\<lambda>r. recorded (pr_toolCalls r)) (envelope_of (fst failing_runD))
       = Some [(''get_weather'', JObj [(''temp'', JNum 20)])]
   \<and> fst failing_runA
       = Inl (Error ''connection reset''
                (Some \<lparr>et_startTime = 1000, et_endTime = 1045, et_duration = 45\<rparr>))
   \<and> length (vendor_log (snd failing_runA)) = 2"
  by code_simp

text \<open>
  C6 on a request with a credential and a prior function call whose arguments are not JSON
  text. The Anthropic provider raises the error of \<^verbatim>\<open>JSON.parse\<close> without a timing and
  before any vendor call: the message normalisation runs before the timer is started and
  outside the \<^verbatim>\<open>try\<close>. The Deepseek provider passes the turn on as it is and returns an
  envelope.
\<close>

theorem anthropic_untimed_parse_error:
  "truthy_str (req_apiKey malformed_request)
   \<and> fst malformed_runA = Inl (Error ''Unexpected token c in JSON at position 1'' None)
   \<and> vendor_log (snd malformed_runA) = []
   \<and> iterations_of (fst malformed_runD) = Some 1"
  by code_simp

section \<open>What a run accumulates\<close>

text \<open>The responses of the vendor to the calls of a log, in order; a call that threw gave
  none. The second argument is the number of the first call of the log.\<close>

fun responses_from :: "('p, 'r) env \<Rightarrow> nat \<Rightarrow> 'p list \<Rightarrow> 'r list" where
  "responses_from env k [] = []"
| "responses_from env k (p # ps) =
     (case vendor env k p of Inl msg \<Rightarrow> [] | Inr resp \<Rightarrow> [resp]) @ responses_from env (Suc k) ps"

text \<open>The responses to the vendor calls made between two worlds.\<close>

definition responses_since :: "('p, 'r) env \<Rightarrow> 'p world \<Rightarrow> 'p world \<Rightarrow> 'r list" where
  "responses_since env w w' =
     responses_from env (length (vendor_log w)) (drop (length (vendor_log w)) (vendor_log w'))"

text \<open>The last text of a list that is not empty; the empty text when there is none.\<close>

definition last_text :: "string list \<Rightarrow> string" where
  "last_text ts = (case rev (filter (\<lambda>t. t \<noteq> []) ts) of [] \<Rightarrow> [] | t # earlier \<Rightarrow> t)"

text \<open>The usage of a list of responses, added up; a response without usage counts 0.\<close>

definition a_token_sum :: "a_response list \<Rightarrow> tokens" where
  "a_token_sum rs =
     \<lparr>tok_prompt = sum_list (map a_input_tokens rs),
      tok_completion = sum_list (map a_output_tokens rs),
      tok_total = sum_list (map (\<lambda>r. a_input_tokens r + a_output_tokens r) rs)\<rparr>"

definition d_token_sum :: "d_response list \<Rightarrow> tokens" where
  "d_token_sum rs =
     \<lparr>tok_prompt = sum_list (map (\<lambda>r. d_usage_field r du_prompt_tokens) rs),
      tok_completion = sum_list (map (\<lambda>r. d_usage_field r du_completion_tokens) rs),
      tok_total = sum_list (map (\<lambda>r. d_usage_field r du_total_tokens) rs)\<rparr>"

text \<open>\<^verbatim>\<open>choices[0]?.message?.content || ''\<close>\<close>

definition d_text :: "d_response \<Rightarrow> string" where
  "d_text resp = (case d_message_content resp of None \<Rightarrow> [] | Some c \<Rightarrow> c)"

lemma responses_from_append:
  "responses_from env k (ps @ [p]) =
     responses_from env k ps
     @ (case vendor env (k + length ps) p of Inl msg \<Rightarrow> [] | Inr resp \<Rightarrow> [resp])"
  by (induction ps arbitrary: k) simp_all

lemma responses_since_same:
  "vendor_log w'' = vendor_log w' \<Longrightarrow> responses_since env w w'' = responses_since env w w'"
  by (simp add: responses_since_def)

lemma responses_since_self: "responses_since env w w = []"
  by (simp add: responses_since_def)

lemma responses_since_call:
  assumes "length (vendor_log w) \<le> length (vendor_log w')"
    and "vendor_log w'' = vendor_log w' @ [p]"
  shows "responses_since env w w'' =
           responses_since env w w'
           @ (case vendor env (length (vendor_log w')) p of Inl msg \<Rightarrow> [] | Inr resp \<Rightarrow> [resp])"
  using assms by (simp add: responses_since_def responses_from_append)

lemma last_text_Nil: "last_text [] = []"
  by (simp add: last_text_def)

lemma last_text_snoc: "last_text (ts @ [t]) = (if t \<noteq> [] then t else last_text ts)"
  by (simp add: last_text_def)

lemma a_token_sum_Nil: "a_token_sum [] = \<lparr>tok_prompt = 0, tok_completion = 0, tok_total = 0\<rparr>"
  by (simp add: a_token_sum_def)

lemma a_token_sum_snoc:
  "a_token_sum (rs @ [r]) =
     \<lparr>tok_prompt = tok_prompt (a_token_sum rs) + a_input_tokens r,
      tok_completion = tok_completion (a_token_sum rs) + a_output_tokens r,
      tok_total = tok_total (a_token_sum rs) + (a_input_tokens r + a_output_tokens r)\<rparr>"
  by (simp add: a_token_sum_def)

lemma d_token_sum_snoc:
  "d_token_sum (rs @ [r]) =
     \<lparr>tok_prompt = tok_prompt (d_token_sum rs) + d_usage_field r du_prompt_tokens,
      tok_completion = tok_completion (d_token_sum rs) + d_usage_field r du_completion_tokens,
      tok_total = tok_total (d_token_sum rs) + d_usage_field r du_total_tokens\<rparr>"
  by (simp add: d_token_sum_def)

subsection \<open>Anthropic\<close>

lemma anthropic_process_tool_use_kept:
  "ast_content (fst (anthropic_process_tool_use env req t st w)) = ast_content st
   \<and> ast_tokens (fst (anthropic_process_tool_use env req t st w)) = ast_tokens st"
  by (simp add: anthropic_process_tool_use_def read_clock_def run_tool_def read_random_def Let_def
           split: a_resp_block.splits option.splits tool_outcome.splits)

lemma anthropic_process_tool_uses_kept:
  "ast_content (fst (anthropic_process_tool_uses env req ts st w)) = ast_content st
   \<and> ast_tokens (fst (anthropic_process_tool_uses env req ts st w)) = ast_tokens st"
proof (induction ts arbitrary: st w)
  case Nil
  show ?case by simp
next
  case (Cons t ts)
  obtain st' w' where step: "anthropic_process_tool_use env req t st w = (st', w')"
    by (cases "anthropic_process_tool_use env req t st w")
  have "ast_content st' = ast_content st \<and> ast_tokens st' = ast_tokens st"
    using anthropic_process_tool_use_kept [of env req t st w] step by simp
  with Cons.IH [of st' w'] step show ?case by simp
qed

lemma anthropic_tools_phase_kept:
  "ast_content (fst (anthropic_tools_phase env req toolUses st w)) = ast_content st
   \<and> ast_tokens (fst (anthropic_tools_phase env req toolUses st w)) = ast_tokens st"
  using anthropic_process_tool_uses_kept [of env req toolUses st "snd (read_clock env w)"]
  by (auto simp add: anthropic_tools_phase_def read_clock_def split: prod.splits)

text \<open>The content and the tokens are those of the responses since the world \<open>w0\<close>.\<close>

definition a_accumulated ::
  "(a_payload, a_response) env \<Rightarrow> a_payload world \<Rightarrow> a_state \<Rightarrow> a_payload world \<Rightarrow> bool" where
  "a_accumulated env w0 st w \<longleftrightarrow>
     length (vendor_log w0) \<le> length (vendor_log w)
     \<and> ast_content st = last_text (map anthropic_text (responses_since env w0 w))
     \<and> ast_tokens st = a_token_sum (responses_since env w0 w)"

lemma anthropic_absorb_kept:
  "ast_content (anthropic_absorb forcedTools p i resp t1 t2 st)
     = (if anthropic_text resp \<noteq> [] then anthropic_text resp else ast_content st)
   \<and> ast_tokens (anthropic_absorb forcedTools p i resp t1 t2 st)
     = \<lparr>tok_prompt = tok_prompt (ast_tokens st) + a_input_tokens resp,
        tok_completion = tok_completion (ast_tokens st) + a_output_tokens resp,
        tok_total = tok_total (ast_tokens st) + (a_input_tokens resp + a_output_tokens resp)\<rparr>"
  by (simp add: anthropic_absorb_def Let_def a_input_tokens_def a_output_tokens_def
           split: option.splits)

lemma anthropic_iteration_accumulated:
  assumes inv: "a_accumulated env w0 st w"
    and it: "anthropic_iteration env req payload forcedTools i toolUses st w = (Inr st', w')"
  shows "a_accumulated env w0 st' w'"
proof -
  obtain st2 w3 where ph: "anthropic_tools_phase env req toolUses st w = (st2, w3)"
    by (cases "anthropic_tools_phase env req toolUses st w")
  have vl: "vendor_log w3 = vendor_log w"
    using anthropic_tools_phase_vendor_log [of env req toolUses st w] ph by simp
  have kept: "ast_content st2 = ast_content st" "ast_tokens st2 = ast_tokens st"
    using anthropic_tools_phase_kept [of env req toolUses st w] ph by simp_all
  define p where "p = anthropic_nextPayload payload forcedTools st2"
  obtain t4 w4 where c4: "read_clock env w3 = (t4, w4)" by (cases "read_clock env w3")
  then have l4: "vendor_log w4 = vendor_log w" using vl by (auto simp add: read_clock_def)
  obtain r w5 where cv: "call_vendor env p w4 = (r, w5)" by (cases "call_vendor env p w4")
  then have r: "r = vendor env (length (vendor_log w)) p" and l5: "vendor_log w5 = vendor_log w @ [p]"
    using l4 by (auto simp add: call_vendor_def)
  obtain t6 w6 where c6: "read_clock env w5 = (t6, w6)" by (cases "read_clock env w5")
  then have l6: "vendor_log w6 = vendor_log w @ [p]" using l5 by (auto simp add: read_clock_def)
  from it ph c4 cv obtain resp where resp: "r = Inr resp"
    by (cases r) (simp_all add: anthropic_iteration_def Let_def p_def)
  from it ph c4 cv resp c6 have st': "st' = anthropic_absorb forcedTools p i resp t4 t6 st2" and w': "w' = w6"
    by (simp_all add: anthropic_iteration_def Let_def p_def)
  from inv have le: "length (vendor_log w0) \<le> length (vendor_log w)"
    and c: "ast_content st = last_text (map anthropic_text (responses_since env w0 w))"
    and t: "ast_tokens st = a_token_sum (responses_since env w0 w)"
    by (simp_all add: a_accumulated_def)
  from r resp have vr: "vendor env (length (vendor_log w)) p = Inr resp" by simp
  have rs: "responses_since env w0 w6 = responses_since env w0 w @ [resp]"
    using responses_since_call [OF le, where w'' = w6 and p = p and env = env] l6 vr by simp
  show ?thesis
    using le l6 w' 
    by (simp add: a_accumulated_def rs st' anthropic_absorb_kept kept c t last_text_snoc a_token_sum_snoc)
qed

lemma anthropic_run_accumulates:
  assumes run: "anthropic_executeRequest env req w = (Inr response, w')"
  shows "pr_content response = extractJson (last_text (map anthropic_text (responses_since env w w')))
       \<and> pr_tokens response = a_token_sum (responses_since env w w')"
proof -
  from run obtain messages systemPrompt0 w1 anthropicTools toolChoice providerStartTime w2 where
    n: "anthropic_normalize env req w = (Inr (messages, systemPrompt0), w1)"
    and c2: "read_clock env w1 = (providerStartTime, w2)"
    and t: "anthropic_try env req
       (anthropic_payload req messages (anthropic_system_prompt systemPrompt0 (req_responseFormat req))
          anthropicTools toolChoice)
       anthropicTools messages providerStartTime w2 = (Inr response, w')"
    by (rule anthropic_executeRequest_Inr)
  define payload where "payload = anthropic_payload req messages
      (anthropic_system_prompt systemPrompt0 (req_responseFormat req)) anthropicTools toolChoice"
  define forcedTools where "forcedTools = anthropic_forcedTools env req anthropicTools"
  have l1: "vendor_log w1 = vendor_log w"
    using anthropic_normalize_vendor_log [of env req w] n by simp
  from c2 l1 have l2: "vendor_log w2 = vendor_log w" by (auto simp add: read_clock_def)
  from t [folded payload_def] obtain initialCallTime w3 currentResponse w4 firstResponseEnd w5 k st w6 providerEndTime where
    c3: "read_clock env w2 = (initialCallTime, w3)"
    and cv: "call_vendor env payload w3 = (Inr currentResponse, w4)"
    and c5: "read_clock env w4 = (firstResponseEnd, w5)"
    and loop: "anthropic_loop env req payload forcedTools 0
       (anthropic_initial_state messages forcedTools
          (ap_tool_choice payload) initialCallTime (firstResponseEnd - initialCallTime) currentResponse) w5
       = (Inr (k, st), w6)"
    and c7: "read_clock env w6 = (providerEndTime, w')"
    and resp: "response = anthropic_response req providerStartTime providerEndTime
                  (firstResponseEnd - initialCallTime) k st"
    unfolding forcedTools_def by (rule anthropic_try_Inr)
  from c3 l2 have l3: "vendor_log w3 = vendor_log w" by (auto simp add: read_clock_def)
  from cv l3 have v: "vendor env (length (vendor_log w)) payload = Inr currentResponse"
    and l4: "vendor_log w4 = vendor_log w @ [payload]"
    by (auto simp add: call_vendor_def)
  from c5 l4 have l5: "vendor_log w5 = vendor_log w @ [payload]" by (auto simp add: read_clock_def)
  have rs5: "responses_since env w w5 = [currentResponse]"
    using responses_since_call [where w = w and w' = w and w'' = w5 and p = payload and env = env] l5 v
    by (simp add: responses_since_self)
  have init: "a_accumulated env w (anthropic_initial_state messages forcedTools
          (ap_tool_choice payload) initialCallTime (firstResponseEnd - initialCallTime) currentResponse) w5"
    by (simp add: a_accumulated_def rs5 l5 anthropic_initial_state_def Let_def last_text_def a_token_sum_def)
  have "a_accumulated env w st w6"
    by (rule anthropic_loop_invariant [where I = "a_accumulated env w", OF _ init loop])
       (rule anthropic_iteration_accumulated)
  moreover from c7 have "vendor_log w' = vendor_log w6" by (auto simp add: read_clock_def)
  ultimately have "ast_content st = last_text (map anthropic_text (responses_since env w w'))"
    and "ast_tokens st = a_token_sum (responses_since env w w')"
    by (simp_all add: a_accumulated_def responses_since_def)
  then show ?thesis by (simp add: resp anthropic_response_def)
qed

subsection \<open>Deepseek\<close>

lemma deepseek_process_tool_call_kept:
  "dst_content (fst (deepseek_process_tool_call env req t st w)) = dst_content st
   \<and> dst_tokens (fst (deepseek_process_tool_call env req t st w)) = dst_tokens st"
  by (simp add: deepseek_process_tool_call_def read_clock_def run_tool_def Let_def
           split: option.splits tool_outcome.splits)

lemma deepseek_process_tool_calls_kept:
  "dst_content (fst (deepseek_process_tool_calls env req ts st w)) = dst_content st
   \<and> dst_tokens (fst (deepseek_process_tool_calls env req ts st w)) = dst_tokens st"
proof (induction ts arbitrary: st w)
  case Nil
  show ?case by simp
next
  case (Cons t ts)
  obtain st' w' where step: "deepseek_process_tool_call env req t st w = (st', w')"
    by (cases "deepseek_process_tool_call env req t st w")
  have "dst_content st' = dst_content st \<and> dst_tokens st' = dst_tokens st"
    using deepseek_process_tool_call_kept [of env req t st w] step by simp
  with Cons.IH [of st' w'] step show ?case by simp
qed

lemma deepseek_tools_phase_kept:
  "dst_content (fst (deepseek_tools_phase env req toolCalls st w)) = dst_content st
   \<and> dst_tokens (fst (deepseek_tools_phase env req toolCalls st w)) = dst_tokens st"
  using deepseek_process_tool_calls_kept [of env req toolCalls st "snd (read_clock env w)"]
  by (auto simp add: deepseek_tools_phase_def read_clock_def split: prod.splits)

lemma cleanContent_Nil: "cleanContent [] = []"
  by (simp add: cleanContent_def strip_fences_def trim_def)

definition d_accumulated ::
  "(d_payload, d_response) env \<Rightarrow> d_payload world \<Rightarrow> d_state \<Rightarrow> d_payload world \<Rightarrow> bool" where
  "d_accumulated env w0 st w \<longleftrightarrow>
     length (vendor_log w0) \<le> length (vendor_log w)
     \<and> dst_content st = cleanContent (last_text (map d_text (responses_since env w0 w)))
     \<and> dst_tokens st = d_token_sum (responses_since env w0 w)"

lemma deepseek_absorb_kept:
  "dst_content (deepseek_absorb payload i resp t1 t2 st)
     = (if d_text resp \<noteq> [] then cleanContent (d_text resp) else dst_content st)
   \<and> dst_tokens (deepseek_absorb payload i resp t1 t2 st)
     = \<lparr>tok_prompt = tok_prompt (dst_tokens st) + d_usage_field resp du_prompt_tokens,
        tok_completion = tok_completion (dst_tokens st) + d_usage_field resp du_completion_tokens,
        tok_total = tok_total (dst_tokens st) + d_usage_field resp du_total_tokens\<rparr>"
  by (simp add: deepseek_absorb_def Let_def d_text_def d_usage_field_def split: option.splits)

lemma deepseek_iteration_accumulated:
  assumes inv: "d_accumulated env w0 st w"
    and it: "deepseek_iteration env req payload i toolCalls st w = (r, w')"
  shows "case r of Inl (e, st') \<Rightarrow> d_accumulated env w0 st' w' | Inr st' \<Rightarrow> d_accumulated env w0 st' w'"
proof -
  obtain st2 w3 where ph: "deepseek_tools_phase env req toolCalls st w = (st2, w3)"
    by (cases "deepseek_tools_phase env req toolCalls st w")
  have vl: "vendor_log w3 = vendor_log w"
    using deepseek_tools_phase_vendor_log [of env req toolCalls st w] ph by simp
  have kept: "dst_content st2 = dst_content st" "dst_tokens st2 = dst_tokens st"
    using deepseek_tools_phase_kept [of env req toolCalls st w] ph by simp_all
  define p where "p = deepseek_nextPayload payload st2"
  obtain t4 w4 where c4: "read_clock env w3 = (t4, w4)" by (cases "read_clock env w3")
  then have l4: "vendor_log w4 = vendor_log w" using vl by (auto simp add: read_clock_def)
  obtain a w5 where cv: "call_vendor env p w4 = (a, w5)" by (cases "call_vendor env p w4")
  then have a: "a = vendor env (length (vendor_log w)) p" and l5: "vendor_log w5 = vendor_log w @ [p]"
    using l4 by (auto simp add: call_vendor_def)
  obtain t6 w6 where c6: "read_clock env w5 = (t6, w6)" by (cases "read_clock env w5")
  then have l6: "vendor_log w6 = vendor_log w @ [p]" using l5 by (auto simp add: read_clock_def)
  from inv have le: "length (vendor_log w0) \<le> length (vendor_log w)"
    and c: "dst_content st = cleanContent (last_text (map d_text (responses_since env w0 w)))"
    and t: "dst_tokens st = d_token_sum (responses_since env w0 w)"
    by (simp_all add: d_accumulated_def)
  show ?thesis
  proof (cases a)
    case (Inl msg)
    with it ph c4 cv have r: "r = Inl (Error msg None, st2)" and w': "w' = w5"
      by (simp_all add: deepseek_iteration_def Let_def p_def)
    from a Inl have va: "vendor env (length (vendor_log w)) p = Inl msg" by simp
    have rs: "responses_since env w0 w5 = responses_since env w0 w"
      using responses_since_call [OF le, where w'' = w5 and p = p and env = env] l5 va by simp
    show ?thesis using le l5 w' by (simp add: r d_accumulated_def rs kept c t)
  next
    case (Inr resp)
    with it ph c4 cv c6 have r: "r = Inr (deepseek_absorb payload i resp t4 t6 st2)" and w': "w' = w6"
      by (simp_all add: deepseek_iteration_def Let_def p_def)
    from a Inr have va: "vendor env (length (vendor_log w)) p = Inr resp" by simp
    have rs: "responses_since env w0 w6 = responses_since env w0 w @ [resp]"
      using responses_since_call [OF le, where w'' = w6 and p = p and env = env] l6 va by simp
    show ?thesis
      using le l6 w'
      by (simp add: r d_accumulated_def rs deepseek_absorb_kept kept c t last_text_snoc d_token_sum_snoc)
  qed
qed

lemma deepseek_run_accumulates:
  assumes run: "deepseek_executeRequest env req w = (Inr response, w')"
  shows "pr_content response = cleanContent (last_text (map d_text (responses_since env w w')))
       \<and> pr_tokens response = d_token_sum (responses_since env w w')"
proof -
  from run obtain providerStartTime w1 where
    c1: "read_clock env w = (providerStartTime, w1)"
    and t: "deepseek_try env req providerStartTime w1 = (Inr response, w')"
    by (rule deepseek_executeRequest_Inr)
  define payload where "payload = deepseek_payload env req"
  from c1 have l1: "vendor_log w1 = vendor_log w" by (auto simp add: read_clock_def)
  from t obtain initialCallTime w3 currentResponse w4 firstResponseEnd w5 k st w6 providerEndTime where
    c3: "read_clock env w1 = (initialCallTime, w3)"
    and cv: "call_vendor env payload w3 = (Inr currentResponse, w4)"
    and c5: "read_clock env w4 = (firstResponseEnd, w5)"
    and loop: "deepseek_loop env req payload 0
       (deepseek_initial_state payload initialCallTime (firstResponseEnd - initialCallTime) currentResponse) w5
       = ((k, st), w6)"
    and c7: "read_clock env w6 = (providerEndTime, w')"
    and resp: "response = deepseek_response req providerStartTime providerEndTime
                  (firstResponseEnd - initialCallTime) k st"
    unfolding payload_def by (rule deepseek_try_Inr)
  from c3 l1 have l3: "vendor_log w3 = vendor_log w" by (auto simp add: read_clock_def)
  from cv l3 have v: "vendor env (length (vendor_log w)) payload = Inr currentResponse"
    and l4: "vendor_log w4 = vendor_log w @ [payload]"
    by (auto simp add: call_vendor_def)
  from c5 l4 have l5: "vendor_log w5 = vendor_log w @ [payload]" by (auto simp add: read_clock_def)
  have rs5: "responses_since env w w5 = [currentResponse]"
    using responses_since_call [where w = w and w' = w and w'' = w5 and p = payload and env = env] l5 v
    by (simp add: responses_since_self)
  have init: "d_accumulated env w (deepseek_initial_state payload initialCallTime
                 (firstResponseEnd - initialCallTime) currentResponse) w5"
    by (simp add: d_accumulated_def rs5 l5 deepseek_initial_state_def last_text_def d_token_sum_def
          d_text_def cleanContent_Nil split: option.splits)
  have step: "\<And>i toolCalls st w st' w'. d_accumulated env w0 st w \<Longrightarrow>
      deepseek_iteration env req payload i toolCalls st w = (Inr st', w') \<Longrightarrow> d_accumulated env w0 st' w'"
    for w0
    using deepseek_iteration_accumulated by fastforce
  have caught: "\<And>i toolCalls st w e st' w'. d_accumulated env w0 st w \<Longrightarrow>
      deepseek_iteration env req payload i toolCalls st w = (Inl (e, st'), w') \<Longrightarrow> d_accumulated env w0 st' w'"
    for w0
    using deepseek_iteration_accumulated by fastforce
  have "d_accumulated env w st w6"
    by (rule deepseek_loop_invariant [where I = "d_accumulated env w", OF step caught init loop])
  moreover from c7 have "vendor_log w' = vendor_log w6" by (auto simp add: read_clock_def)
  ultimately have "dst_content st = cleanContent (last_text (map d_text (responses_since env w w')))"
    and "dst_tokens st = d_token_sum (responses_since env w w')"
    by (simp_all add: d_accumulated_def responses_since_def)
  then show ?thesis by (simp add: resp deepseek_response_def)
qed

section \<open>The iteration cap: what the envelope tells and keeps\<close>

lemma responses_from_all_returned:
  assumes "\<forall>n p. \<exists>resp. vendor env n p = Inr resp"
  shows "length (responses_from env k ps) = length ps"
proof (induction ps arbitrary: k)
  case Nil
  show ?case by simp
next
  case (Cons p ps)
  from assms obtain resp where "vendor env k p = Inr resp" by blast
  with Cons.IH [of "Suc k"] show ?case by simp
qed

text \<open>A stub vendor that answers call number \<open>n\<close> with the text \<^verbatim>\<open>Call n\<close>, one tool
  invocation, and a usage of 12 input and 7 output tokens.\<close>

definition talkative_responseA :: "nat \<Rightarrow> a_response" where
  "talkative_responseA n =
     \<lparr>ar_content = [RespText (''Call '' @ decimal n),
                    RespToolUse ''toolu_1'' ''get_weather'' (JObj [(''city'', JStr ''Paris'')])],
      ar_usage = Some \<lparr>au_input_tokens = Some 12, au_output_tokens = Some 7\<rparr>\<rparr>"

definition talkative_responseD :: "nat \<Rightarrow> d_response" where
  \<open>talkative_responseD n =
     \<lparr>dr_message = Some \<lparr>dm_content = Some (''Call '' @ decimal n),
                          dm_tool_calls = Some [\<lparr>dtc_id = ''call_1'', dtc_name = ''get_weather'',
                                                 dtc_arguments = ''{"city":"Paris"}''\<rparr>]\<rparr>,
      dr_usage = Some \<lparr>du_prompt_tokens = Some 12, du_completion_tokens = Some 7,
                        du_total_tokens = Some 19\<rparr>\<rparr>\<close>

definition talkative_envA :: "(a_payload, a_response) env" where
  "talkative_envA = always_tool_envA\<lparr>vendor := (\<lambda>n p. Inr (talkative_responseA n))\<rparr>"

definition talkative_envD :: "(d_payload, d_response) env" where
  "talkative_envD = always_tool_envD\<lparr>vendor := (\<lambda>n p. Inr (talkative_responseD n))\<rparr>"

definition talkative_runA :: "(error + provider_response) \<times> a_payload world" where
  "talkative_runA = anthropic_executeRequest talkative_envA weather_request world0"

definition talkative_runD :: "(error + provider_response) \<times> d_payload world" where
  "talkative_runD = deepseek_executeRequest talkative_envD weather_request world0"

lemma talkative_envA_stub:
  "\<forall>n p. \<exists>resp. vendor talkative_envA n p = Inr resp \<and> filter is_tool_use (ar_content resp) \<noteq> []"
  by (simp add: talkative_envA_def talkative_responseA_def)

lemma talkative_envD_stub:
  "\<forall>n p. \<exists>resp. vendor talkative_envD n p = Inr resp \<and> d_has_tool_calls resp"
  by (simp add: talkative_envD_def talkative_responseD_def d_has_tool_calls_def d_message_tool_calls_def)

lemma responses_from_regardless:
  assumes "\<And>n p. vendor env n p = Inr (f n)"
  shows "responses_from env k ps = map f [k..<k + length ps]"
proof (induction ps arbitrary: k)
  case Nil
  show ?case by simp
next
  case (Cons p ps)
  have "[k..<k + length (p # ps)] = k # [Suc k..<Suc k + length ps]"
    by (subst upt_rec) simp
  with Cons.IH [of "Suc k"] assms show ?case by simp
qed

text \<open>
  C1, as the code has it. For every request with a credential (and, for Anthropic, with
  prior function calls whose arguments are JSON text) and every vendor that answers each
  call with a response holding at least one tool invocation, \<^verbatim>\<open>executeRequest\<close> of
  either provider returns an envelope instead of raising, the envelope reports 11
  iterations (it reports \<^verbatim>\<open>iterationCount + 1\<close>), and exactly 11 vendor calls were
  made, each of which returned: the initial call and one in each of the 10 passes through
  the loop that \<^verbatim>\<open>MAX_ITERATIONS\<close> allows. The loop is left with all that was accumulated: the content of the envelope is
  the last text that is not empty among the 11 responses (behind the JSON extraction for
  Anthropic and the clean-up for Deepseek), its tokens are the usage of the 11 responses
  added up, and in a run that starts with an empty tool log its tool calls and tool results
  are those of the tool executions that succeeded, in order.
\<close>

theorem iteration_cap_eleven_vendor_calls:
  assumes "truthy_str (req_apiKey req)"
    and "parseable_calls envA req"
    and "\<forall>n p. \<exists>resp. vendor envA n p = Inr resp \<and> filter is_tool_use (ar_content resp) \<noteq> []"
    and "\<forall>n p. \<exists>resp. vendor envD n p = Inr resp \<and> d_has_tool_calls resp"
  shows "(\<exists>ra wA'. anthropic_executeRequest envA req wA = (Inr ra, wA')
            \<and> tm_iterations (pr_timing ra) = 11
            \<and> length (vendor_log wA') = length (vendor_log wA) + 11
            \<and> length (responses_since envA wA wA') = 11
            \<and> pr_content ra = extractJson (last_text (map anthropic_text (responses_since envA wA wA')))
            \<and> pr_tokens ra = a_token_sum (responses_since envA wA wA')
            \<and> (tool_log wA = [] \<longrightarrow>
                 recorded (pr_toolCalls ra) = successes_from envA 0 (tool_log wA')
                 \<and> (case pr_toolResults ra of None \<Rightarrow> [] | Some results \<Rightarrow> results)
                     = map snd (successes_from envA 0 (tool_log wA'))))
       \<and> (\<exists>rd wD'. deepseek_executeRequest envD req wD = (Inr rd, wD')
            \<and> tm_iterations (pr_timing rd) = 11
            \<and> length (vendor_log wD') = length (vendor_log wD) + 11
            \<and> length (responses_since envD wD wD') = 11
            \<and> pr_content rd = cleanContent (last_text (map d_text (responses_since envD wD wD')))
            \<and> pr_tokens rd = d_token_sum (responses_since envD wD wD')
            \<and> (tool_log wD = [] \<longrightarrow>
                 recorded (pr_toolCalls rd) = successes_from envD 0 (tool_log wD')
                 \<and> (case pr_toolResults rd of None \<Rightarrow> [] | Some results \<Rightarrow> results)
                     = map snd (successes_from envD 0 (tool_log wD'))))"
proof -
  from anthropic_always_tools [OF assms(1,2,3), of wA] obtain ra wa where
    runA: "anthropic_executeRequest envA req wA = (Inr ra, wa)"
    and itA: "tm_iterations (pr_timing ra) = 11"
    and lenA: "length (vendor_log wa) = length (vendor_log wA) + 11" by blast
  from assms(3) have "\<forall>n p. \<exists>resp. vendor envA n p = Inr resp" by blast
  then have "length (responses_since envA wA wa) = length (drop (length (vendor_log wA)) (vendor_log wa))"
    unfolding responses_since_def by (rule responses_from_all_returned)
  with lenA have allA: "length (responses_since envA wA wa) = 11" by simp
  from deepseek_always_tools [OF assms(1,4), of wD] obtain rd wd where
    runD: "deepseek_executeRequest envD req wD = (Inr rd, wd)"
    and itD: "tm_iterations (pr_timing rd) = 11"
    and lenD: "length (vendor_log wd) = length (vendor_log wD) + 11" by blast
  from assms(4) have "\<forall>n p. \<exists>resp. vendor envD n p = Inr resp" by blast
  then have "length (responses_since envD wD wd) = length (drop (length (vendor_log wD)) (vendor_log wd))"
    unfolding responses_since_def by (rule responses_from_all_returned)
  with lenD have allD: "length (responses_since envD wD wd) = 11" by simp
  have a: "\<exists>ra wA'. anthropic_executeRequest envA req wA = (Inr ra, wA')
            \<and> tm_iterations (pr_timing ra) = 11
            \<and> length (vendor_log wA') = length (vendor_log wA) + 11
            \<and> length (responses_since envA wA wA') = 11
            \<and> pr_content ra = extractJson (last_text (map anthropic_text (responses_since envA wA wA')))
            \<and> pr_tokens ra = a_token_sum (responses_since envA wA wA')
            \<and> (tool_log wA = [] \<longrightarrow>
                 recorded (pr_toolCalls ra) = successes_from envA 0 (tool_log wA')
                 \<and> (case pr_toolResults ra of None \<Rightarrow> [] | Some results \<Rightarrow> results)
                     = map snd (successes_from envA 0 (tool_log wA')))"
    using runA itA lenA allA anthropic_run_accumulates [OF runA] anthropic_run_records [OF runA]
    by blast
  have d: "\<exists>rd wD'. deepseek_executeRequest envD req wD = (Inr rd, wD')
            \<and> tm_iterations (pr_timing rd) = 11
            \<and> length (vendor_log wD') = length (vendor_log wD) + 11
            \<and> length (responses_since envD wD wD') = 11
            \<and> pr_content rd = cleanContent (last_text (map d_text (responses_since envD wD wD')))
            \<and> pr_tokens rd = d_token_sum (responses_since envD wD wD')
            \<and> (tool_log wD = [] \<longrightarrow>
                 recorded (pr_toolCalls rd) = successes_from envD 0 (tool_log wD')
                 \<and> (case pr_toolResults rd of None \<Rightarrow> [] | Some results \<Rightarrow> results)
                     = map snd (successes_from envD 0 (tool_log wD')))"
    using runD itD lenD allD deepseek_run_accumulates [OF runD] deepseek_run_records [OF runD]
    by blast
  from a d show ?thesis by (rule conjI)
qed

theorem iteration_cap_eleven_vendor_calls_witness:
  "truthy_str (req_apiKey weather_request)
   \<and> parseable_calls talkative_envA weather_request
   \<and> iterations_of (fst talkative_runA) = Some 11
   \<and> length (vendor_log (snd talkative_runA)) = 11
   \<and> map_option pr_content (envelope_of (fst talkative_runA)) = Some ''Call 10''
   \<and> map_option pr_tokens (envelope_of (fst talkative_runA))
       = Some \<lparr>tok_prompt = 132, tok_completion = 77, tok_total = 209\<rparr>
   \<and> map_option (\<lambda>r. recorded (pr_toolCalls r)) (envelope_of (fst talkative_runA))
       = Some (successes_from talkative_envA 0 (tool_log (snd talkative_runA)))
   \<and> iterations_of (fst talkative_runD) = Some 11
   \<and> length (vendor_log (snd talkative_runD)) = 11
   \<and> map_option pr_content (envelope_of (fst talkative_runD)) = Some ''Call 10''
   \<and> map_option pr_tokens (envelope_of (fst talkative_runD))
       = Some \<lparr>tok_prompt = 132, tok_completion = 77, tok_total = 209\<rparr>
   \<and> map_option (\<lambda>r. recorded (pr_toolCalls r)) (envelope_of (fst talkative_runD))
       = Some (successes_from talkative_envD 0 (tool_log (snd talkative_runD)))"
proof -
  have fresh: "vendor_log (world0 :: 'p world) = []" "tool_log (world0 :: 'p world) = []"
    by (simp_all add: world0_def)
  from iteration_cap_eleven_vendor_calls [OF weather_request_key weather_request_parseable talkative_envA_stub talkative_envD_stub,
             of world0 world0]
  obtain ra wa rd wd where
    runA: "anthropic_executeRequest talkative_envA weather_request world0 = (Inr ra, wa)"
    and itA: "tm_iterations (pr_timing ra) = 11"
    and lenA: "length (vendor_log wa) = 11"
    and cA: "pr_content ra = extractJson (last_text (map anthropic_text (responses_since talkative_envA world0 wa)))"
    and tA: "pr_tokens ra = a_token_sum (responses_since talkative_envA world0 wa)"
    and recA: "recorded (pr_toolCalls ra) = successes_from talkative_envA 0 (tool_log wa)"
    and runD: "deepseek_executeRequest talkative_envD weather_request world0 = (Inr rd, wd)"
    and itD: "tm_iterations (pr_timing rd) = 11"
    and lenD: "length (vendor_log wd) = 11"
    and cD: "pr_content rd = cleanContent (last_text (map d_text (responses_since talkative_envD world0 wd)))"
    and tD: "pr_tokens rd = d_token_sum (responses_since talkative_envD world0 wd)"
    and recD: "recorded (pr_toolCalls rd) = successes_from talkative_envD 0 (tool_log wd)"
    by (auto simp add: fresh)
  have "responses_since talkative_envA world0 wa = map talkative_responseA [0..<0 + length (vendor_log wa)]"
    unfolding responses_since_def fresh drop_0 list.size
    by (rule responses_from_regardless) (simp add: talkative_envA_def)
  with lenA have rsA: "responses_since talkative_envA world0 wa = map talkative_responseA [0..<11]"
    by simp
  have "responses_since talkative_envD world0 wd = map talkative_responseD [0..<0 + length (vendor_log wd)]"
    unfolding responses_since_def fresh drop_0 list.size
    by (rule responses_from_regardless) (simp add: talkative_envD_def)
  with lenD have rsD: "responses_since talkative_envD world0 wd = map talkative_responseD [0..<11]"
    by simp
  have vA: "extractJson (last_text (map anthropic_text (map talkative_responseA [0..<11]))) = ''Call 10''"
    by code_simp
  have sA: "a_token_sum (map talkative_responseA [0..<11])
              = \<lparr>tok_prompt = 132, tok_completion = 77, tok_total = 209\<rparr>"
    by code_simp
  have vD: "cleanContent (last_text (map d_text (map talkative_responseD [0..<11]))) = ''Call 10''"
    by code_simp
  have sD: "d_token_sum (map talkative_responseD [0..<11])
              = \<lparr>tok_prompt = 132, tok_completion = 77, tok_total = 209\<rparr>"
    by code_simp
  from cA have cA': "pr_content ra = ''Call 10''" unfolding rsA vA .
  from tA have tA': "pr_tokens ra = \<lparr>tok_prompt = 132, tok_completion = 77, tok_total = 209\<rparr>"
    unfolding rsA sA .
  from cD have cD': "pr_content rd = ''Call 10''" unfolding rsD vD .
  from tD have tD': "pr_tokens rd = \<lparr>tok_prompt = 132, tok_completion = 77, tok_total = 209\<rparr>"
    unfolding rsD sD .
  from runA have fa: "fst talkative_runA = Inr ra" and sa: "snd talkative_runA = wa"
    by (simp_all add: talkative_runA_def)
  from runD have fd: "fst talkative_runD = Inr rd" and sd: "snd talkative_runD = wd"
    by (simp_all add: talkative_runD_def)
  show ?thesis
    using weather_request_key weather_request_parseable [of talkative_envA]
      itA lenA cA' tA' recA itD lenD cD' tD' recD
    by (simp add: fa sa fd sd iterations_of_def envelope_of_def)
qed

text \<open>The stub vendor that always returns a tool invocation: the Anthropic provider makes
  11 vendor calls and reports 11 iterations, not 10.\<close>

theorem always_tool_stub_counterexample:
  "iterations_of (fst (anthropic_executeRequest always_tool_envA weather_request world0)) = Some 11
   \<and> length (vendor_log (snd (anthropic_executeRequest always_tool_envA weather_request world0))) = 11"
proof -
  from anthropic_always_tools [OF weather_request_key weather_request_parseable always_tool_envA_stub, of world0]
  obtain ra wa where
    "anthropic_executeRequest always_tool_envA weather_request world0 = (Inr ra, wa)"
    "tm_iterations (pr_timing ra) = 11"
    "length (vendor_log wa) = length (vendor_log (world0 :: a_payload world)) + 11" by blast
  then show ?thesis by (simp add: iterations_of_def world0_def)
qed

section \<open>The content of a Deepseek envelope\<close>

definition fenced_text :: string where
  \<open>fenced_text = ''```json'' @ [CHR 0x0A] @ ''{"ok": true}'' @ [CHR 0x0A] @ ''```'' @ [CHR 0x0A]\<close>

definition rejoined_text :: string where
  "rejoined_text = ''``'' @ [CHR 0x0A] @ ''````''"

definition rejoined_runD :: "(error + provider_response) \<times> d_payload world" where
  "rejoined_runD = deepseek_executeRequest (text_envD rejoined_text) weather_request world0"

text \<open>A vendor whose first response carries a fenced text and a tool call, and whose
  second response, the one of the loop, carries another fenced text.\<close>

definition draft_text :: string where
  \<open>draft_text = ''```json'' @ [CHR 0x0A] @ ''{"ok": false}'' @ [CHR 0x0A] @ ''```''\<close>

definition fenced_envD :: "(d_payload, d_response) env" where
  "fenced_envD =
     always_tool_envD\<lparr>vendor := (\<lambda>n p.
        if n = 0
        then Inr \<lparr>dr_message = Some \<lparr>dm_content = Some draft_text, dm_tool_calls = Some [paris_call]\<rparr>,
                  dr_usage = None\<rparr>
        else Inr \<lparr>dr_message = Some \<lparr>dm_content = Some fenced_text, dm_tool_calls = None\<rparr>,
                  dr_usage = None\<rparr>)\<rparr>"

definition fenced_loop_runD :: "(error + provider_response) \<times> d_payload world" where
  "fenced_loop_runD = deepseek_executeRequest fenced_envD weather_request world0"

text \<open>
  C10, as the code has it. The content of every envelope that the Deepseek provider returns
  is the clean-up of the last text that is not empty among the responses of the vendor in
  this run, the initial response and those of the loop alike (of the empty text when no
  response carried one): one scan from left to right has deleted every match of the fence
  pattern, and the white space at both ends is cut off behind that, so that the content
  neither starts nor ends with white space. Nothing is said about fence markers in the
  result: deleting a match can join the text around it into a new marker.
\<close>

theorem deepseek_content_is_cleaned:
  assumes "deepseek_executeRequest env req w = (Inr response, w')"
  shows "pr_content response
           = trim (strip_fences (last_text (map d_text (responses_since env w w'))))
       \<and> no_outer_space (pr_content response)"
proof -
  from deepseek_run_accumulates [OF assms]
  have "pr_content response = trim (strip_fences (last_text (map d_text (responses_since env w w'))))"
    by (simp add: cleanContent_def)
  then show ?thesis by (simp add: trim_no_outer_space)
qed

theorem deepseek_content_is_cleaned_witness:
  \<open>map d_text (responses_since fenced_envD world0 (snd fenced_loop_runD)) = [draft_text, fenced_text]
   \<and> map_option pr_content (envelope_of (fst fenced_loop_runD)) = Some ''{"ok": true}''
   \<and> no_outer_space ''{"ok": true}''\<close>
proof -
  have "envelope_of (fst fenced_loop_runD) \<noteq> None" by code_simp
  then obtain rd where rd: "fst fenced_loop_runD = Inr rd"
    by (cases "fst fenced_loop_runD") (auto simp add: envelope_of_def)
  then have run: "deepseek_executeRequest fenced_envD weather_request world0 = (Inr rd, snd fenced_loop_runD)"
    by (simp add: fenced_loop_runD_def prod_eq_iff)
  have texts: "map d_text (responses_since fenced_envD world0 (snd fenced_loop_runD)) = [draft_text, fenced_text]"
    by code_simp
  have last: \<open>trim (strip_fences (last_text [draft_text, fenced_text])) = ''{"ok": true}''\<close>
    by code_simp
  have "pr_content rd = trim (strip_fences (last_text (map d_text (responses_since fenced_envD world0 (snd fenced_loop_runD)))))"
    using deepseek_content_is_cleaned [OF run] by (rule conjunct1)
  then have c: \<open>pr_content rd = ''{"ok": true}''\<close>
    unfolding texts last .
  have "no_outer_space (pr_content rd)"
    using deepseek_content_is_cleaned [OF run] by (rule conjunct2)
  with c have \<open>no_outer_space ''{"ok": true}''\<close> by simp
  with texts rd c show ?thesis by (simp add: envelope_of_def)
qed

text \<open>The text of two backticks, a line feed and four backticks: the scan deletes the line
  feed with the three backticks behind it, and the envelope's content is a fence marker.\<close>

theorem fence_rejoined_counterexample:
  "map_option pr_content (envelope_of (fst rejoined_runD)) = Some ''```''"
  by code_simp

end
